(* ===== verification/Prelude.thy ===== *)
theory Prelude
  imports
    Main
    "HOL-Library.AList"
    "HOL-Library.Multiset"
    "HOL-Library.Word"
    "HOL-Library.State_Monad"
    "HOL-Library.List_Lexorder"
    "HOL-Library.Char_ord"
begin

text \<open>
  Shared vocabulary of the development: Go maps and sets, the effect monad with its partial
  correctness triples, and the lemma collections that carry the component proofs.

  A Go map that the code ranges over, measures or clones is an association list: the list is
  one iteration order, and a well-formed map (\<open>wf_map\<close>) has no key twice. Go leaves the
  iteration order unspecified, so a routine that is meant not to depend on it comes with a
  lemma that says so for any two lists with the same entries. A read of an absent key gives
  the zero value.
\<close>

named_theorems render_defs \<open>definitions of the pure rendering functions\<close>
named_theorems go_simps \<open>rewrite rules for Go maps, sets and strings\<close>
named_theorems vcg \<open>rules for triples over the effect monad\<close>

section \<open>Go maps and sets\<close>

type_synonym ('k, 'v) gomap = "('k \<times> 'v) list"

definition wf_map :: "('k, 'v) gomap \<Rightarrow> bool" where
  "wf_map m \<longleftrightarrow> distinct (map fst m)"

definition idx :: "('k, string) gomap \<Rightarrow> 'k \<Rightarrow> string" where
  "idx m k = (case map_of m k of None \<Rightarrow> [] | Some v \<Rightarrow> v)"

definition maps_copy :: "('k, 'v) gomap \<Rightarrow> ('k, 'v) gomap \<Rightarrow> ('k, 'v) gomap" where
  "maps_copy dst src = fold (\<lambda>(k, v). AList.update k v) src dst"

text \<open>A \<open>map[string]struct{}\<close> used as a set is the list of its members, in iteration order.\<close>

definition set_add :: "'k \<Rightarrow> 'k list \<Rightarrow> 'k list" where
  "set_add k s = List.insert k s"

definition set_add_all :: "'k list \<Rightarrow> 'k list \<Rightarrow> 'k list" where
  "set_add_all ks s = fold set_add ks s"

lemma idx_update [go_simps]: "idx (AList.update k v m) k' = (if k = k' then v else idx m k')"
  by (simp add: idx_def update_conv')

lemma wf_map_update [go_simps]: "wf_map m \<Longrightarrow> wf_map (AList.update k v m)"
  by (simp add: wf_map_def distinct_update)

lemma map_of_maps_copy:
  "wf_map src \<Longrightarrow> map_of (maps_copy dst src) = map_of dst ++ map_of src"
proof (induction src arbitrary: dst)
  case Nil
  then show ?case by (simp add: maps_copy_def)
next
  case (Cons kv src)
  obtain k v where kv: "kv = (k, v)" by (cases kv)
  from Cons.prems kv have fresh: "map_of src k = None" and "wf_map src"
    by (auto simp: wf_map_def map_of_eq_None_iff)
  with Cons.IH [of "AList.update k v dst"] kv
  have "map_of (maps_copy dst (kv # src)) = map_of (AList.update k v dst) ++ map_of src"
    by (simp add: maps_copy_def)
  also have "\<dots> = map_of dst ++ map_of (kv # src)"
    using fresh kv by (auto simp: update_conv' map_add_def fun_eq_iff split: option.splits)
  finally show ?case .
qed

lemma idx_maps_copy [go_simps]:
  "wf_map src \<Longrightarrow> idx (maps_copy dst src) k = (case map_of src k of Some v \<Rightarrow> v | None \<Rightarrow> idx dst k)"
  by (simp add: idx_def map_of_maps_copy map_add_def split: option.splits)

lemma set_add_all_set [go_simps]: "set (set_add_all ks s) = set ks \<union> set s"
  by (induction ks arbitrary: s) (auto simp: set_add_all_def set_add_def)

lemma set_add_all_distinct [go_simps]: "distinct s \<Longrightarrow> distinct (set_add_all ks s)"
  by (induction ks arbitrary: s) (auto simp: set_add_all_def set_add_def)

lemma map_of_perm:
  assumes "mset m = mset m'" "wf_map m"
  shows "map_of m = map_of m'"
proof -
  from assms(1) have "set m = set m'" and "mset (map fst m) = mset (map fst m')"
    by (auto dest: mset_eq_setD)
  moreover from this(2) assms(2) have "distinct (map fst m')"
    unfolding wf_map_def using mset_eq_imp_distinct_iff by blast
  ultimately show ?thesis
    using assms(2) by (simp add: wf_map_def map_of_inject_set)
qed

text \<open>
  \<open>sort.Strings\<close> on the members of a set: the result is determined by the set alone, so the
  order in which Go happens to range over it is invisible.
\<close>

lemma sort_distinct_unique:
  "distinct xs \<Longrightarrow> sort (xs :: 'a::linorder list) = sorted_list_of_set (set xs)"
  by (simp add: sorted_list_of_set_sort_remdups distinct_remdups_id)

lemma sort_distinct_cong:
  "distinct xs \<Longrightarrow> distinct ys \<Longrightarrow> set xs = set ys \<Longrightarrow> sort (xs :: 'a::linorder list) = sort ys"
  by (simp add: sort_distinct_unique)

section \<open>Effects and triples\<close>

text \<open>
  Code that talks to the API server is a program of the state monad over a world type
  \<open>'w\<close> that is left open. \<open>triple P m Q\<close>: run from any world that satisfies
  \<open>P\<close>, the result and the final world satisfy \<open>Q\<close>. Every program here is a total
  function, so the triple is also total correctness.
\<close>

definition triple :: "('w \<Rightarrow> bool) \<Rightarrow> ('w, 'a) state \<Rightarrow> ('a \<Rightarrow> 'w \<Rightarrow> bool) \<Rightarrow> bool" where
  "triple P m Q \<longleftrightarrow> (\<forall>w. P w \<longrightarrow> (case run_state m w of (r, w') \<Rightarrow> Q r w'))"

lemma tripleI:
  "(\<And>w r w'. P w \<Longrightarrow> run_state m w = (r, w') \<Longrightarrow> Q r w') \<Longrightarrow> triple P m Q"
  by (auto simp: triple_def split: prod.splits)

lemma tripleD: "triple P m Q \<Longrightarrow> P w \<Longrightarrow> run_state m w = (r, w') \<Longrightarrow> Q r w'"
  by (auto simp: triple_def)

lemma triple_return [vcg]: "(\<And>w. P w \<Longrightarrow> Q x w) \<Longrightarrow> triple P (State_Monad.return x) Q"
  by (simp add: triple_def)

lemma triple_bind:
  "triple P m R \<Longrightarrow> (\<And>x. triple (R x) (f x) Q) \<Longrightarrow> triple P (State_Monad.bind m f) Q"
  by (fastforce simp: triple_def split: prod.splits)

lemma triple_weaken:
  "triple P' m Q' \<Longrightarrow> (\<And>w. P w \<Longrightarrow> P' w) \<Longrightarrow> (\<And>r w. Q' r w \<Longrightarrow> Q r w) \<Longrightarrow> triple P m Q"
  by (fastforce simp: triple_def split: prod.splits)

lemma triple_pre: "triple P' m Q \<Longrightarrow> (\<And>w. P w \<Longrightarrow> P' w) \<Longrightarrow> triple P m Q"
  by (rule triple_weaken)

lemma triple_post: "triple P m Q' \<Longrightarrow> (\<And>r w. Q' r w \<Longrightarrow> Q r w) \<Longrightarrow> triple P m Q"
  by (rule triple_weaken)

lemma triple_conj: "triple P m Q \<Longrightarrow> triple P m Q' \<Longrightarrow> triple P m (\<lambda>r w. Q r w \<and> Q' r w)"
  by (auto simp: triple_def split: prod.splits)

lemma triple_if [vcg]:
  "(b \<Longrightarrow> triple P m Q) \<Longrightarrow> (\<not> b \<Longrightarrow> triple P n Q) \<Longrightarrow> triple P (if b then m else n) Q"
  by simp

lemma triple_case_sum [vcg]:
  "(\<And>e. r = Inl e \<Longrightarrow> triple P (f e) Q) \<Longrightarrow> (\<And>x. r = Inr x \<Longrightarrow> triple P (g x) Q) \<Longrightarrow>
   triple P (case r of Inl e \<Rightarrow> f e | Inr x \<Rightarrow> g x) Q"
  by (cases r) auto

lemma triple_case_option [vcg]:
  "(r = None \<Longrightarrow> triple P f Q) \<Longrightarrow> (\<And>x. r = Some x \<Longrightarrow> triple P (g x) Q) \<Longrightarrow>
   triple P (case r of None \<Rightarrow> f | Some x \<Rightarrow> g x) Q"
  by (cases r) auto

end
