(* ===== verification/Go_Lib.thy ===== *)
theory Go_Lib
  imports Prelude
begin

text \<open>
  The parts of Go's standard library the operator uses, on strings as byte lists:
  \<open>strconv\<close>/\<open>fmt\<close> (\<open>%d\<close>, \<open>%q\<close>), \<open>strings.Join\<close>, \<open>strings.Cut\<close>,
  \<open>strings.ContainsAny\<close>, \<open>strings.ToLower\<close>, and error values with the wrapping of
  \<open>fmt.Errorf("...: %w", err)\<close>.

  Strings the operator handles are names, labels and image references, all ASCII by the
  admission patterns. On bytes above 127 Go decodes UTF-8 in \<open>%q\<close> and \<open>ToLower\<close>; the
  functions here leave such bytes as they are.
\<close>

section \<open>Decimal numbers: the verb \<open>%d\<close>\<close>

definition digit :: "nat \<Rightarrow> char" where
  "digit d = char_of (48 + d)"

fun itoa_nat :: "nat \<Rightarrow> string" where
  "itoa_nat n = (if n < 10 then [digit n] else itoa_nat (n div 10) @ [digit (n mod 10)])"

declare itoa_nat.simps [simp del]

definition itoa :: "int \<Rightarrow> string" where
  "itoa i = (if i < 0 then ''-'' @ itoa_nat (nat (- i)) else itoa_nat (nat i))"

definition digit_val :: "char \<Rightarrow> nat" where
  "digit_val c = of_char c - 48"

definition is_digit :: "char \<Rightarrow> bool" where
  "is_digit c \<longleftrightarrow> 48 \<le> (of_char c :: nat) \<and> (of_char c :: nat) \<le> 57"

definition decimal_val :: "string \<Rightarrow> nat" where
  "decimal_val s = foldl (\<lambda>a c. 10 * a + digit_val c) 0 s"

lemma digit_val_digit [simp]: "d < 10 \<Longrightarrow> digit_val (digit d) = d"
  by (simp add: digit_val_def digit_def)

lemma is_digit_digit [simp]: "d < 10 \<Longrightarrow> is_digit (digit d)"
  by (simp add: is_digit_def digit_def)

lemma digit_digit_val: "is_digit c \<Longrightarrow> digit (digit_val c) = c"
  by (simp add: is_digit_def digit_val_def digit_def)

lemma digit_val_less: "is_digit c \<Longrightarrow> digit_val c < 10"
  unfolding is_digit_def digit_val_def by linarith

lemma decimal_val_snoc [simp]: "decimal_val (s @ [c]) = 10 * decimal_val s + digit_val c"
  by (simp add: decimal_val_def)

lemma decimal_val_single [simp]: "decimal_val [c] = digit_val c"
  by (simp add: decimal_val_def)

lemma decimal_val_itoa_nat: "decimal_val (itoa_nat n) = n"
proof (induction n rule: itoa_nat.induct)
  case (1 n)
  then show ?case by (subst itoa_nat.simps) simp
qed

lemma itoa_nat_digits: "list_all is_digit (itoa_nat n)"
proof (induction n rule: itoa_nat.induct)
  case (1 n)
  then show ?case by (subst itoa_nat.simps) simp
qed

lemma itoa_nat_nonempty [simp]: "itoa_nat n \<noteq> []"
  by (subst itoa_nat.simps) simp

lemma itoa_nat_inject: "itoa_nat m = itoa_nat n \<Longrightarrow> m = n"
  by (metis decimal_val_itoa_nat)

lemma itoa_nat_hd: "0 < n \<Longrightarrow> hd (itoa_nat n) \<noteq> digit 0"
proof (induction n rule: itoa_nat.induct)
  case (1 n)
  show ?case
  proof (cases "n < 10")
    case True
    with "1.prems" show ?thesis
      by (subst itoa_nat.simps) (auto dest: arg_cong [where f = digit_val])
  next
    case False
    with 1 have "hd (itoa_nat (n div 10)) \<noteq> digit 0" by simp
    with False show ?thesis by (subst itoa_nat.simps) simp
  qed
qed

text \<open>
  The canonical spellings: a nonempty digit string with no leading zero is exactly what
  \<open>%d\<close> prints for its value.
\<close>

lemma itoa_nat_decimal_val:
  "list_all is_digit s \<Longrightarrow> s \<noteq> [] \<Longrightarrow> hd s \<noteq> digit 0 \<Longrightarrow> itoa_nat (decimal_val s) = s"
proof (induction s rule: rev_induct)
  case Nil
  then show ?case by simp
next
  case (snoc c s)
  from snoc.prems have c: "is_digit c" by simp
  note dc = digit_val_less [OF c] digit_digit_val [OF c]
  show ?case
  proof (cases "s = []")
    case True
    with dc show ?thesis by (subst itoa_nat.simps) (simp add: True)
  next
    case False
    with snoc have IH: "itoa_nat (decimal_val s) = s" and "hd s \<noteq> digit 0" by simp_all
    have "decimal_val s \<noteq> 0"
    proof
      assume "decimal_val s = 0"
      with IH have "s = [digit 0]" by (simp add: itoa_nat.simps [of 0])
      with \<open>hd s \<noteq> digit 0\<close> show False by simp
    qed
    then have "\<not> 10 * decimal_val s + digit_val c < 10" by simp
    with dc IH show ?thesis by (subst itoa_nat.simps) simp
  qed
qed

section \<open>Quoted strings: the verb \<open>%q\<close>\<close>

definition hex_digit :: "nat \<Rightarrow> char" where
  "hex_digit d = (if d < 10 then char_of (48 + d) else char_of (87 + d))"

definition quote_char :: "char \<Rightarrow> string" where
  "quote_char c = (let n = (of_char c :: nat); backslash = CHR 0x5C in
     if n = 0x22 \<or> n = 0x5C then [backslash, c]
     else if n = 7 then [backslash, CHR ''a'']
     else if n = 8 then [backslash, CHR ''b'']
     else if n = 9 then [backslash, CHR ''t'']
     else if n = 10 then [backslash, CHR ''n'']
     else if n = 11 then [backslash, CHR ''v'']
     else if n = 12 then [backslash, CHR ''f'']
     else if n = 13 then [backslash, CHR ''r'']
     else if n < 0x20 \<or> n = 0x7F then [backslash, CHR ''x'', hex_digit (n div 16), hex_digit (n mod 16)]
     else [c])"

definition quote :: "string \<Rightarrow> string" where
  "quote s = [CHR 0x22] @ concat (map quote_char s) @ [CHR 0x22]"

section \<open>Package strings\<close>

fun join :: "string list \<Rightarrow> string \<Rightarrow> string" where
  "join [] sep = []"
| "join [x] sep = x"
| "join (x # xs) sep = x @ sep @ join xs sep"

text \<open>\<open>strings.Cut(s, sep)\<close> for a one-byte separator: before, after, found.\<close>

fun cut :: "string \<Rightarrow> char \<Rightarrow> string \<times> string \<times> bool" where
  "cut [] sep = ([], [], False)"
| "cut (c # s) sep =
     (if c = sep then ([], s, True)
      else (case cut s sep of (before, after, found) \<Rightarrow> (c # before, after, found)))"

definition contains_any :: "string \<Rightarrow> string \<Rightarrow> bool" where
  "contains_any s chars \<longleftrightarrow> list_ex (\<lambda>c. c \<in> set chars) s"

definition is_upper :: "char \<Rightarrow> bool" where
  "is_upper c \<longleftrightarrow> 65 \<le> (of_char c :: nat) \<and> (of_char c :: nat) \<le> 90"

definition lower_char :: "char \<Rightarrow> char" where
  "lower_char c = (if is_upper c then char_of (of_char c + 32 :: nat) else c)"

definition to_lower :: "string \<Rightarrow> string" where
  "to_lower s = map lower_char s"

lemma cut_absent [go_simps]: "sep \<notin> set s \<Longrightarrow> cut s sep = (s, [], False)"
  by (induction s) auto

lemma cut_append [go_simps]: "sep \<notin> set s \<Longrightarrow> cut (s @ sep # t) sep = (s, t, True)"
  by (induction s) auto

lemma cut_found_iff: "snd (snd (cut s sep)) \<longleftrightarrow> sep \<in> set s"
  by (induction s) (auto split: prod.splits)

lemma cut_before: "fst (cut s sep) = takeWhile (\<lambda>c. c \<noteq> sep) s"
  by (induction s) (auto split: prod.splits)

lemma cut_prefix: "sep \<in> set s \<Longrightarrow> cut (s @ t) sep = (fst (cut s sep), fst (snd (cut s sep)) @ t, True)"
  by (induction s) (auto split: prod.splits)

lemma lower_char_fixed: "lower_char c = c \<longleftrightarrow> \<not> is_upper c"
proof (cases "is_upper c")
  case True
  then have "(of_char c :: nat) + 32 < 256" by (simp add: is_upper_def)
  then have "(of_char (lower_char c) :: nat) = of_char c + 32"
    using True by (simp add: lower_char_def)
  with True show ?thesis by auto
next
  case False
  then show ?thesis by (simp add: lower_char_def)
qed

lemma to_lower_fixed: "to_lower s = s \<longleftrightarrow> \<not> list_ex is_upper s"
  by (induction s) (auto simp: to_lower_def lower_char_fixed)

section \<open>Errors\<close>

text \<open>
  An error is a status error of the API server, with its reason and its text, a fresh
  \<open>fmt.Errorf\<close> error, or one that wraps another with \<open>%w\<close>. \<open>apierrors.IsNotFound\<close>,
  \<open>IsAlreadyExists\<close> and \<open>IsConflict\<close> read the reason through the wrapping.
\<close>

datatype api_reason = NotFound | AlreadyExists | Conflict | OtherReason

datatype go_error =
    ApiStatus api_reason string
  | Errorf string
  | Wrapf string go_error

fun error_text :: "go_error \<Rightarrow> string" where
  "error_text (ApiStatus reason msg) = msg"
| "error_text (Errorf msg) = msg"
| "error_text (Wrapf prefix err) = prefix @ '': '' @ error_text err"

fun reason_of :: "go_error \<Rightarrow> api_reason" where
  "reason_of (ApiStatus reason msg) = reason"
| "reason_of (Errorf msg) = OtherReason"
| "reason_of (Wrapf prefix err) = reason_of err"

definition is_not_found :: "go_error \<Rightarrow> bool" where
  "is_not_found err \<longleftrightarrow> reason_of err = NotFound"

definition is_already_exists :: "go_error \<Rightarrow> bool" where
  "is_already_exists err \<longleftrightarrow> reason_of err = AlreadyExists"

definition is_conflict :: "go_error \<Rightarrow> bool" where
  "is_conflict err \<longleftrightarrow> reason_of err = Conflict"

definition ignore_not_found :: "go_error \<Rightarrow> go_error option" where
  "ignore_not_found err = (if is_not_found err then None else Some err)"

type_synonym ('w, 'a) io = "('w, go_error + 'a) state"

end
