(* ===== verification/Kube_Types.thy ===== *)
theory Kube_Types
  imports Go_Lib
begin

text \<open>
  The fields of the Kubernetes API objects that the operator reads or writes: object metadata,
  Namespaces, ConfigMaps, Secrets, PersistentVolumeClaims, Deployments, Services and Pods. The
  types are declared outside the repository; a field the operator never names is left out,
  except some that it must preserve (\<open>RunAsNonRoot\<close>, \<open>InitContainers\<close>, \<open>RestartPolicy\<close>) and
  those the server fills in below a value that the operator writes as a whole, such as
  \<open>ImagePullPolicy\<close> of a container.
  \<open>client.Object\<close> is the record scheme \<open>'a object_meta_scheme\<close>: every object
  extends its metadata. A nil slice and an empty slice are the same list, as they are for the
  API machinery's semantic equality. Pointers to values are options; int32 and int64 are words
  read as two's complement.
\<close>

type_synonym int32 = "32 word"
type_synonym int64 = "64 word"
type_synonym labels = "(string, string) gomap"
type_synonym quantity = string
type_synonym resource_requirements = "(string \<times> quantity) list"

text \<open>A namespaced object key: namespace, then name.\<close>

type_synonym obj_key = "string \<times> string"

record object_meta =
  Name :: string
  Namespace :: string
  Labels :: labels
  UID :: string
  ResourceVersion :: nat
  Generation :: int64
  CreationTimestamp :: "nat option"
  DeletionTimestamp :: "nat option"
  Finalizers :: "string list"

definition obj_key :: "'a object_meta_scheme \<Rightarrow> obj_key" where
  "obj_key obj = (Namespace obj, Name obj)"

text \<open>\<open>metav1.ObjectMeta{Name: name, Namespace: ns}\<close>: every other field at its zero value.\<close>

definition new_meta :: "string \<Rightarrow> string \<Rightarrow> object_meta" where
  "new_meta ns name = \<lparr>Name = name, Namespace = ns, Labels = [], UID = [], ResourceVersion = 0,
     Generation = 0, CreationTimestamp = None, DeletionTimestamp = None, Finalizers = []\<rparr>"

text \<open>Of a Namespace only the metadata matters.\<close>

type_synonym namespace = object_meta

record config_map = object_meta +
  CmData :: "(string, string) gomap"

record secret = object_meta +
  SecretType :: string
  SecretData :: "(string, string) gomap"

record pvc = object_meta +
  PvcAccessModes :: "string list"
  PvcStorageClassName :: "string option"
  PvcRequests :: "(string, quantity) gomap"

section \<open>Pod specifications\<close>

datatype local_object_reference = LocalObjectReference (RefName: string)

record env_var =
  EnvName :: string
  EnvValue :: string

record env_from_source =
  ConfigMapRef :: "local_object_reference option"
  SecretRef :: "local_object_reference option"

record container_port =
  ContainerPort :: int32
  CpProtocol :: string

record volume_mount =
  MountName :: string
  VmMountPath :: string

datatype volume_source = PersistentVolumeClaim (ClaimName: string) | OtherVolumeSource string

record volume =
  VolumeName :: string
  VolumeSource :: volume_source

datatype intstr_type = IntstrInt | IntstrString

record int_or_string =
  IosType :: intstr_type
  IntVal :: int32
  StrVal :: string

record tcp_socket_action =
  TcpPort :: int_or_string

record http_get_action =
  HttpPath :: string
  HttpPort :: int_or_string
  HttpScheme :: string

record probe_handler =
  Exec :: "string list option"
  HTTPGet :: "http_get_action option"
  TCPSocket :: "tcp_socket_action option"
  GRPC :: "int32 option"

record probe =
  ProbeHandler :: probe_handler
  InitialDelaySeconds :: int32
  TimeoutSeconds :: int32
  PeriodSeconds :: int32
  SuccessThreshold :: int32
  FailureThreshold :: int32

record container =
  CName :: string
  CImage :: string
  CPorts :: "container_port list"
  CResources :: resource_requirements
  CEnv :: "env_var list"
  CEnvFrom :: "env_from_source list"
  CVolumeMounts :: "volume_mount list"
  CReadinessProbe :: "probe option"
  CImagePullPolicy :: string
  CTerminationMessagePath :: string
  CTerminationMessagePolicy :: string

record pod_security_context =
  FSGroup :: "int64 option"
  RunAsNonRoot :: "bool option"

record pod_spec =
  InitContainers :: "container list"
  Containers :: "container list"
  Volumes :: "volume list"
  ImagePullSecrets :: "local_object_reference list"
  SecurityContext :: "pod_security_context option"
  RestartPolicy :: string
  TerminationGracePeriodSeconds :: "int64 option"

record pod_template =
  TemplateLabels :: labels
  TemplateSpec :: pod_spec

section \<open>Deployments and Services\<close>

datatype condition_status = ConditionTrue | ConditionFalse | ConditionUnknown

record deployment_spec =
  Replicas :: "int32 option"
  Selector :: "labels option"
  Template :: pod_template
  RevisionHistoryLimit :: "int32 option"
  ProgressDeadlineSeconds :: "int32 option"

record deployment_condition =
  DcType :: string
  DcStatus :: condition_status
  DcReason :: string
  DcMessage :: string

record deployment_status =
  DsObservedGeneration :: int64
  UpdatedReplicas :: int32
  ReadyReplicas :: int32
  DsConditions :: "deployment_condition list"

record deployment = object_meta +
  DeploySpec :: deployment_spec
  DeployStatus :: deployment_status

record service_port =
  SpName :: string
  SpPort :: int32
  SpTargetPort :: int_or_string
  SpProtocol :: string

record service = object_meta +
  SvcSelector :: labels
  SvcType :: string
  SvcPorts :: "service_port list"

section \<open>Pods\<close>

record container_state_waiting =
  WaitReason :: string
  WaitMessage :: string

record container_state_terminated =
  ExitCode :: int32
  TermReason :: string

record container_state =
  Waiting :: "container_state_waiting option"
  Terminated :: "container_state_terminated option"

record container_status =
  CsName :: string
  CsReady :: bool
  CsState :: container_state
  LastTerminationState :: container_state
  RestartCount :: int32

record pod_condition =
  PcType :: string
  PcStatus :: condition_status
  PcReason :: string
  PcMessage :: string

record pod = object_meta +
  PodConditions :: "pod_condition list"
  InitContainerStatuses :: "container_status list"
  ContainerStatuses :: "container_status list"

section \<open>Status conditions of custom resources: \<open>metav1.Condition\<close>\<close>

record condition =
  CondType :: string
  CondStatus :: condition_status
  CondReason :: string
  CondMessage :: string
  CondObservedGeneration :: int64
  LastTransitionTime :: nat

section \<open>Zero values of freshly declared objects\<close>

definition empty_pod_spec :: pod_spec where
  "empty_pod_spec = \<lparr>InitContainers = [], Containers = [], Volumes = [], ImagePullSecrets = [],
     SecurityContext = None, RestartPolicy = [], TerminationGracePeriodSeconds = None\<rparr>"

definition empty_deployment_status :: deployment_status where
  "empty_deployment_status = \<lparr>DsObservedGeneration = 0, UpdatedReplicas = 0, ReadyReplicas = 0,
     DsConditions = []\<rparr>"

definition new_config_map :: "string \<Rightarrow> string \<Rightarrow> config_map" where
  "new_config_map ns name = object_meta.extend (new_meta ns name) (config_map.fields [])"

definition new_secret :: "string \<Rightarrow> string \<Rightarrow> secret" where
  "new_secret ns name = object_meta.extend (new_meta ns name) (secret.fields [] [])"

definition new_pvc :: "string \<Rightarrow> string \<Rightarrow> pvc" where
  "new_pvc ns name = object_meta.extend (new_meta ns name) (pvc.fields [] None [])"

definition new_deployment :: "string \<Rightarrow> string \<Rightarrow> deployment" where
  "new_deployment ns name = object_meta.extend (new_meta ns name)
     (deployment.fields
        \<lparr>Replicas = None, Selector = None,
         Template = \<lparr>TemplateLabels = [], TemplateSpec = empty_pod_spec\<rparr>,
         RevisionHistoryLimit = None, ProgressDeadlineSeconds = None\<rparr>
        empty_deployment_status)"

definition new_service :: "string \<Rightarrow> string \<Rightarrow> service" where
  "new_service ns name = object_meta.extend (new_meta ns name) (service.fields [] [] [])"

end
