(* ===== verification/Api_Types.thy ===== *)
theory Api_Types
  imports Kube_Types
begin

text \<open>
  The custom resource, \<open>api/v1alpha1/devenvironment_types.go\<close>: phases and condition types,
  \<open>StorageSpec\<close>, \<open>ServiceSpec\<close>, \<open>DevEnvironmentSpec\<close>, \<open>DevEnvironmentStatus\<close>,
  \<open>DevEnvironment\<close> and \<open>TargetNamespace\<close>. Here they are values;
  \<open>Deep_Copy\<close> has them as they lie in memory, and shows that a copy has the same value.
\<close>

text \<open>\<open>PhaseUnset\<close> is the empty string a status starts with.\<close>

datatype dev_environment_phase =
  PhaseUnset | PhasePending | PhaseProvisioning | PhaseReady | PhaseFailed

definition ConditionAvailable :: string where "ConditionAvailable = ''Available''"
definition ConditionProgressing :: string where "ConditionProgressing = ''Progressing''"
definition ConditionDegraded :: string where "ConditionDegraded = ''Degraded''"

record storage_spec =
  Size :: quantity
  StorageClassName :: "string option"
  AccessModes :: "string list"
  StorageFSGroup :: "int64 option"

record service_spec =
  SvcName :: string
  Image :: string
  SvcRegistry :: string
  Port :: int32
  SvcReplicas :: "int32 option"
  Env :: "(string, string) gomap"
  SecretRefs :: "string list"
  SvcImagePullSecrets :: "string list"
  MountPath :: string
  Resources :: resource_requirements
  ReadinessProbe :: "probe option"

record dev_environment_spec =
  NamespaceName :: string
  Owner :: string
  Storage :: "storage_spec option"
  Registry :: string
  EnvImagePullSecrets :: "string list"
  Services :: "service_spec list"
  Config :: "(string, string) gomap"

record dev_environment_status =
  Phase :: dev_environment_phase
  StatusNamespace :: string
  ReadyServices :: int32
  TotalServices :: int32
  ObservedGeneration :: int64
  Conditions :: "condition list"

record dev_environment = object_meta +
  Spec :: dev_environment_spec
  Status :: dev_environment_status

definition TargetNamespace :: "dev_environment \<Rightarrow> string" where
  "TargetNamespace d = (if NamespaceName (Spec d) \<noteq> [] then NamespaceName (Spec d) else Name d)"

section \<open>A sample environment\<close>

text \<open>
  The fixture of the repository's unit tests (\<open>newEnv\<close>): one redis service and one
  configuration entry. The witnesses evaluate the development on it.
\<close>

definition sample_service :: service_spec where
  "sample_service = \<lparr>SvcName = ''redis'', Image = ''redis:7-alpine'', SvcRegistry = [], Port = 6379,
     SvcReplicas = None, Env = [], SecretRefs = [], SvcImagePullSecrets = [], MountPath = [],
     Resources = [], ReadinessProbe = None\<rparr>"

definition sample_spec :: dev_environment_spec where
  "sample_spec = \<lparr>NamespaceName = [], Owner = ''team-alpha'', Storage = None, Registry = [],
     EnvImagePullSecrets = [], Services = [sample_service], Config = [(''LOG_LEVEL'', ''debug'')]\<rparr>"

definition empty_status :: dev_environment_status where
  "empty_status = \<lparr>Phase = PhaseUnset, StatusNamespace = [], ReadyServices = 0, TotalServices = 0,
     ObservedGeneration = 0, Conditions = []\<rparr>"

definition sample_env :: dev_environment where
  "sample_env = object_meta.extend (new_meta ''default'' ''team-alpha'')
     (dev_environment.fields sample_spec empty_status)"

lemma sample_env_simps [simp]:
  "Name sample_env = ''team-alpha''" "Namespace sample_env = ''default''"
  "Spec sample_env = sample_spec" "Status sample_env = empty_status"
  "DeletionTimestamp sample_env = None" "Finalizers sample_env = []"
  by (simp_all add: sample_env_def new_meta_def object_meta.defs dev_environment.defs)

end
