(* ===== verification/Naming.thy ===== *)
theory Naming
  imports Api_Types
begin

text \<open>
  The names and labels that tie objects to their DevEnvironment, from
  \<open>internal/controller/devenvironment_controller.go\<close> (constants, \<open>labels\<close>, \<open>owns\<close>,
  \<open>configMapName\<close>, \<open>pvcName\<close>) and \<open>internal/controller/mapping.go\<close>
  (\<open>mapToEnvironment\<close>, \<open>intstrFromInt32\<close>).
\<close>

definition finalizerName :: string where "finalizerName = ''devenv.aviture.dev/finalizer''"
definition labelManagedBy :: string where "labelManagedBy = ''app.kubernetes.io/managed-by''"
definition labelEnvironment :: string where "labelEnvironment = ''devenv.aviture.dev/environment''"
definition labelOwnerNamespace :: string where
  "labelOwnerNamespace = ''devenv.aviture.dev/owner-namespace''"
definition labelService :: string where "labelService = ''devenv.aviture.dev/service''"
definition labelOwner :: string where "labelOwner = ''devenv.aviture.dev/owner''"
definition managerName :: string where "managerName = ''kado-operator''"
definition sharedVolumeName :: string where "sharedVolumeName = ''workspace''"

lemmas label_defs = labelManagedBy_def labelEnvironment_def labelOwnerNamespace_def
  labelService_def labelOwner_def

text \<open>The five label keys are pairwise different.\<close>

lemma label_keys_distinct:
  "distinct [labelManagedBy, labelEnvironment, labelOwnerNamespace, labelService, labelOwner]"
  by (simp add: label_defs)

lemma label_keys_neq [simp]:
  "labelManagedBy \<noteq> labelEnvironment" "labelManagedBy \<noteq> labelOwnerNamespace" "labelManagedBy \<noteq> labelService" "labelManagedBy \<noteq> labelOwner"
  "labelEnvironment \<noteq> labelManagedBy" "labelEnvironment \<noteq> labelOwnerNamespace" "labelEnvironment \<noteq> labelService" "labelEnvironment \<noteq> labelOwner"
  "labelOwnerNamespace \<noteq> labelManagedBy" "labelOwnerNamespace \<noteq> labelEnvironment" "labelOwnerNamespace \<noteq> labelService" "labelOwnerNamespace \<noteq> labelOwner"
  "labelService \<noteq> labelManagedBy" "labelService \<noteq> labelEnvironment" "labelService \<noteq> labelOwnerNamespace" "labelService \<noteq> labelOwner"
  "labelOwner \<noteq> labelManagedBy" "labelOwner \<noteq> labelEnvironment" "labelOwner \<noteq> labelOwnerNamespace" "labelOwner \<noteq> labelService"
  by (simp_all add: label_defs)

lemma managerName_nonempty [simp]: "managerName \<noteq> []"
  by (simp add: managerName_def)

definition labels :: "dev_environment \<Rightarrow> string \<Rightarrow> labels" where
  "labels env service =
     (let l = [(labelManagedBy, managerName),
               (labelEnvironment, Name env),
               (labelOwnerNamespace, Namespace env)];
          l = (if Owner (Spec env) \<noteq> [] then AList.update labelOwner (Owner (Spec env)) l else l)
      in (if service \<noteq> [] then AList.update labelService service l else l))"

definition owns :: "dev_environment \<Rightarrow> 'a object_meta_scheme \<Rightarrow> bool" where
  "owns env obj =
     (let l = Labels obj
      in idx l labelManagedBy = managerName \<and>
         idx l labelEnvironment = Name env \<and>
         idx l labelOwnerNamespace = Namespace env)"

definition configMapName :: "dev_environment \<Rightarrow> string" where
  "configMapName env = Name env @ ''-config''"

definition pvcName :: "dev_environment \<Rightarrow> string" where
  "pvcName env = Name env @ ''-workspace''"

text \<open>A reconcile request names a DevEnvironment by namespace and name.\<close>

record request =
  ReqNamespace :: string
  ReqName :: string

definition mapToEnvironment :: "'a object_meta_scheme \<Rightarrow> request list" where
  "mapToEnvironment obj =
     (let l = Labels obj
      in if idx l labelManagedBy \<noteq> managerName then []
         else let name = idx l labelEnvironment; ns = idx l labelOwnerNamespace
              in if name = [] \<or> ns = [] then []
                 else [\<lparr>ReqNamespace = ns, ReqName = name\<rparr>])"

definition intstrFromInt32 :: "int32 \<Rightarrow> int_or_string" where
  "intstrFromInt32 port = \<lparr>IosType = IntstrInt, IntVal = port, StrVal = []\<rparr>"

section \<open>Facts\<close>

lemma wf_labels [simp]: "wf_map (labels env service)"
  by (simp add: labels_def Let_def go_simps) (simp add: wf_map_def)

lemma idx_labels [simp]:
  "idx (labels env service) labelManagedBy = managerName"
  "idx (labels env service) labelEnvironment = Name env"
  "idx (labels env service) labelOwnerNamespace = Namespace env"
  "idx (labels env service) labelOwner = Owner (Spec env)"
  "idx (labels env service) labelService = service"
  by (simp_all add: labels_def Let_def go_simps) (simp_all add: idx_def)

lemma owns_labels: "Labels obj = labels env service \<Longrightarrow> owns env obj"
  by (simp add: owns_def)

text \<open>
  Merging the operator's labels into an object's leaves every foreign key alone and makes the
  object owned.
\<close>

lemma idx_merge_labels:
  "idx (maps_copy l (labels env service)) k =
     (case map_of (labels env service) k of Some v \<Rightarrow> v | None \<Rightarrow> idx l k)"
  by (simp add: idx_maps_copy)

lemma map_of_labels:
  "map_of (labels env service) k =
     (if k = labelManagedBy then Some managerName
      else if k = labelEnvironment then Some (Name env)
      else if k = labelOwnerNamespace then Some (Namespace env)
      else if k = labelOwner \<and> Owner (Spec env) \<noteq> [] then Some (Owner (Spec env))
      else if k = labelService \<and> service \<noteq> [] then Some service
      else None)"
  by (simp add: labels_def Let_def update_conv' label_keys_neq)

lemma owns_merge: "Labels obj = maps_copy l (labels env service) \<Longrightarrow> owns env obj"
  by (simp add: owns_def idx_merge_labels map_of_labels)

lemma owns_same_identity:
  "Name env = Name env' \<Longrightarrow> Namespace env = Namespace env' \<Longrightarrow> owns env obj = owns env' obj"
  by (simp add: owns_def)

text \<open>
  The label mapping inverts ownership: a watched object that an environment with a proper
  key owns is mapped to a reconcile request for exactly that environment, and an object that is
  mapped to a request is owned by the environment the request names.
\<close>

theorem mapToEnvironment_owns:
  assumes "Name env \<noteq> []" and "Namespace env \<noteq> []"
  shows "owns env obj \<longleftrightarrow>
    mapToEnvironment obj = [\<lparr>ReqNamespace = Namespace env, ReqName = Name env\<rparr>]"
  using assms by (auto simp: owns_def mapToEnvironment_def Let_def)

definition sample_namespace :: namespace where
  "sample_namespace = (new_meta [] ''team-alpha'')\<lparr>Labels := labels sample_env []\<rparr>"

theorem mapToEnvironment_owns_witness:
  "owns sample_env sample_namespace \<and>
   mapToEnvironment sample_namespace = [\<lparr>ReqNamespace = ''default'', ReqName = ''team-alpha''\<rparr>]"
proof -
  have "owns sample_env sample_namespace"
    by (rule owns_labels) (simp add: sample_namespace_def)
  then show ?thesis
    using mapToEnvironment_owns [of sample_env sample_namespace] by simp
qed

end
