(* ===== verification/Images.thy ===== *)
theory Images
  imports Naming
begin

text \<open>
  Image references: \<open>hasRegistry\<close> and \<open>imageRef\<close> of
  \<open>internal/controller/devenvironment_controller.go\<close>. A registry (the service's own, else
  the environment's) is prefixed onto an image that does not already name one, by Docker's
  rule for the first path segment.
\<close>

definition hasRegistry :: "string \<Rightarrow> bool" where
  "hasRegistry img =
     (case cut img (CHR ''/'') of (first, _, found) \<Rightarrow>
        if \<not> found then False
        else first = ''localhost'' \<or> contains_any first ''.:'' \<or> to_lower first \<noteq> first)"

definition imageRef :: "dev_environment \<Rightarrow> service_spec \<Rightarrow> string" where
  "imageRef env spec =
     (let registry = SvcRegistry spec;
          registry = (if registry = [] then Registry (Spec env) else registry)
      in if registry = [] \<or> hasRegistry (Image spec) then Image spec
         else registry @ ''/'' @ Image spec)"

section \<open>Docker's rule\<close>

text \<open>The host part of a reference: everything before the first slash.\<close>

definition first_segment :: "string \<Rightarrow> string" where
  "first_segment img = takeWhile (\<lambda>c. c \<noteq> CHR ''/'') img"

definition names_host :: "string \<Rightarrow> bool" where
  "names_host seg \<longleftrightarrow> seg = ''localhost'' \<or> (\<exists>c \<in> set seg. c = CHR ''.'' \<or> c = CHR '':'' \<or> is_upper c)"

lemma names_host_alt:
  "names_host seg \<longleftrightarrow> seg = ''localhost'' \<or> contains_any seg ''.:'' \<or> to_lower seg \<noteq> seg"
  by (auto simp: names_host_def contains_any_def to_lower_fixed list_ex_iff)

lemma hasRegistry_iff:
  "hasRegistry img \<longleftrightarrow> CHR ''/'' \<in> set img \<and> names_host (first_segment img)"
  using cut_found_iff [of img "CHR ''/''"] cut_before [of img "CHR ''/''"]
  by (auto simp: hasRegistry_def names_host_alt first_segment_def split: prod.splits)

lemma first_segment_append:
  "first_segment (registry @ CHR ''/'' # img) = first_segment registry"
  by (induction registry) (auto simp: first_segment_def)

lemma hasRegistry_prefixed:
  "hasRegistry (registry @ CHR ''/'' # img) \<longleftrightarrow> names_host (first_segment registry)"
  by (simp add: hasRegistry_iff first_segment_append)

lemma first_segment_whole: "CHR ''/'' \<notin> set host \<Longrightarrow> first_segment host = host"
  by (auto simp: first_segment_def takeWhile_eq_all_conv)

lemma names_registry_alt:
  "(\<exists>host rest. img = host @ CHR ''/'' # rest \<and> CHR ''/'' \<notin> set host \<and> names_host host) \<longleftrightarrow> hasRegistry img"
proof
  assume "hasRegistry img"
  then have slash: "CHR ''/'' \<in> set img" and named: "names_host (first_segment img)"
    by (simp_all add: hasRegistry_iff)
  from split_list_first [OF slash] obtain host rest
    where img: "img = host @ CHR ''/'' # rest" "CHR ''/'' \<notin> set host" by blast
  with named have "names_host host" by (simp add: first_segment_append first_segment_whole)
  with img show "\<exists>host rest. img = host @ CHR ''/'' # rest \<and> CHR ''/'' \<notin> set host \<and> names_host host" by blast
qed (auto simp: hasRegistry_prefixed first_segment_whole)

lemma own_prefix: "registry @ CHR ''/'' # img \<noteq> img"
  by (metis append_Cons append_assoc append_Nil append_same_eq list.distinct(1))

section \<open>Properties\<close>

text \<open>
  C26. Which image a service runs, and when writing the resolved image out is safe. An image
  that already names a registry, by Docker's rule that the part before the first slash is
  \<open>localhost\<close> or has a dot, a colon or an uppercase letter, is used as written; any other image
  gets the service's registry when it sets one, else the environment's, else none. Feeding the
  result back as the image of the same service yields the same result exactly when no registry
  is set, the image names one, or the registry set names a host; a bare organisation such as
  \<open>mirror\<close>, which the field allows, is put in front a second time.
\<close>

theorem imageRef_resolution:
  "let registry = (if SvcRegistry spec = [] then Registry (Spec env) else SvcRegistry spec);
       named = (\<exists>host rest. Image spec = host @ CHR ''/'' # rest \<and> CHR ''/'' \<notin> set host \<and> names_host host);
       ref = imageRef env spec
   in ref = (if registry = [] then Image spec else if named then Image spec else registry @ ''/'' @ Image spec) \<and>
      (imageRef env (spec\<lparr>Image := ref\<rparr>) = ref \<longleftrightarrow>
         registry = [] \<or> named \<or> names_host (takeWhile (\<lambda>c. c \<noteq> CHR ''/'') registry))"
  unfolding Let_def names_registry_alt
  using own_prefix by (auto simp: imageRef_def Let_def hasRegistry_prefixed first_segment_def [symmetric])

end
