(* ===== verification/Regex.thy ===== *)
theory Regex
  imports Go_Lib
begin

text \<open>
  Regular expressions as the validation markers use them: character classes, concatenation,
  alternation, repetition. \<open>matches\<close> decides a whole-string match by derivatives; \<open>re_lang\<close>
  is the declarative meaning, and \<open>matches_iff\<close> says they agree.
\<close>

datatype rexp = Zero | Eps | Cls string | Seq rexp rexp | Alt rexp rexp | Star rexp

fun nullable :: "rexp \<Rightarrow> bool" where
  "nullable Zero = False"
| "nullable Eps = True"
| "nullable (Cls cs) = False"
| "nullable (Seq r s) = (nullable r \<and> nullable s)"
| "nullable (Alt r s) = (nullable r \<or> nullable s)"
| "nullable (Star r) = True"

fun deriv :: "char \<Rightarrow> rexp \<Rightarrow> rexp" where
  "deriv c Zero = Zero"
| "deriv c Eps = Zero"
| "deriv c (Cls cs) = (if c \<in> set cs then Eps else Zero)"
| "deriv c (Seq r s) =
     (if nullable r then Alt (Seq (deriv c r) s) (deriv c s) else Seq (deriv c r) s)"
| "deriv c (Alt r s) = Alt (deriv c r) (deriv c s)"
| "deriv c (Star r) = Seq (deriv c r) (Star r)"

fun matches :: "rexp \<Rightarrow> string \<Rightarrow> bool" where
  "matches r [] = nullable r"
| "matches r (c # s) = matches (deriv c r) s"

text \<open>The operators \<open>r?\<close>, \<open>r{n}\<close>, \<open>r{0,n}\<close> and a literal string.\<close>

definition Opt :: "rexp \<Rightarrow> rexp" where "Opt r = Alt r Eps"

fun rep :: "nat \<Rightarrow> rexp \<Rightarrow> rexp" where
  "rep 0 r = Eps"
| "rep (Suc n) r = Seq r (rep n r)"

fun rep_upto :: "nat \<Rightarrow> rexp \<Rightarrow> rexp" where
  "rep_upto 0 r = Eps"
| "rep_upto (Suc n) r = Alt Eps (Seq r (rep_upto n r))"

fun lit :: "string \<Rightarrow> rexp" where
  "lit [] = Eps"
| "lit (c # s) = Seq (Cls [c]) (lit s)"

fun alts :: "rexp list \<Rightarrow> rexp" where
  "alts [] = Zero"
| "alts (r # rs) = Alt r (alts rs)"

inductive re_lang :: "rexp \<Rightarrow> string \<Rightarrow> bool" where
  Eps: "re_lang Eps []"
| Cls: "c \<in> set cs \<Longrightarrow> re_lang (Cls cs) [c]"
| Seq: "re_lang r s \<Longrightarrow> re_lang r' s' \<Longrightarrow> re_lang (Seq r r') (s @ s')"
| AltL: "re_lang r s \<Longrightarrow> re_lang (Alt r r') s"
| AltR: "re_lang r' s \<Longrightarrow> re_lang (Alt r r') s"
| StarE: "re_lang (Star r) []"
| StarC: "re_lang r s \<Longrightarrow> re_lang (Star r) s' \<Longrightarrow> re_lang (Star r) (s @ s')"

inductive_simps re_lang_Zero [simp]: "re_lang Zero s"
inductive_simps re_lang_Eps [simp]: "re_lang Eps s"
inductive_simps re_lang_Cls: "re_lang (Cls cs) s"
inductive_simps re_lang_Seq: "re_lang (Seq r r') s"
inductive_simps re_lang_Alt [simp]: "re_lang (Alt r r') s"
inductive_cases re_lang_StarE: "re_lang (Star r) s"

lemma nullable_iff: "nullable r \<longleftrightarrow> re_lang r []"
proof (induction r)
  case (Star r)
  then show ?case by (auto intro: re_lang.intros)
qed (auto simp: re_lang_Cls re_lang_Seq)

lemma re_lang_Star_Cons:
  "re_lang (Star r) (c # s) \<longleftrightarrow> (\<exists>s1 s2. s = s1 @ s2 \<and> re_lang r (c # s1) \<and> re_lang (Star r) s2)"
proof
  have "re_lang q t \<Longrightarrow> q = Star r \<Longrightarrow> t = c # s \<Longrightarrow>
    \<exists>s1 s2. s = s1 @ s2 \<and> re_lang r (c # s1) \<and> re_lang (Star r) s2" for q t
  proof (induction arbitrary: s rule: re_lang.induct)
    case (StarC r1 t1 t2)
    then show ?case by (cases t1) auto
  qed auto
  then show "re_lang (Star r) (c # s) \<Longrightarrow>
    \<exists>s1 s2. s = s1 @ s2 \<and> re_lang r (c # s1) \<and> re_lang (Star r) s2" by blast
next
  assume "\<exists>s1 s2. s = s1 @ s2 \<and> re_lang r (c # s1) \<and> re_lang (Star r) s2"
  then obtain s1 s2 where "s = s1 @ s2" "re_lang r (c # s1)" "re_lang (Star r) s2" by blast
  then show "re_lang (Star r) (c # s)"
    using re_lang.StarC [of r "c # s1" s2] by simp
qed

lemma re_lang_Seq_Cons:
  "re_lang (Seq r r') (c # s) \<longleftrightarrow>
     (\<exists>s1 s2. s = s1 @ s2 \<and> re_lang r (c # s1) \<and> re_lang r' s2) \<or> (re_lang r [] \<and> re_lang r' (c # s))"
  by (auto simp: re_lang_Seq Cons_eq_append_conv)

lemma deriv_iff: "re_lang (deriv c r) s \<longleftrightarrow> re_lang r (c # s)"
proof (induction r arbitrary: s)
  case (Star r)
  then show ?case by (auto simp: re_lang_Star_Cons re_lang_Seq)
next
  case (Seq r r')
  then show ?case by (auto simp: re_lang_Seq_Cons re_lang_Seq [of "deriv c r"] nullable_iff)
qed (auto simp: re_lang_Cls)

lemma matches_iff: "matches r s \<longleftrightarrow> re_lang r s"
  by (induction r s rule: matches.induct) (auto simp: nullable_iff deriv_iff)

section \<open>Meaning of the derived operators\<close>

lemma re_lang_Opt [simp]: "re_lang (Opt r) s \<longleftrightarrow> s = [] \<or> re_lang r s"
  by (auto simp: Opt_def)

lemma re_lang_alts [simp]: "re_lang (alts rs) s \<longleftrightarrow> (\<exists>r \<in> set rs. re_lang r s)"
  by (induction rs) auto

lemma re_lang_Seq_Cls: "re_lang (Seq (Cls cs) r) s \<longleftrightarrow> (\<exists>c t. s = c # t \<and> c \<in> set cs \<and> re_lang r t)"
  by (cases s) (auto simp: re_lang_Seq_Cons re_lang_Cls, auto simp: re_lang_Seq re_lang_Cls)

lemma re_lang_lit: "re_lang (lit t) s \<longleftrightarrow> s = t"
  by (induction t arbitrary: s) (auto simp: re_lang_Seq_Cls)

lemma re_lang_Star_Cls: "re_lang (Star (Cls cs)) s \<longleftrightarrow> set s \<subseteq> set cs"
proof (induction s)
  case Nil
  then show ?case by (auto intro: re_lang.intros)
next
  case (Cons c s)
  then show ?case by (auto simp: re_lang_Star_Cons re_lang_Cls)
qed

lemma re_lang_Star_iff:
  "re_lang (Star r) s \<longleftrightarrow> (\<exists>ss. s = concat ss \<and> (\<forall>t \<in> set ss. re_lang r t))"
proof
  have "re_lang q s \<Longrightarrow> q = Star r \<Longrightarrow> \<exists>ss. s = concat ss \<and> (\<forall>t \<in> set ss. re_lang r t)" for q
  proof (induction rule: re_lang.induct)
    case (StarE r')
    show ?case by (rule exI [of _ "[]"]) simp
  next
    case (StarC r' t t')
    then obtain ss where "t' = concat ss" "\<forall>t \<in> set ss. re_lang r t" by auto
    with StarC show ?case by (intro exI [of _ "t # ss"]) auto
  qed auto
  then show "re_lang (Star r) s \<Longrightarrow> \<exists>ss. s = concat ss \<and> (\<forall>t \<in> set ss. re_lang r t)" by blast
next
  have "\<forall>t \<in> set ss. re_lang r t \<Longrightarrow> re_lang (Star r) (concat ss)" for ss
    by (induction ss) (auto intro: re_lang.intros)
  then show "\<exists>ss. s = concat ss \<and> (\<forall>t \<in> set ss. re_lang r t) \<Longrightarrow> re_lang (Star r) s" by blast
qed

end
