(* ===== verification/Validation.thy ===== *)
theory Validation
  imports Regex Api_Types
begin

text \<open>
  The admission rules the type declarations carry as kubebuilder markers
  (\<open>api/v1alpha1/devenvironment_types.go\<close>): patterns, lengths, numeric bounds, uniqueness of
  service names, and the transition rule on \<open>namespaceName\<close>. The API server enforces them
  before the controller sees an object.
\<close>

section \<open>Patterns\<close>

definition digits :: "nat \<Rightarrow> nat \<Rightarrow> rexp" where
  "digits a b = Cls (map digit [a..<Suc b])"

definition lower_alnum :: string where
  "lower_alnum = ''abcdefghijklmnopqrstuvwxyz0123456789''"

text \<open>
  \<open>6553[0-5]|655[0-2][0-9]|65[0-4][0-9]{2}|6[0-4][0-9]{3}|[1-5][0-9]{4}|[1-9][0-9]{0,3}\<close>
\<close>

definition port_re :: rexp where
  "port_re = alts
     [Seq (digits 6 6) (Seq (digits 5 5) (Seq (digits 5 5) (Seq (digits 3 3) (digits 0 5)))),
      Seq (digits 6 6) (Seq (digits 5 5) (Seq (digits 5 5) (Seq (digits 0 2) (digits 0 9)))),
      Seq (digits 6 6) (Seq (digits 5 5) (Seq (digits 0 4) (rep 2 (digits 0 9)))),
      Seq (digits 6 6) (Seq (digits 0 4) (rep 3 (digits 0 9))),
      Seq (digits 1 5) (rep 4 (digits 0 9)),
      Seq (digits 1 9) (rep_upto 3 (digits 0 9))]"

text \<open>\<open>[a-z0-9]([a-z0-9<extra>]*[a-z0-9])?\<close>\<close>

definition component_re :: "string \<Rightarrow> rexp" where
  "component_re extra =
     Seq (Cls lower_alnum) (Opt (Seq (Star (Cls (lower_alnum @ extra))) (Cls lower_alnum)))"

definition dns_label_re :: rexp where "dns_label_re = component_re ''-''"
definition dns_subdomain_re :: rexp where "dns_subdomain_re = component_re ''.-''"

text \<open>\<open>^$|^<component>(:<port>)?(/<component>)*$\<close> with \<open>._-\<close> inside components.\<close>

definition registry_re :: rexp where
  "registry_re = Alt Eps
     (Seq (component_re ''._-'')
        (Seq (Opt (Seq (lit '':'') port_re))
           (Star (Seq (lit ''/'') (component_re ''._-'')))))"

section \<open>Admission of a DevEnvironment\<close>

definition valid_registry :: "string \<Rightarrow> bool" where
  "valid_registry r \<longleftrightarrow> length r \<le> 255 \<and> matches registry_re r"

definition valid_pull_secrets :: "string list \<Rightarrow> bool" where
  "valid_pull_secrets ns \<longleftrightarrow> list_all (\<lambda>n. length n \<le> 253 \<and> matches dns_subdomain_re n) ns"

definition valid_storage :: "storage_spec \<Rightarrow> bool" where
  "valid_storage st \<longleftrightarrow>
     (case StorageFSGroup st of None \<Rightarrow> True | Some gid \<Rightarrow> 1 \<le> sint gid \<and> sint gid \<le> 2147483647)"

definition valid_service :: "service_spec \<Rightarrow> bool" where
  "valid_service s \<longleftrightarrow>
     1 \<le> length (SvcName s) \<and> length (SvcName s) \<le> 63 \<and> matches dns_label_re (SvcName s) \<and>
     1 \<le> length (Image s) \<and>
     valid_registry (SvcRegistry s) \<and>
     1 \<le> sint (Port s) \<and> sint (Port s) \<le> 65535 \<and>
     (case SvcReplicas s of None \<Rightarrow> True | Some n \<Rightarrow> 0 \<le> sint n) \<and>
     valid_pull_secrets (SvcImagePullSecrets s)"

text \<open>
  \<open>namespaceName\<close> is optional: its length and pattern are checked when the field is present,
  that is non-empty. \<open>listMapKey=name\<close> makes service names unique.
\<close>

definition valid_spec :: "dev_environment_spec \<Rightarrow> bool" where
  "valid_spec sp \<longleftrightarrow>
     (NamespaceName sp = [] \<or>
        length (NamespaceName sp) \<le> 63 \<and> matches dns_label_re (NamespaceName sp)) \<and>
     (case Storage sp of None \<Rightarrow> True | Some st \<Rightarrow> valid_storage st) \<and>
     valid_registry (Registry sp) \<and>
     valid_pull_secrets (EnvImagePullSecrets sp) \<and>
     list_all valid_service (Services sp) \<and> distinct (map SvcName (Services sp))"

text \<open>
  The rule \<open>self == oldSelf\<close> on \<open>namespaceName\<close>. The API server evaluates a transition rule
  on a field only when the field is present both before and after the update.
\<close>

definition valid_transition :: "dev_environment_spec \<Rightarrow> dev_environment_spec \<Rightarrow> bool" where
  "valid_transition old new \<longleftrightarrow>
     (NamespaceName old \<noteq> [] \<and> NamespaceName new \<noteq> [] \<longrightarrow> NamespaceName new = NamespaceName old)"

section \<open>The port pattern\<close>

lemma set_digits: "b < 10 \<Longrightarrow> c \<in> set (map digit [a..<Suc b]) \<longleftrightarrow>
    is_digit c \<and> a \<le> digit_val c \<and> digit_val c \<le> b"
proof
  assume "b < 10" "is_digit c \<and> a \<le> digit_val c \<and> digit_val c \<le> b"
  then have "c = digit (digit_val c)" and "digit_val c \<in> set [a..<Suc b]"
    by (auto simp: digit_digit_val)
  then show "c \<in> set (map digit [a..<Suc b])"
    unfolding set_map by (rule image_eqI)
qed auto

lemma re_lang_digits:
  "b < 10 \<Longrightarrow> re_lang (digits a b) s \<longleftrightarrow> (\<exists>c. s = [c] \<and> is_digit c \<and> a \<le> digit_val c \<and> digit_val c \<le> b)"
  by (simp only: digits_def re_lang_Cls set_digits)

lemma re_lang_Seq_digits:
  "b < 10 \<Longrightarrow> re_lang (Seq (digits a b) r) s \<longleftrightarrow>
     (\<exists>c t. s = c # t \<and> is_digit c \<and> a \<le> digit_val c \<and> digit_val c \<le> b \<and> re_lang r t)"
  by (simp only: digits_def re_lang_Seq_Cls set_digits conj_assoc)

text \<open>A digit string with no leading zero, of value at most \<open>65535\<close>, one case per length.\<close>

definition port_digits :: "string \<Rightarrow> bool" where
  "port_digits s \<longleftrightarrow> list_all is_digit s \<and> s \<noteq> [] \<and> 1 \<le> digit_val (hd s) \<and> decimal_val s \<le> 65535"

lemma decimal_val_Cons: "decimal_val (c # s) = digit_val c * 10 ^ length s + decimal_val s"
proof (induction s rule: rev_induct)
  case (snoc d s)
  then show ?case using decimal_val_snoc [of "c # s" d] by (simp add: algebra_simps)
qed (simp add: decimal_val_def)

lemma decimal_val_Nil [simp]: "decimal_val [] = 0"
  by (simp add: decimal_val_def)

lemma port_digits_length: "port_digits s \<Longrightarrow> length s \<le> 5"
proof (rule ccontr)
  assume port: "port_digits s" and long: "\<not> length s \<le> 5"
  then obtain c t where s: "s = c # t" by (cases s) (auto simp: port_digits_def)
  have "(10::nat) ^ 5 \<le> 10 ^ length t" using long s by (intro power_increasing) auto
  also have "\<dots> \<le> digit_val c * 10 ^ length t" using port s by (simp add: port_digits_def)
  also have "\<dots> \<le> decimal_val s" by (simp add: s decimal_val_Cons)
  finally show False using port by (simp add: port_digits_def)
qed

lemma upto_5_cases:
  assumes "length s \<le> 5"
  obtains "s = []" | a where "s = [a]" | a b where "s = [a, b]" | a b c where "s = [a, b, c]"
    | a b c d where "s = [a, b, c, d]" | a b c d e where "s = [a, b, c, d, e]"
  using assms by (auto simp: le_Suc_eq numeral_eq_Suc length_Suc_conv)

lemma digit_val_le: "is_digit c \<Longrightarrow> digit_val c \<le> 9"
  using digit_val_less by fastforce

lemma port_arith:
  fixes a b c d e :: nat
  assumes "a \<le> 9" "b \<le> 9" "c \<le> 9" "d \<le> 9" "e \<le> 9"
  shows "(a = 6 \<and> b = 5 \<and> c = 5 \<and> d = 3 \<and> e \<le> 5) \<or> (a = 6 \<and> b = 5 \<and> c = 5 \<and> d \<le> 2) \<or>
     (a = 6 \<and> b = 5 \<and> c \<le> 4) \<or> (a = 6 \<and> b \<le> 4) \<or> (1 \<le> a \<and> a \<le> 5) \<longleftrightarrow>
     1 \<le> a \<and> a * 10000 + (b * 1000 + (c * 100 + (d * 10 + e))) \<le> 65535"
proof -
  let ?v = "a * 10000 + (b * 1000 + (c * 100 + (d * 10 + e)))"
  consider (low) "a \<le> 5" | (high) "7 \<le> a" | (b_low) "a = 6" "b \<le> 4" | (b_high) "a = 6" "6 \<le> b"
    | (c_low) "a = 6" "b = 5" "c \<le> 4" | (c_high) "a = 6" "b = 5" "6 \<le> c"
    | (d) "a = 6" "b = 5" "c = 5"
    by linarith
  then show ?thesis
  proof cases
    case low
    then have "?v \<le> 65535" using assms by linarith
    with low show ?thesis by auto
  next
    case high
    then have "\<not> ?v \<le> 65535" by linarith
    with high show ?thesis by simp
  next
    case b_low
    then have "?v \<le> 65535" using assms by linarith
    with b_low show ?thesis by simp
  next
    case b_high
    then have "\<not> ?v \<le> 65535" by linarith
    with b_high show ?thesis by simp
  next
    case c_low
    then have "?v \<le> 65535" using assms by linarith
    with c_low show ?thesis by simp
  next
    case c_high
    then have "\<not> ?v \<le> 65535" by linarith
    with c_high show ?thesis by simp
  next
    case d
    have "(d = 3 \<and> e \<le> 5) \<or> d \<le> 2 \<longleftrightarrow> d * 10 + e \<le> 35" using assms by linarith
    with d show ?thesis by simp
  qed
qed

lemma re_lang_Seq_digits_simps [simp]:
  "b < 10 \<Longrightarrow> re_lang (Seq (digits a b) r) (c # t) \<longleftrightarrow>
     is_digit c \<and> a \<le> digit_val c \<and> digit_val c \<le> b \<and> re_lang r t"
  "b < 10 \<Longrightarrow> \<not> re_lang (Seq (digits a b) r) []"
  by (auto simp: re_lang_Seq_digits)

lemma re_lang_rep_digits [simp]:
  "re_lang (rep n (digits 0 9)) s \<longleftrightarrow> length s = n \<and> list_all is_digit s"
proof (induction n arbitrary: s)
  case (Suc n)
  then show ?case using digit_val_le by (cases s) auto
qed auto

lemma re_lang_rep_upto_digits [simp]:
  "re_lang (rep_upto n (digits 0 9)) s \<longleftrightarrow> length s \<le> n \<and> list_all is_digit s"
proof (induction n arbitrary: s)
  case (Suc n)
  then show ?case using digit_val_le by (cases s) auto
qed auto

lemma decimal_val_bound: "list_all is_digit s \<Longrightarrow> decimal_val s < 10 ^ length s"
proof (induction s)
  case (Cons c s)
  then have "digit_val c * 10 ^ length s \<le> 9 * 10 ^ length s" and "decimal_val s < 10 ^ length s"
    using digit_val_le by auto
  then have "digit_val c * 10 ^ length s + decimal_val s < 9 * 10 ^ length s + 10 ^ length s"
    by linarith
  then show ?case by (simp add: decimal_val_Cons)
qed simp

text \<open>Five digits: the first five alternatives.\<close>

lemma squeeze: "(k::nat) \<le> x \<and> x \<le> k \<and> P \<longleftrightarrow> x = k \<and> P"
  by auto

lemma port_re_5:
  assumes "list_all is_digit [a, b, c, d, e]"
  shows "re_lang port_re [a, b, c, d, e] \<longleftrightarrow> port_digits [a, b, c, d, e]"
proof -
  have "re_lang port_re [a, b, c, d, e] \<longleftrightarrow>
      (digit_val a = 6 \<and> digit_val b = 5 \<and> digit_val c = 5 \<and> digit_val d = 3 \<and> digit_val e \<le> 5) \<or>
      (digit_val a = 6 \<and> digit_val b = 5 \<and> digit_val c = 5 \<and> digit_val d \<le> 2) \<or>
      (digit_val a = 6 \<and> digit_val b = 5 \<and> digit_val c \<le> 4) \<or>
      (digit_val a = 6 \<and> digit_val b \<le> 4) \<or> (1 \<le> digit_val a \<and> digit_val a \<le> 5)"
    using assms by (simp add: port_re_def re_lang_digits squeeze digit_val_le)
  also have "\<dots> \<longleftrightarrow> port_digits [a, b, c, d, e]"
    using assms port_arith [of "digit_val a" "digit_val b" "digit_val c" "digit_val d" "digit_val e"]
    by (simp add: port_digits_def decimal_val_Cons digit_val_le add.assoc)
  finally show ?thesis .
qed

lemma port_re_chars: "re_lang port_re s \<Longrightarrow> list_all is_digit s \<and> length s \<le> 5"
  by (cases s) (auto simp: port_re_def re_lang_Seq_digits re_lang_digits)

lemma port_re_short:
  assumes "length s \<le> 4"
  shows "re_lang port_re s \<longleftrightarrow> port_digits s"
proof (cases s)
  case Nil
  then show ?thesis by (simp add: port_re_def port_digits_def)
next
  case (Cons c t)
  have bound: "decimal_val s \<le> 65535" if "list_all is_digit s"
  proof -
    have "decimal_val s < 10 ^ length s" using that by (rule decimal_val_bound)
    also have "\<dots> \<le> 10 ^ 4" using assms by (intro power_increasing) auto
    finally show ?thesis by simp
  qed
  have "1 \<le> digit_val c" if "re_lang port_re s"
    using that Cons by (auto simp: port_re_def)
  moreover have "re_lang port_re s" if "is_digit c \<and> 1 \<le> digit_val c \<and> list_all is_digit t"
    using that assms Cons by (simp add: port_re_def digit_val_le)
  moreover have "is_digit c \<and> list_all is_digit t" if "re_lang port_re s"
    using port_re_chars [OF that] Cons by simp
  ultimately have "re_lang port_re s \<longleftrightarrow> is_digit c \<and> 1 \<le> digit_val c \<and> list_all is_digit t"
    by blast
  then show ?thesis using bound Cons by (auto simp: port_digits_def)
qed

lemma port_re_digits: "re_lang port_re s \<longleftrightarrow> port_digits s"
proof (cases "length s \<le> 4")
  case True
  then show ?thesis by (rule port_re_short)
next
  case False
  show ?thesis
  proof (cases "length s = 5 \<and> list_all is_digit s")
    case True
    then obtain a b c d e where "s = [a, b, c, d, e]"
      by (auto simp: eval_nat_numeral length_Suc_conv)
    with True show ?thesis using port_re_5 by blast
  next
    case False
    with \<open>\<not> length s \<le> 4\<close> show ?thesis
      using port_re_chars port_digits_length by (fastforce simp: port_digits_def)
  qed
qed

lemma port_digits_iff: "port_digits s \<longleftrightarrow> (\<exists>n. 1 \<le> n \<and> n \<le> 65535 \<and> s = itoa_nat n)"
proof
  assume port: "port_digits s"
  then have "digit_val (hd s) \<noteq> digit_val (digit 0)" by (simp add: port_digits_def)
  then have "hd s \<noteq> digit 0" by metis
  with port have s: "itoa_nat (decimal_val s) = s"
    by (intro itoa_nat_decimal_val) (auto simp: port_digits_def)
  moreover have "decimal_val s \<noteq> 0"
  proof
    assume "decimal_val s = 0"
    with s have "s = [digit 0]" by (simp add: itoa_nat.simps [of 0])
    with port show False by (simp add: port_digits_def)
  qed
  ultimately show "\<exists>n. 1 \<le> n \<and> n \<le> 65535 \<and> s = itoa_nat n"
    using port by (intro exI [of _ "decimal_val s"]) (auto simp: port_digits_def)
next
  assume "\<exists>n. 1 \<le> n \<and> n \<le> 65535 \<and> s = itoa_nat n"
  then obtain n where n: "1 \<le> n" "n \<le> 65535" "s = itoa_nat n" by blast
  then have s: "list_all is_digit s" "s \<noteq> []" "hd s \<noteq> digit 0" "decimal_val s = n"
    using itoa_nat_digits itoa_nat_hd by (auto simp: decimal_val_itoa_nat)
  then have "is_digit (hd s)" by (cases s) auto
  with s(3) have "digit_val (hd s) \<noteq> 0" by (metis digit_digit_val)
  with s n show "port_digits s" by (simp add: port_digits_def)
qed

section \<open>The registry pattern\<close>

definition is_component :: "string \<Rightarrow> string \<Rightarrow> bool" where
  "is_component extra s \<longleftrightarrow> s \<noteq> [] \<and> set s \<subseteq> set lower_alnum \<union> set extra \<and>
     hd s \<in> set lower_alnum \<and> last s \<in> set lower_alnum"

lemma component_re_iff: "re_lang (component_re extra) s \<longleftrightarrow> is_component extra s"
proof (cases s)
  case Nil
  then show ?thesis by (simp add: component_re_def is_component_def re_lang_Seq_Cls)
next
  case (Cons c t)
  have inner: "re_lang (Seq (Star (Cls (lower_alnum @ extra))) (Cls lower_alnum)) t \<longleftrightarrow>
      t \<noteq> [] \<and> set t \<subseteq> set lower_alnum \<union> set extra \<and> last t \<in> set lower_alnum"
  proof (cases t rule: rev_cases)
    case (snoc u d)
    then show ?thesis by (auto simp: re_lang_Seq re_lang_Star_Cls re_lang_Cls)
  qed (simp add: re_lang_Seq re_lang_Cls)
  show ?thesis using Cons inner by (auto simp: component_re_def is_component_def re_lang_Seq_Cls)
qed

text \<open>A registry reference as the documentation describes it: host, optional port, path.\<close>

definition render_port :: "nat option \<Rightarrow> string" where
  "render_port p = (case p of None \<Rightarrow> [] | Some n \<Rightarrow> '':'' @ itoa_nat n)"

definition port_ok :: "nat option \<Rightarrow> bool" where
  "port_ok p = (case p of None \<Rightarrow> True | Some n \<Rightarrow> 1 \<le> n \<and> n \<le> 65535)"

definition render_registry :: "string \<Rightarrow> nat option \<Rightarrow> string list \<Rightarrow> string" where
  "render_registry host port segs = host @ render_port port @ concat (map (\<lambda>s. ''/'' @ s) segs)"

lemma re_lang_port_part:
  "re_lang (Opt (Seq (lit '':'') port_re)) s \<longleftrightarrow> (\<exists>p. port_ok p \<and> s = render_port p)"
proof -
  have "re_lang (Seq (lit '':'') port_re) s \<longleftrightarrow>
      (\<exists>n. 1 \<le> n \<and> n \<le> 65535 \<and> s = '':'' @ itoa_nat n)"
    by (auto simp: re_lang_Seq re_lang_lit port_re_digits port_digits_iff simp del: lit.simps)
  then show ?thesis
    by (auto simp: render_port_def port_ok_def split: option.splits)
qed

lemma re_lang_path_part:
  "re_lang (Star (Seq (lit ''/'') (component_re extra))) s \<longleftrightarrow>
     (\<exists>segs. list_all (is_component extra) segs \<and> s = concat (map (\<lambda>s. ''/'' @ s) segs))"
  (is "?L \<longleftrightarrow> ?R")
proof -
  have seg: "re_lang (Seq (lit ''/'') (component_re extra)) t \<longleftrightarrow>
      (\<exists>u. is_component extra u \<and> t = ''/'' @ u)" for t
    by (auto simp: re_lang_Seq re_lang_lit component_re_iff simp del: lit.simps)
  show ?thesis
  proof
    assume ?L
    then obtain ss where s: "s = concat ss"
      and ss: "\<forall>t \<in> set ss. \<exists>u. is_component extra u \<and> t = ''/'' @ u"
      unfolding re_lang_Star_iff seg by blast
    from ss have "\<exists>segs. list_all (is_component extra) segs \<and> ss = map (\<lambda>s. ''/'' @ s) segs"
    proof (induction ss)
      case (Cons t ss)
      then obtain u segs where "is_component extra u" "t = ''/'' @ u"
        "list_all (is_component extra) segs" "ss = map (\<lambda>s. ''/'' @ s) segs" by auto
      then show ?case by (intro exI [of _ "u # segs"]) simp
    qed simp
    with s show ?R by blast
  next
    assume ?R
    then obtain segs where segs: "list_all (is_component extra) segs"
      and s: "s = concat (map (\<lambda>s. ''/'' @ s) segs)" by blast
    show ?L unfolding re_lang_Star_iff seg
      using segs s by (intro exI [of _ "map (\<lambda>s. ''/'' @ s) segs"]) (auto simp: list_all_iff)
  qed
qed

text \<open>
  C34. The port alternation of the registry pattern accepts exactly the canonical decimal
  spellings of the TCP ports 1 to 65535: no zero, no leading zero, nothing above.
\<close>

theorem port_pattern_exact:
  "matches port_re s \<longleftrightarrow> (\<exists>n. 1 \<le> n \<and> n \<le> 65535 \<and> s = itoa_nat n)"
  by (simp add: matches_iff port_re_digits port_digits_iff)

text \<open>
  C35. The registry pattern accepts the empty string and exactly the references
  host[:port][/segment]*: a host and path segments of lowercase letters, digits and inner
  dots, underscores and dashes, with a port, if any, that is a TCP port in canonical decimal.
  So there is no scheme, no trailing slash and no empty segment.
\<close>

theorem registry_pattern_grammar:
  "matches registry_re r \<longleftrightarrow>
     r = [] \<or>
     (\<exists>host port segs. r = render_registry host port segs \<and> is_component ''._-'' host \<and>
        port_ok port \<and> list_all (is_component ''._-'') segs)"
proof -
  have "re_lang (Seq (component_re ''._-'') (Seq (Opt (Seq (lit '':'') port_re))
        (Star (Seq (lit ''/'') (component_re ''._-''))))) r \<longleftrightarrow>
      (\<exists>host port segs. r = render_registry host port segs \<and> is_component ''._-'' host \<and>
        port_ok port \<and> list_all (is_component ''._-'') segs)"
    unfolding render_registry_def
    by (simp only: re_lang_Seq [of "component_re ''._-''"] re_lang_Seq [of "Opt r" for r]
        component_re_iff re_lang_port_part re_lang_path_part) blast
  then show ?thesis
    unfolding matches_iff registry_re_def by (simp only: re_lang_Alt re_lang_Eps)
qed

end
