(* ===== verification/Secret_Refs.thy ===== *)
theory Secret_Refs
  imports Naming
begin

text \<open>
  Which Secrets an environment needs, from
  \<open>internal/controller/devenvironment_controller.go\<close>: \<open>pullSecrets\<close>, \<open>pullSecretRefs\<close>,
  \<open>isDockerAuthSecret\<close>, \<open>referencedPullSecrets\<close>, \<open>referencedSecrets\<close>, \<open>sortedKeys\<close>.
  A set under construction is the list of its members in the order Go would range over it.
\<close>

definition pullSecrets :: "dev_environment \<Rightarrow> service_spec \<Rightarrow> string list" where
  "pullSecrets env spec =
     (if length (SvcImagePullSecrets spec) > 0 then SvcImagePullSecrets spec
      else EnvImagePullSecrets (Spec env))"

definition pullSecretRefs :: "dev_environment \<Rightarrow> service_spec \<Rightarrow> local_object_reference list" where
  "pullSecretRefs env spec =
     (let names = pullSecrets env spec
      in if length names = 0 then [] else map LocalObjectReference names)"

definition SecretTypeDockerConfigJson :: string where
  "SecretTypeDockerConfigJson = ''kubernetes.io/dockerconfigjson''"

definition SecretTypeDockercfg :: string where
  "SecretTypeDockercfg = ''kubernetes.io/dockercfg''"

definition isDockerAuthSecret :: "string \<Rightarrow> bool" where
  "isDockerAuthSecret t \<longleftrightarrow> t = SecretTypeDockerConfigJson \<or> t = SecretTypeDockercfg"

definition sortedKeys :: "string list \<Rightarrow> string list" where
  "sortedKeys members = sort members"

definition referencedPullSecrets :: "dev_environment \<Rightarrow> string list" where
  "referencedPullSecrets env =
     (let seen = set_add_all (EnvImagePullSecrets (Spec env)) [];
          seen = fold (\<lambda>s. set_add_all (SvcImagePullSecrets s)) (Services (Spec env)) seen
      in sortedKeys seen)"

definition referencedSecrets :: "dev_environment \<Rightarrow> string list" where
  "referencedSecrets env =
     (let seen = set_add_all (referencedPullSecrets env) [];
          seen = fold (\<lambda>s. set_add_all (SecretRefs s)) (Services (Spec env)) seen
      in sortedKeys seen)"

section \<open>Facts\<close>

lemma set_fold_add_all:
  "set (fold (\<lambda>s. set_add_all (f s)) xs acc) = set acc \<union> (\<Union>s \<in> set xs. set (f s))"
  by (induction xs arbitrary: acc) (auto simp: go_simps)

lemma distinct_fold_add_all:
  "distinct acc \<Longrightarrow> distinct (fold (\<lambda>s. set_add_all (f s)) xs acc)"
  by (induction xs arbitrary: acc) (auto simp: go_simps)

definition pull_secret_set :: "dev_environment_spec \<Rightarrow> string set" where
  "pull_secret_set sp =
     set (EnvImagePullSecrets sp) \<union> (\<Union>s \<in> set (Services sp). set (SvcImagePullSecrets s))"

definition secret_set :: "dev_environment_spec \<Rightarrow> string set" where
  "secret_set sp = pull_secret_set sp \<union> (\<Union>s \<in> set (Services sp). set (SecretRefs s))"

lemma sortedKeys_eq: "distinct seen \<Longrightarrow> sortedKeys seen = sorted_list_of_set (set seen)"
  by (simp add: sortedKeys_def sort_distinct_unique)

lemma finite_pull_secret_set [simp]: "finite (pull_secret_set sp)"
  by (simp add: pull_secret_set_def)

lemma finite_secret_set [simp]: "finite (secret_set sp)"
  by (simp add: secret_set_def)

lemma referencedPullSecrets_eq:
  "referencedPullSecrets env = sorted_list_of_set (pull_secret_set (Spec env))"
  unfolding referencedPullSecrets_def Let_def pull_secret_set_def
  by (subst sortedKeys_eq)
     (simp_all add: distinct_fold_add_all set_fold_add_all go_simps)

lemma set_referencedPullSecrets [simp]:
  "set (referencedPullSecrets env) = pull_secret_set (Spec env)"
  by (simp add: referencedPullSecrets_eq)

lemma referencedSecrets_eq: "referencedSecrets env = sorted_list_of_set (secret_set (Spec env))"
  unfolding referencedSecrets_def Let_def secret_set_def
  by (subst sortedKeys_eq)
     (simp_all add: distinct_fold_add_all set_fold_add_all go_simps)

lemma set_referencedSecrets [simp]: "set (referencedSecrets env) = secret_set (Spec env)"
  by (simp add: referencedSecrets_eq)

lemma distinct_referencedSecrets [simp]: "distinct (referencedSecrets env)"
  by (simp add: referencedSecrets_eq)

text \<open>
  C24. The Secrets to copy are listed in ascending order without repetition, and they are
  exactly the environment's pull secrets, every service's pull secrets and every service's
  \<open>secretRefs\<close>; reordering the services, or repeating a name, does not change the list.
\<close>

theorem referencedSecrets_canonical:
  "sorted (referencedSecrets env) \<and> distinct (referencedSecrets env) \<and>
   set (referencedSecrets env) =
     set (EnvImagePullSecrets (Spec env)) \<union>
     (\<Union>s \<in> set (Services (Spec env)). set (SvcImagePullSecrets s) \<union> set (SecretRefs s)) \<and>
   (set (Services (Spec env')) = set (Services (Spec env)) \<and>
    set (EnvImagePullSecrets (Spec env')) = set (EnvImagePullSecrets (Spec env)) \<longrightarrow>
      referencedSecrets env' = referencedSecrets env)"
proof -
  have "secret_set (Spec env') = secret_set (Spec env)"
    if "set (Services (Spec env')) = set (Services (Spec env))"
      "set (EnvImagePullSecrets (Spec env')) = set (EnvImagePullSecrets (Spec env))"
    using that by (simp add: secret_set_def pull_secret_set_def)
  then show ?thesis
    by (auto simp: referencedSecrets_eq secret_set_def pull_secret_set_def)
qed

definition two_secret_env :: dev_environment where
  "two_secret_env = sample_env\<lparr>Spec := sample_spec\<lparr>EnvImagePullSecrets := [''reg''],
     Services := [sample_service\<lparr>SecretRefs := [''db'', ''reg'']\<rparr>, sample_service]\<rparr>\<rparr>"

theorem referencedSecrets_canonical_witness:
  "let env' = two_secret_env\<lparr>Spec := (Spec two_secret_env)\<lparr>Services :=
       rev (Services (Spec two_secret_env))\<rparr>\<rparr>
   in referencedSecrets env' = [''db'', ''reg''] \<and> referencedSecrets two_secret_env = [''db'', ''reg'']"
proof -
  have "referencedSecrets two_secret_env = [''db'', ''reg'']"
    by code_simp
  then show ?thesis
    using referencedSecrets_canonical [of two_secret_env
      "two_secret_env\<lparr>Spec := (Spec two_secret_env)\<lparr>Services := rev (Services (Spec two_secret_env))\<rparr>\<rparr>"]
    by (simp add: Let_def)
qed

text \<open>
  C25. Every pull secret a pod of the environment refers to is among the Secrets that are
  copied and checked: the references rendered on a service's pod are the service's own list
  when it is non-empty, else the environment's, and each name in them is listed by
  \<open>referencedPullSecrets\<close> and hence by \<open>referencedSecrets\<close>.
\<close>

theorem pullSecretRefs_covered:
  assumes "spec \<in> set (Services (Spec env))"
  shows "map RefName (pullSecretRefs env spec) =
      (if SvcImagePullSecrets spec = [] then EnvImagePullSecrets (Spec env)
       else SvcImagePullSecrets spec) \<and>
    RefName ` set (pullSecretRefs env spec) \<subseteq> set (referencedPullSecrets env) \<and>
    set (referencedPullSecrets env) \<subseteq> set (referencedSecrets env)"
  using assms
  by (auto simp: pullSecretRefs_def pullSecrets_def Let_def o_def pull_secret_set_def secret_set_def)

theorem pullSecretRefs_covered_witness:
  "map RefName (pullSecretRefs two_secret_env sample_service) = [''reg''] \<and>
   RefName ` set (pullSecretRefs two_secret_env sample_service) \<subseteq>
     set (referencedPullSecrets two_secret_env)"
  using pullSecretRefs_covered [of sample_service two_secret_env]
  by (simp add: two_secret_env_def sample_service_def sample_spec_def)

end
