(* ===== verification/Defaulting.thy ===== *)
theory Defaulting
  imports Kube_Types
begin

text \<open>
  Defaults of the API server. Before it stores a Deployment the server fills fields of the spec
  that were left unset. \<open>fills x y\<close>: \<open>y\<close> is \<open>x\<close> with some unset fields filled in, an order on
  specs that is lifted through options, strings, numbers and lists of containers. The locale
  \<open>defaulting\<close> is the documented behaviour: unset fields are filled, set ones are kept, and
  filling in some of the defaults by hand makes no difference to the result.
\<close>

section \<open>The order\<close>

definition fills_option :: "'a option \<Rightarrow> 'a option \<Rightarrow> bool" where
  "fills_option x y \<longleftrightarrow> x = None \<or> x = y"

definition fills_string :: "string \<Rightarrow> string \<Rightarrow> bool" where
  "fills_string x y \<longleftrightarrow> x = [] \<or> x = y"

definition fills_int :: "int32 \<Rightarrow> int32 \<Rightarrow> bool" where
  "fills_int x y \<longleftrightarrow> x = 0 \<or> x = y"

text \<open>Requests default to the limits: entries are added to the resources at the end.\<close>

definition fills_resources :: "resource_requirements \<Rightarrow> resource_requirements \<Rightarrow> bool" where
  "fills_resources x y \<longleftrightarrow> take (length x) y = x"

fun fills_pointer :: "('a \<Rightarrow> 'a \<Rightarrow> bool) \<Rightarrow> 'a option \<Rightarrow> 'a option \<Rightarrow> bool" where
  "fills_pointer R None None \<longleftrightarrow> True"
| "fills_pointer R (Some x) (Some y) \<longleftrightarrow> R x y"
| "fills_pointer R _ _ \<longleftrightarrow> False"

definition fills_http_get :: "http_get_action \<Rightarrow> http_get_action \<Rightarrow> bool" where
  "fills_http_get x y \<longleftrightarrow> fills_string (HttpPath x) (HttpPath y) \<and> HttpPort x = HttpPort y \<and>
     fills_string (HttpScheme x) (HttpScheme y)"

definition fills_probe :: "probe \<Rightarrow> probe \<Rightarrow> bool" where
  "fills_probe x y \<longleftrightarrow>
     fills_pointer fills_http_get (HTTPGet (ProbeHandler x)) (HTTPGet (ProbeHandler y)) \<and>
     Exec (ProbeHandler x) = Exec (ProbeHandler y) \<and>
     TCPSocket (ProbeHandler x) = TCPSocket (ProbeHandler y) \<and> GRPC (ProbeHandler x) = GRPC (ProbeHandler y) \<and>
     InitialDelaySeconds x = InitialDelaySeconds y \<and> fills_int (TimeoutSeconds x) (TimeoutSeconds y) \<and>
     fills_int (PeriodSeconds x) (PeriodSeconds y) \<and> fills_int (SuccessThreshold x) (SuccessThreshold y) \<and>
     fills_int (FailureThreshold x) (FailureThreshold y)"

definition fills_container :: "container \<Rightarrow> container \<Rightarrow> bool" where
  "fills_container x y \<longleftrightarrow> CName x = CName y \<and> CImage x = CImage y \<and> CPorts x = CPorts y \<and>
     fills_resources (CResources x) (CResources y) \<and> CEnv x = CEnv y \<and> CEnvFrom x = CEnvFrom y \<and>
     CVolumeMounts x = CVolumeMounts y \<and> fills_pointer fills_probe (CReadinessProbe x) (CReadinessProbe y) \<and>
     fills_string (CImagePullPolicy x) (CImagePullPolicy y) \<and>
     fills_string (CTerminationMessagePath x) (CTerminationMessagePath y) \<and>
     fills_string (CTerminationMessagePolicy x) (CTerminationMessagePolicy y)"

text \<open>An absent security context may be filled in, but not with a group: that field is the operator's.\<close>

definition group_of :: "pod_security_context option \<Rightarrow> int64 option" where
  "group_of sc = (case sc of None \<Rightarrow> None | Some s \<Rightarrow> FSGroup s)"

definition fills_security :: "pod_security_context option \<Rightarrow> pod_security_context option \<Rightarrow> bool" where
  "fills_security x y \<longleftrightarrow> group_of x = group_of y \<and>
     (case x of None \<Rightarrow> True | Some a \<Rightarrow>
       (case y of None \<Rightarrow> False | Some b \<Rightarrow> fills_option (RunAsNonRoot a) (RunAsNonRoot b)))"

definition fills_pod :: "pod_spec \<Rightarrow> pod_spec \<Rightarrow> bool" where
  "fills_pod x y \<longleftrightarrow> list_all2 fills_container (InitContainers x) (InitContainers y) \<and>
     list_all2 fills_container (Containers x) (Containers y) \<and> Volumes x = Volumes y \<and>
     ImagePullSecrets x = ImagePullSecrets y \<and> fills_security (SecurityContext x) (SecurityContext y) \<and>
     fills_string (RestartPolicy x) (RestartPolicy y) \<and>
     fills_option (TerminationGracePeriodSeconds x) (TerminationGracePeriodSeconds y)"

definition fills :: "deployment_spec \<Rightarrow> deployment_spec \<Rightarrow> bool" where
  "fills x y \<longleftrightarrow> fills_option (Replicas x) (Replicas y) \<and> Selector x = Selector y \<and>
     TemplateLabels (Template x) = TemplateLabels (Template y) \<and>
     fills_pod (TemplateSpec (Template x)) (TemplateSpec (Template y)) \<and>
     fills_option (RevisionHistoryLimit x) (RevisionHistoryLimit y) \<and>
     fills_option (ProgressDeadlineSeconds x) (ProgressDeadlineSeconds y)"

lemma fills_pointer_refl: "(\<And>z. R z z) \<Longrightarrow> fills_pointer R x x"
  by (cases x) auto

lemma fills_container_refl [simp]: "fills_container x x"
  by (simp add: fills_container_def fills_resources_def fills_string_def fills_probe_def fills_int_def
      fills_http_get_def fills_pointer_refl)

lemma fills_basic_refl [simp]: "fills_option x x" "fills_string s s" "fills_security sc sc"
  by (simp_all add: fills_option_def fills_string_def fills_security_def split: option.split)

lemma fills_containers_refl [simp]: "list_all2 fills_container xs xs"
  by (simp add: list_all2_refl)

section \<open>Defaulting functions\<close>

locale defaulting =
  fixes dflt :: "deployment_spec \<Rightarrow> deployment_spec"
  assumes fills_dflt: "fills x (dflt x)"
    and dflt_between: "fills x y \<Longrightarrow> fills y (dflt x) \<Longrightarrow> dflt y = dflt x"

text \<open>A Deployment as the server admits it.\<close>

definition defaulted :: "(deployment_spec \<Rightarrow> deployment_spec) \<Rightarrow> deployment \<Rightarrow> deployment" where
  "defaulted dflt d = d\<lparr>DeploySpec := dflt (DeploySpec d)\<rparr>"

section \<open>The defaults of the API for these fields\<close>

definition or_string :: "string \<Rightarrow> string \<Rightarrow> string" where
  "or_string x v = (if x = [] then v else x)"

definition or_int :: "int32 \<Rightarrow> int32 \<Rightarrow> int32" where
  "or_int x v = (if x = 0 then v else x)"

definition or_some :: "'a option \<Rightarrow> 'a \<Rightarrow> 'a option" where
  "or_some x v = (case x of None \<Rightarrow> Some v | Some _ \<Rightarrow> x)"

text \<open>An image without a tag, or with the tag \<open>latest\<close>, is pulled always.\<close>

definition pull_policy :: "string \<Rightarrow> string" where
  "pull_policy img =
     (let base = takeWhile (\<lambda>c. c \<noteq> CHR ''/'') (rev img)
      in if CHR '':'' \<notin> set base \<or> take 7 base = rev '':latest'' then ''Always'' else ''IfNotPresent'')"

definition http_get_defaults :: "http_get_action \<Rightarrow> http_get_action" where
  "http_get_defaults x = x\<lparr>HttpPath := or_string (HttpPath x) ''/'', HttpScheme := or_string (HttpScheme x) ''HTTP''\<rparr>"

definition probe_defaults :: "probe \<Rightarrow> probe" where
  "probe_defaults x = x\<lparr>ProbeHandler := (ProbeHandler x)\<lparr>HTTPGet := map_option http_get_defaults (HTTPGet (ProbeHandler x))\<rparr>,
     TimeoutSeconds := or_int (TimeoutSeconds x) 1, PeriodSeconds := or_int (PeriodSeconds x) 10,
     SuccessThreshold := or_int (SuccessThreshold x) 1, FailureThreshold := or_int (FailureThreshold x) 3\<rparr>"

definition container_defaults :: "container \<Rightarrow> container" where
  "container_defaults x = x\<lparr>CReadinessProbe := map_option probe_defaults (CReadinessProbe x),
     CImagePullPolicy := or_string (CImagePullPolicy x) (pull_policy (CImage x)),
     CTerminationMessagePath := or_string (CTerminationMessagePath x) ''/dev/termination-log'',
     CTerminationMessagePolicy := or_string (CTerminationMessagePolicy x) ''File''\<rparr>"

definition pod_defaults :: "pod_spec \<Rightarrow> pod_spec" where
  "pod_defaults x = x\<lparr>InitContainers := map container_defaults (InitContainers x),
     Containers := map container_defaults (Containers x),
     SecurityContext := or_some (SecurityContext x) \<lparr>FSGroup = None, RunAsNonRoot = None\<rparr>,
     RestartPolicy := or_string (RestartPolicy x) ''Always'',
     TerminationGracePeriodSeconds := or_some (TerminationGracePeriodSeconds x) 30\<rparr>"

definition api_defaults :: "deployment_spec \<Rightarrow> deployment_spec" where
  "api_defaults x = x\<lparr>Replicas := or_some (Replicas x) 1,
     Template := (Template x)\<lparr>TemplateSpec := pod_defaults (TemplateSpec (Template x))\<rparr>,
     RevisionHistoryLimit := or_some (RevisionHistoryLimit x) 10,
     ProgressDeadlineSeconds := or_some (ProgressDeadlineSeconds x) 600\<rparr>"

lemma or_string_fills: "fills_string x (or_string x v)"
  by (simp add: fills_string_def or_string_def)

lemma or_string_between: "fills_string x y \<Longrightarrow> fills_string y (or_string x v) \<Longrightarrow> or_string y v = or_string x v"
  by (auto simp: fills_string_def or_string_def split: if_splits)

lemma or_int_fills: "fills_int x (or_int x v)"
  by (simp add: fills_int_def or_int_def)

lemma or_int_between: "fills_int x y \<Longrightarrow> fills_int y (or_int x v) \<Longrightarrow> or_int y v = or_int x v"
  by (auto simp: fills_int_def or_int_def split: if_splits)

lemma or_some_fills: "fills_option x (or_some x v)"
  by (simp add: fills_option_def or_some_def split: option.split)

lemma or_some_between: "fills_option x y \<Longrightarrow> fills_option y (or_some x v) \<Longrightarrow> or_some y v = or_some x v"
  by (auto simp: fills_option_def or_some_def split: option.splits)

lemma pointer_fills: "(\<And>z. R z (f z)) \<Longrightarrow> fills_pointer R x (map_option f x)"
  by (cases x) auto

lemma pointer_between:
  "(\<And>a b. R a b \<Longrightarrow> R b (f a) \<Longrightarrow> f b = f a) \<Longrightarrow> fills_pointer R x y \<Longrightarrow> fills_pointer R y (map_option f x) \<Longrightarrow>
   map_option f y = map_option f x"
  by (cases x; cases y) auto

lemma list_between:
  "(\<And>a b. R a b \<Longrightarrow> R b (f a) \<Longrightarrow> f b = f a) \<Longrightarrow> list_all2 R xs ys \<Longrightarrow> list_all2 R ys (map f xs) \<Longrightarrow>
   map f ys = map f xs"
  by (induction xs ys rule: list_induct2') auto

lemma http_get_fills: "fills_http_get x (http_get_defaults x)"
  by (simp add: fills_http_get_def http_get_defaults_def or_string_fills)

lemma http_get_between:
  "fills_http_get x y \<Longrightarrow> fills_http_get y (http_get_defaults x) \<Longrightarrow> http_get_defaults y = http_get_defaults x"
  by (cases x; cases y) (auto simp: fills_http_get_def http_get_defaults_def intro: or_string_between)

lemma probe_fills: "fills_probe x (probe_defaults x)"
  by (simp add: fills_probe_def probe_defaults_def or_int_fills pointer_fills http_get_fills)

lemma probe_between:
  "fills_probe x y \<Longrightarrow> fills_probe y (probe_defaults x) \<Longrightarrow> probe_defaults y = probe_defaults x"
  using pointer_between [of fills_http_get http_get_defaults, OF http_get_between]
  by (cases x; cases y; cases "ProbeHandler x"; cases "ProbeHandler y")
    (auto simp: fills_probe_def probe_defaults_def intro: or_int_between)

lemma container_fills: "fills_container x (container_defaults x)"
  by (simp add: fills_container_def container_defaults_def fills_resources_def or_string_fills pointer_fills probe_fills)

lemma fills_resources_antisym: "fills_resources x y \<Longrightarrow> fills_resources y x \<Longrightarrow> y = x"
  by (metis fills_resources_def length_take min.commute min.cobounded1 le_antisym take_all)

lemma container_between:
  "fills_container x y \<Longrightarrow> fills_container y (container_defaults x) \<Longrightarrow> container_defaults y = container_defaults x"
  using pointer_between [of fills_probe probe_defaults, OF probe_between] fills_resources_antisym
  by (cases x; cases y) (auto simp: fills_container_def container_defaults_def intro: or_string_between)

lemma security_fills: "fills_security x (or_some x \<lparr>FSGroup = None, RunAsNonRoot = None\<rparr>)"
  by (simp add: fills_security_def or_some_def group_of_def fills_option_def split: option.split)

lemma security_between:
  "fills_security x y \<Longrightarrow> fills_security y (or_some x \<lparr>FSGroup = None, RunAsNonRoot = None\<rparr>) \<Longrightarrow>
   or_some y \<lparr>FSGroup = None, RunAsNonRoot = None\<rparr> = or_some x \<lparr>FSGroup = None, RunAsNonRoot = None\<rparr>"
  by (cases x; cases y) (auto simp: fills_security_def or_some_def group_of_def fills_option_def
      intro!: pod_security_context.equality)

lemma containers_fills: "list_all2 fills_container xs (map container_defaults xs)"
  by (simp add: list_all2_map2 list_all2_refl container_fills)

lemma pod_fills: "fills_pod x (pod_defaults x)"
  by (simp add: fills_pod_def pod_defaults_def containers_fills security_fills or_string_fills or_some_fills)

lemma pod_between: "fills_pod x y \<Longrightarrow> fills_pod y (pod_defaults x) \<Longrightarrow> pod_defaults y = pod_defaults x"
  using list_between [of fills_container container_defaults, OF container_between] security_between
  by (cases x; cases y) (auto simp: fills_pod_def pod_defaults_def intro: or_string_between or_some_between)

interpretation api_defaults: defaulting api_defaults
proof
  fix x y
  show "fills x (api_defaults x)"
    by (simp add: fills_def api_defaults_def or_some_fills pod_fills)
  show "api_defaults y = api_defaults x" if "fills x y" "fills y (api_defaults x)"
    using that
    by (cases x; cases y; cases "Template x"; cases "Template y")
      (auto simp: fills_def api_defaults_def intro: or_some_between pod_between)
qed

end
