(* ===== verification/Render.thy ===== *)
theory Render
  imports Images Secret_Refs Defaulting
begin

text \<open>
  The pure rendering of a service, from \<open>internal/controller/devenvironment_controller.go\<close>:
  the pod container (\<open>container\<close>, \<open>readinessProbe\<close>), the pod volumes (\<open>volumes\<close>), the pod
  security context (\<open>applyFSGroup\<close>), and the two mutation closures \<open>reconcileService\<close>
  passes to \<open>CreateOrUpdate\<close> for the Deployment and the Service.
\<close>

definition ProtocolTCP :: string where "ProtocolTCP = ''TCP''"
definition ServiceTypeClusterIP :: string where "ServiceTypeClusterIP = ''ClusterIP''"

definition empty_handler :: probe_handler where
  "empty_handler = \<lparr>Exec = None, HTTPGet = None, TCPSocket = None, GRPC = None\<rparr>"

definition readinessProbe :: "service_spec \<Rightarrow> probe option" where
  "readinessProbe spec =
     (case ReadinessProbe spec of
        None \<Rightarrow> None
      | Some probe \<Rightarrow>
          Some (if ProbeHandler probe = empty_handler
                then probe\<lparr>ProbeHandler :=
                  empty_handler\<lparr>TCPSocket := Some \<lparr>TcpPort = intstrFromInt32 (Port spec)\<rparr>\<rparr>\<rparr>
                else probe))"

definition config_map_source :: "string \<Rightarrow> env_from_source" where
  "config_map_source name =
     \<lparr>ConfigMapRef = Some (LocalObjectReference name), SecretRef = None\<rparr>"

definition secret_source :: "string \<Rightarrow> env_from_source" where
  "secret_source name =
     \<lparr>ConfigMapRef = None, SecretRef = Some (LocalObjectReference name)\<rparr>"

text \<open>
  \<open>slices.Sorted(maps.Keys(spec.Env))\<close> sorts the keys of the map; the loop over them appends
  one variable each. The last three fields keep the zero value of \<open>corev1.Container\<close>: the
  server fills them in, and the next pass writes the zero values again.
\<close>

definition container :: "dev_environment \<Rightarrow> service_spec \<Rightarrow> container" where
  "container env spec =
     \<lparr>CName = SvcName spec,
      CImage = imageRef env spec,
      CPorts = [\<lparr>ContainerPort = Port spec, CpProtocol = ProtocolTCP\<rparr>],
      CResources = Resources spec,
      CEnv = map (\<lambda>k. \<lparr>EnvName = k, EnvValue = idx (Env spec) k\<rparr>) (sort (map fst (Env spec))),
      CEnvFrom =
        (if length (Config (Spec env)) > 0 then [config_map_source (configMapName env)] else []) @
        map secret_source (SecretRefs spec),
      CVolumeMounts =
        (if MountPath spec \<noteq> [] \<and> Storage (Spec env) \<noteq> None
         then [\<lparr>MountName = sharedVolumeName, VmMountPath = MountPath spec\<rparr>] else []),
      CReadinessProbe = readinessProbe spec,
      CImagePullPolicy = [], CTerminationMessagePath = [], CTerminationMessagePolicy = []\<rparr>"

definition applyFSGroup :: "dev_environment \<Rightarrow> service_spec \<Rightarrow> pod_spec \<Rightarrow> pod_spec" where
  "applyFSGroup env spec pod =
     (let gid = (if MountPath spec \<noteq> [] then
                   (case Storage (Spec env) of None \<Rightarrow> None | Some st \<Rightarrow> StorageFSGroup st)
                 else None)
      in case gid of
           None \<Rightarrow>
             (case SecurityContext pod of
                None \<Rightarrow> pod
              | Some sc \<Rightarrow> pod\<lparr>SecurityContext := Some (sc\<lparr>FSGroup := None\<rparr>)\<rparr>)
         | Some g \<Rightarrow>
             (let sc = (case SecurityContext pod of
                          None \<Rightarrow> \<lparr>FSGroup = None, RunAsNonRoot = None\<rparr>
                        | Some sc \<Rightarrow> sc)
              in pod\<lparr>SecurityContext := Some (sc\<lparr>FSGroup := Some g\<rparr>)\<rparr>))"

definition volumes :: "dev_environment \<Rightarrow> service_spec \<Rightarrow> volume list" where
  "volumes env spec =
     (if MountPath spec = [] \<or> Storage (Spec env) = None then []
      else [\<lparr>VolumeName = sharedVolumeName,
             VolumeSource = PersistentVolumeClaim (pvcName env)\<rparr>])"

text \<open>\<open>selector := map[string]string{labelEnvironment: env.Name, labelService: spec.Name}\<close>\<close>

definition selector :: "dev_environment \<Rightarrow> service_spec \<Rightarrow> labels" where
  "selector env spec = [(labelEnvironment, Name env), (labelService, SvcName spec)]"

definition mutateDeployment ::
  "dev_environment \<Rightarrow> service_spec \<Rightarrow> deployment \<Rightarrow> deployment" where
  "mutateDeployment env spec deploy =
     (let ds = DeploySpec deploy;
          pod = TemplateSpec (Template ds);
          pod = pod\<lparr>Containers := [container env spec], Volumes := volumes env spec,
                    ImagePullSecrets := pullSecretRefs env spec\<rparr>;
          pod = applyFSGroup env spec pod
      in deploy\<lparr>Labels := labels env (SvcName spec),
                DeploySpec := ds\<lparr>
                  Replicas := SvcReplicas spec,
                  Selector := (if CreationTimestamp deploy = None then Some (selector env spec)
                               else Selector ds),
                  Template := \<lparr>TemplateLabels = labels env (SvcName spec),
                               TemplateSpec = pod\<rparr>\<rparr>\<rparr>)"

definition mutateService :: "dev_environment \<Rightarrow> service_spec \<Rightarrow> service \<Rightarrow> service" where
  "mutateService env spec svc =
     svc\<lparr>Labels := labels env (SvcName spec),
         SvcSelector := selector env spec,
         SvcType := ServiceTypeClusterIP,
         SvcPorts := [\<lparr>SpName = ''http'', SpPort = Port spec,
                       SpTargetPort = intstrFromInt32 (Port spec), SpProtocol = ProtocolTCP\<rparr>]\<rparr>"

lemmas render_unfold [render_defs] =
  mutateDeployment_def mutateService_def applyFSGroup_def volumes_def readinessProbe_def

section \<open>Facts\<close>

lemma applyFSGroup_idem: "applyFSGroup env spec (applyFSGroup env spec pod) = applyFSGroup env spec pod"
  by (simp add: applyFSGroup_def Let_def split: option.splits)

lemma applyFSGroup_frame [simp]:
  "Containers (applyFSGroup env spec pod) = Containers pod"
  "InitContainers (applyFSGroup env spec pod) = InitContainers pod"
  "Volumes (applyFSGroup env spec pod) = Volumes pod"
  "ImagePullSecrets (applyFSGroup env spec pod) = ImagePullSecrets pod"
  by (simp_all add: applyFSGroup_def Let_def split: option.splits)

lemma applyFSGroup_writes_own_fields:
  "(applyFSGroup env spec pod)\<lparr>Containers := c, Volumes := v, ImagePullSecrets := i\<rparr> =
   applyFSGroup env spec (pod\<lparr>Containers := c, Volumes := v, ImagePullSecrets := i\<rparr>)"
  by (simp add: applyFSGroup_def Let_def split: option.splits)

lemma mutate_keeps_identity [simp]:
  "Name (mutateDeployment env spec d) = Name d" "Namespace (mutateDeployment env spec d) = Namespace d"
  "UID (mutateDeployment env spec d) = UID d"
  "CreationTimestamp (mutateDeployment env spec d) = CreationTimestamp d"
  "DeletionTimestamp (mutateDeployment env spec d) = DeletionTimestamp d"
  "Labels (mutateDeployment env spec d) = labels env (SvcName spec)"
  "DeployStatus (mutateDeployment env spec d) = DeployStatus d"
  "Name (mutateService env spec s) = Name s" "Namespace (mutateService env spec s) = Namespace s"
  "UID (mutateService env spec s) = UID s"
  "CreationTimestamp (mutateService env spec s) = CreationTimestamp s"
  "DeletionTimestamp (mutateService env spec s) = DeletionTimestamp s"
  "Labels (mutateService env spec s) = labels env (SvcName spec)"
  by (simp_all add: mutateDeployment_def mutateService_def Let_def)

lemma sort_keys_perm: "mset (map fst m) = mset (map fst m') \<Longrightarrow> sort (map fst m) = sort (map fst m')"
  for m m' :: "(string, string) gomap"
  by (metis properties_for_sort sorted_sort mset_sort)

lemma render_ignores_env [simp]:
  "volumes env (spec\<lparr>Env := m\<rparr>) = volumes env spec"
  "applyFSGroup env (spec\<lparr>Env := m\<rparr>) = applyFSGroup env spec"
  "pullSecretRefs env (spec\<lparr>Env := m\<rparr>) = pullSecretRefs env spec"
  "selector env (spec\<lparr>Env := m\<rparr>) = selector env spec"
  "imageRef env (spec\<lparr>Env := m\<rparr>) = imageRef env spec"
  "readinessProbe (spec\<lparr>Env := m\<rparr>) = readinessProbe spec"
  by (simp_all add: imageRef_def Let_def readinessProbe_def volumes_def split: option.splits)
     (simp_all add: volumes_def applyFSGroup_def pullSecretRefs_def pullSecrets_def selector_def fun_eq_iff)

lemma container_env_perm:
  assumes "mset m = mset (Env spec)" "wf_map (Env spec)"
  shows "container env (spec\<lparr>Env := m\<rparr>) = container env spec"
proof -
  have "mset (map fst m) = mset (map fst (Env spec))"
    using assms(1) by (simp only: mset_map)
  then have "sort (map fst m) = sort (map fst (Env spec))"
    by (rule sort_keys_perm)
  moreover have "idx m = idx (Env spec)"
    using map_of_perm [OF assms(1) [symmetric] assms(2)] by (simp add: idx_def fun_eq_iff)
  ultimately show ?thesis
    by (simp add: container_def)
qed

text \<open>
  Rendering over a stored rendering yields a spec between the rendering and its defaulted form:
  replica count and container are the bare rendered ones again, everything else is as stored.
\<close>

lemma applyFSGroup_security:
  "SecurityContext (applyFSGroup env spec pod) = SecurityContext (applyFSGroup env spec (pod'::pod_spec))"
  if "SecurityContext pod = SecurityContext pod'"
  using that by (simp add: applyFSGroup_def Let_def split: option.splits)

lemma applyFSGroup_stored:
  assumes "fills_security (SecurityContext (applyFSGroup env spec pod)) (SecurityContext pod')"
  shows "applyFSGroup env spec pod' = pod'"
  using assms
  by (cases "SecurityContext pod"; cases "SecurityContext pod'"; cases pod'; cases "MountPath spec = []";
      cases "Storage (Spec env)")
    (auto simp: applyFSGroup_def Let_def fills_security_def group_of_def split: option.splits
      intro!: pod_security_context.equality)

lemma rerendered:
  fixes env spec d e
  defines "x \<equiv> DeploySpec (mutateDeployment env spec d)"
    and "y \<equiv> DeploySpec (mutateDeployment env spec e)"
  assumes z: "fills x (DeploySpec e)" and t: "CreationTimestamp e \<noteq> None"
  shows "fills x y" "fills y (DeploySpec e)"
proof -
  let ?pod = "TemplateSpec (Template (DeploySpec e))"
  have "fills_pod (TemplateSpec (Template x)) ?pod" using z by (simp add: fills_def)
  then have sc: "applyFSGroup env spec (?pod\<lparr>Containers := c, Volumes := v, ImagePullSecrets := i\<rparr>) =
      ?pod\<lparr>Containers := c, Volumes := v, ImagePullSecrets := i\<rparr>" for c v i
    by (intro applyFSGroup_stored) (auto simp: x_def mutateDeployment_def Let_def fills_pod_def)
  have y: "y = (DeploySpec e)\<lparr>Replicas := SvcReplicas spec,
      Template := \<lparr>TemplateLabels = labels env (SvcName spec), TemplateSpec =
        ?pod\<lparr>Containers := [container env spec], Volumes := volumes env spec,
          ImagePullSecrets := pullSecretRefs env spec\<rparr>\<rparr>\<rparr>"
    using t by (auto simp: y_def mutateDeployment_def Let_def sc)
  have x: "Replicas x = SvcReplicas spec" "TemplateLabels (Template x) = labels env (SvcName spec)"
    "Containers (TemplateSpec (Template x)) = [container env spec]"
    "Volumes (TemplateSpec (Template x)) = volumes env spec"
    "ImagePullSecrets (TemplateSpec (Template x)) = pullSecretRefs env spec"
    by (simp_all add: x_def mutateDeployment_def Let_def)
  show "fills x y" "fills y (DeploySpec e)"
    using z unfolding y fills_def fills_pod_def by (simp_all add: x)
qed

lemma mutateDeployment_readmitted:
  assumes dflt: "defaulting dflt"
    and e: "DeploySpec e = dflt (DeploySpec (mutateDeployment env spec d))"
      "Labels e = labels env (SvcName spec)" "CreationTimestamp e \<noteq> None"
  shows "defaulted dflt (mutateDeployment env spec e) = e"
proof -
  let ?x = "DeploySpec (mutateDeployment env spec d)" and ?y = "DeploySpec (mutateDeployment env spec e)"
  have "fills ?x (DeploySpec e)" unfolding e(1) by (rule defaulting.fills_dflt [OF dflt])
  then have "fills ?x ?y" "fills ?y (dflt ?x)"
    using rerendered [of env spec d e] e(3) by (simp_all add: e(1))
  then have "dflt ?y = DeploySpec e" unfolding e(1) by (rule defaulting.dflt_between [OF dflt])
  moreover have "mutateDeployment env spec e = e\<lparr>DeploySpec := ?y\<rparr>"
    using e(2) by (cases e) (simp add: mutateDeployment_def Let_def)
  ultimately show ?thesis by (metis defaulted_def deployment.surjective deployment.update_convs(1)
      deployment.select_convs(1))
qed

section \<open>Properties\<close>

text \<open>
  C27. No rollout without a change. Once the API server has stored a rendered Deployment, with
  the unset fields of its spec filled in and with its own metadata and status, rendering the
  same service over it and admitting the result stores the same Deployment again: whatever
  defaults the server has, the bare container and replica count that each pass writes over the
  defaulted ones never change the pod template. The rendering does not depend on the order in
  which Go ranges over the service's \<open>env\<close> map either.
\<close>

theorem mutateDeployment_stable:
  assumes "defaulting dflt"
  shows "defaulted dflt (mutateDeployment env spec
     ((defaulted dflt (mutateDeployment env spec d))\<lparr>UID := u, ResourceVersion := v, Generation := g,
        CreationTimestamp := Some t, DeletionTimestamp := dt, DeployStatus := st\<rparr>)) =
   (defaulted dflt (mutateDeployment env spec d))\<lparr>UID := u, ResourceVersion := v, Generation := g,
        CreationTimestamp := Some t, DeletionTimestamp := dt, DeployStatus := st\<rparr> \<and>
   (wf_map (Env spec) \<and> mset m = mset (Env spec) \<longrightarrow>
      mutateDeployment env (spec\<lparr>Env := m\<rparr>) d = mutateDeployment env spec d)"
proof -
  have "mutateDeployment env (spec\<lparr>Env := m\<rparr>) d = mutateDeployment env spec d"
    if "wf_map (Env spec)" "mset m = mset (Env spec)"
    by (simp add: mutateDeployment_def Let_def container_env_perm [OF that(2,1)])
  moreover have "defaulted dflt (mutateDeployment env spec
     ((defaulted dflt (mutateDeployment env spec d))\<lparr>UID := u, ResourceVersion := v, Generation := g,
        CreationTimestamp := Some t, DeletionTimestamp := dt, DeployStatus := st\<rparr>)) =
   (defaulted dflt (mutateDeployment env spec d))\<lparr>UID := u, ResourceVersion := v, Generation := g,
        CreationTimestamp := Some t, DeletionTimestamp := dt, DeployStatus := st\<rparr>"
    by (rule mutateDeployment_readmitted [OF assms]) (simp_all add: defaulted_def)
  ultimately show ?thesis by blast
qed

definition env_service :: service_spec where
  "env_service = sample_service\<lparr>Env := [(''B'', ''2''), (''A'', ''1'')]\<rparr>"

text \<open>A stored Deployment with the API's defaults, rendered from a service without a replica count.\<close>

definition stored_deployment :: deployment where
  "stored_deployment = (defaulted api_defaults
     (mutateDeployment sample_env env_service (new_deployment ''team-alpha'' ''redis'')))
       \<lparr>UID := ''u'', ResourceVersion := 7, Generation := 1, CreationTimestamp := Some 3,
        DeletionTimestamp := None, DeployStatus := empty_deployment_status\<rparr>"

definition first_container :: "deployment \<Rightarrow> container" where
  "first_container d = hd (Containers (TemplateSpec (Template (DeploySpec d))))"

theorem mutateDeployment_stable_witness:
  "Replicas (DeploySpec stored_deployment) = Some 1 \<and>
   CImagePullPolicy (first_container stored_deployment) = ''IfNotPresent'' \<and>
   mutateDeployment sample_env env_service stored_deployment \<noteq> stored_deployment \<and>
   defaulted api_defaults (mutateDeployment sample_env env_service stored_deployment) = stored_deployment \<and>
   mutateDeployment sample_env (env_service\<lparr>Env := [(''A'', ''1''), (''B'', ''2'')]\<rparr>) stored_deployment =
     mutateDeployment sample_env env_service stored_deployment"
proof -
  have "Replicas (DeploySpec stored_deployment) = Some 1"
    "CImagePullPolicy (first_container stored_deployment) = ''IfNotPresent''"
    "CImagePullPolicy (first_container (mutateDeployment sample_env env_service stored_deployment)) = []"
    by code_simp+
  moreover from this have "mutateDeployment sample_env env_service stored_deployment \<noteq> stored_deployment" by auto
  moreover have "defaulted api_defaults (mutateDeployment sample_env env_service stored_deployment) = stored_deployment"
    unfolding stored_deployment_def using mutateDeployment_stable [OF api_defaults.defaulting_axioms] by blast
  moreover have "mutateDeployment sample_env (env_service\<lparr>Env := [(''A'', ''1''), (''B'', ''2'')]\<rparr>) stored_deployment =
     mutateDeployment sample_env env_service stored_deployment"
    using mutateDeployment_stable [OF api_defaults.defaulting_axioms, where spec = env_service and env = sample_env
        and d = stored_deployment and m = "[(''A'', ''1''), (''B'', ''2'')]"]
    by (simp add: env_service_def wf_map_def add_mset_commute)
  ultimately show ?thesis by blast
qed

text \<open>
  C28. The container carries the service's plain variables exactly: the variable list is in
  strictly ascending key order, and as a map it is the service's \<open>env\<close>; it draws on the
  environment's ConfigMap exactly when \<open>spec.config\<close> is non-empty, and then on the service's
  \<open>secretRefs\<close> in order.
\<close>

theorem container_environment:
  assumes "wf_map (Env spec)"
  shows "sorted_wrt (<) (map EnvName (CEnv (container env spec))) \<and>
    map_of (map (\<lambda>v. (EnvName v, EnvValue v)) (CEnv (container env spec))) = map_of (Env spec) \<and>
    CEnvFrom (container env spec) =
      (if Config (Spec env) = [] then []
       else [\<lparr>ConfigMapRef = Some (LocalObjectReference (configMapName env)), SecretRef = None\<rparr>]) @
      map (\<lambda>n. \<lparr>ConfigMapRef = None, SecretRef = Some (LocalObjectReference n)\<rparr>) (SecretRefs spec)"
proof -
  have keys: "distinct (map fst (Env spec))" using assms by (simp add: wf_map_def)
  have "sorted_wrt (<) (sort (map fst (Env spec)))"
    using keys by (simp add: strict_sorted_iff)
  moreover have entries: "map_of (map (\<lambda>k. (k, f k)) ks) k = (if k \<in> set ks then Some (f k) else None)"
    for f :: "string \<Rightarrow> string" and ks k
    by (induction ks) auto
  have "map_of (map (\<lambda>k. (k, idx (Env spec) k)) (sort (map fst (Env spec)))) k = map_of (Env spec) k" for k
    using map_of_eq_None_iff [of "Env spec" k]
    by (cases "map_of (Env spec) k") (simp_all add: entries idx_def)
  ultimately show ?thesis
    by (simp add: container_def o_def config_map_source_def secret_source_def fun_eq_iff)
qed

theorem container_environment_witness:
  "map EnvName (CEnv (container sample_env env_service)) = [''A'', ''B''] \<and>
   sorted_wrt (<) (map EnvName (CEnv (container sample_env env_service))) \<and>
   map_of (map (\<lambda>v. (EnvName v, EnvValue v)) (CEnv (container sample_env env_service))) ''B''
     = Some ''2'' \<and>
   length (CEnvFrom (container sample_env env_service)) = 1"
proof -
  have "wf_map (Env env_service)" by (simp add: env_service_def wf_map_def)
  note * = container_environment [OF this, of sample_env]
  have "map EnvName (CEnv (container sample_env env_service)) = [''A'', ''B'']" by code_simp
  with * show ?thesis
    by (simp add: env_service_def sample_service_def sample_spec_def)
qed

text \<open>
  A rendered readiness probe always does something: a probe with an empty handler becomes a
  TCP check of the service's own port with its timings kept, an explicit handler is used
  verbatim, and a service without a probe renders none.
\<close>

theorem readinessProbe_never_empty:
  "readinessProbe spec =
     (case ReadinessProbe spec of
        None \<Rightarrow> None
      | Some p \<Rightarrow> Some (if ProbeHandler p \<noteq> empty_handler then p
                        else p\<lparr>ProbeHandler := \<lparr>Exec = None, HTTPGet = None,
                          TCPSocket = Some \<lparr>TcpPort = \<lparr>IosType = IntstrInt, IntVal = Port spec,
                            StrVal = []\<rparr>\<rparr>, GRPC = None\<rparr>\<rparr>)) \<and>
   empty_handler \<notin> ProbeHandler ` set_option (readinessProbe spec)"
  by (auto simp: readinessProbe_def empty_handler_def intstrFromInt32_def split: option.splits)

text \<open>
  The pod security context: a service that mounts the volume of a storage with an
  \<open>fsGroup\<close> gets exactly that group and every other service gets none, whatever the template
  held before; a field the operator does not own survives, and no security context is made up
  for a pod that needs none.
\<close>

theorem applyFSGroup_exact:
  "(case SecurityContext (applyFSGroup env spec pod) of None \<Rightarrow> None | Some sc \<Rightarrow> FSGroup sc) =
     (if MountPath spec = [] then None
      else case Storage (Spec env) of None \<Rightarrow> None | Some st \<Rightarrow> StorageFSGroup st) \<and>
   (case SecurityContext (applyFSGroup env spec pod) of None \<Rightarrow> None | Some sc \<Rightarrow> RunAsNonRoot sc) =
     (case SecurityContext pod of None \<Rightarrow> None | Some sc \<Rightarrow> RunAsNonRoot sc) \<and>
   (SecurityContext (applyFSGroup env spec pod) = None \<longleftrightarrow>
      SecurityContext pod = None \<and>
      (MountPath spec = [] \<or>
       (case Storage (Spec env) of None \<Rightarrow> True | Some st \<Rightarrow> StorageFSGroup st = None)))"
  by (auto simp: applyFSGroup_def Let_def split: option.splits)

text \<open>
  C29. The rendered pod is closed: every volume its container mounts is among its volumes, each
  backed by the environment's own claim, and both are present exactly when the service has a
  mount path and the environment has storage; what others put on the pod as init containers
  stays.
\<close>

theorem mutateDeployment_volumes:
  "(let pod = TemplateSpec (Template (DeploySpec (mutateDeployment env spec d)))
    in InitContainers pod = InitContainers (TemplateSpec (Template (DeploySpec d))) \<and>
       map MountName (concat (map CVolumeMounts (Containers pod))) = map VolumeName (Volumes pod) \<and>
       Volumes pod =
         (if MountPath spec = [] then []
          else case Storage (Spec env) of None \<Rightarrow> []
               | Some st \<Rightarrow> [\<lparr>VolumeName = ''workspace'',
                              VolumeSource = PersistentVolumeClaim (pvcName env)\<rparr>]))"
  by (auto simp: mutateDeployment_def Let_def container_def volumes_def sharedVolumeName_def
      split: option.splits)

text \<open>
  C30. Traffic reaches the pods: on a Deployment that does not exist yet, the selector picks
  only labels the pod template carries, and the Service selects by the same two labels, so the
  Service of a named service routes to exactly the pods its Deployment manages.
\<close>

theorem selector_matches_template:
  assumes "SvcName spec \<noteq> []" and "CreationTimestamp d = None"
  shows "Selector (DeploySpec (mutateDeployment env spec d)) =
      Some (SvcSelector (mutateService env spec s)) \<and>
    map_of (SvcSelector (mutateService env spec s)) \<subseteq>\<^sub>m
      map_of (TemplateLabels (Template (DeploySpec (mutateDeployment env spec d))))"
  using assms
  by (auto simp: mutateDeployment_def mutateService_def Let_def selector_def map_le_def map_of_labels)

theorem selector_matches_template_witness:
  "Selector (DeploySpec (mutateDeployment sample_env sample_service (new_deployment ''t'' ''redis'')))
     = Some (SvcSelector (mutateService sample_env sample_service (new_service ''t'' ''redis'')))"
proof -
  have "SvcName sample_service \<noteq> []" by (simp add: sample_service_def)
  moreover have "CreationTimestamp (new_deployment ''t'' ''redis'') = None"
    by (simp add: new_deployment_def new_meta_def object_meta.defs)
  ultimately show ?thesis using selector_matches_template by blast
qed

end
