(* ===== verification/Diagnose.thy ===== *)
theory Diagnose
  imports Naming
begin

text \<open>
  Why a service is not ready: the pure part of the diagnosis in
  \<open>internal/controller/devenvironment_controller.go\<close>, from a container's status
  (\<open>containerProblem\<close>, \<open>terminationDetail\<close>, \<open>blockingWaitReasons\<close>) over a pod's
  (\<open>podProblem\<close>) and a Deployment's (\<open>progressDeadlineExceeded\<close>, \<open>replicaFailure\<close>,
  \<open>stalledDetail\<close>) to the loops of \<open>workloadProblems\<close> and \<open>addStalledServices\<close> that fill
  the map \<open>byService\<close> and print it in spec order. The list calls that feed the loops are in
  theory Status_Report.
\<close>

section \<open>Containers\<close>

definition blockingWaitReasons :: "string list" where
  "blockingWaitReasons =
     [''CrashLoopBackOff'', ''ImagePullBackOff'', ''ErrImagePull'', ''ErrImageNeverPull'',
      ''ImageInspectError'', ''InvalidImageName'', ''CreateContainerConfigError'',
      ''CreateContainerError'', ''RunContainerError'']"

definition terminationDetail :: "container_state_terminated \<Rightarrow> string" where
  "terminationDetail t =
     (if TermReason t \<noteq> [] \<and> TermReason t \<noteq> ''Error''
      then TermReason t @ '', exit code '' @ itoa (sint (ExitCode t))
      else ''exit code '' @ itoa (sint (ExitCode t)))"

definition logs_hint :: "pod \<Rightarrow> string" where
  "logs_hint pod = ''; see `kubectl logs -n '' @ Namespace pod @ '' '' @ Name pod @ ''`''"

text \<open>What \<open>containerProblem\<close> reports when no blocking waiting reason is set: restart history.\<close>

definition restartProblem :: "container_status \<Rightarrow> pod \<Rightarrow> string \<Rightarrow> string" where
  "restartProblem cs pod kind =
     (if (case Terminated (CsState cs) of Some t \<Rightarrow> ExitCode t = 0 | None \<Rightarrow> False) then []
      else if 0 <s RestartCount cs then
        (case Terminated (LastTerminationState cs) of
           Some t \<Rightarrow>
             if ExitCode t \<noteq> 0
             then ''restarting after failure ('' @ kind @ '' '' @ quote (CsName cs) @ '' exited with '' @
                  terminationDetail t @ '', '' @ itoa (sint (RestartCount cs)) @ '' restart(s))'' @
                  logs_hint pod
             else []
         | None \<Rightarrow> [])
      else [])"

definition waitProblem :: "container_state_waiting \<Rightarrow> string" where
  "waitProblem w =
     (if WaitMessage w \<noteq> [] then WaitReason w @ '': '' @ WaitMessage w else WaitReason w)"

definition containerProblem :: "container_status \<Rightarrow> pod \<Rightarrow> string \<Rightarrow> string" where
  "containerProblem cs pod kind =
     (if CsReady cs then []
      else case Waiting (CsState cs) of
             None \<Rightarrow> restartProblem cs pod kind
           | Some w \<Rightarrow>
               if WaitReason w \<in> set blockingWaitReasons then
                 (case Terminated (LastTerminationState cs) of
                    None \<Rightarrow> waitProblem w
                  | Some t \<Rightarrow>
                      if WaitReason w = ''CrashLoopBackOff''
                      then WaitReason w @ '' ('' @ kind @ '' '' @ quote (CsName cs) @
                           '' last exited with '' @ terminationDetail t @ '')'' @ logs_hint pod
                      else waitProblem w)
               else restartProblem cs pod kind)"

section \<open>Pods\<close>

definition PodScheduled :: string where "PodScheduled = ''PodScheduled''"
definition PodReasonUnschedulable :: string where "PodReasonUnschedulable = ''Unschedulable''"

text \<open>The first problem of a list of containers, or the empty string.\<close>

fun containersProblem :: "container_status list \<Rightarrow> pod \<Rightarrow> string \<Rightarrow> string" where
  "containersProblem [] pod kind = []"
| "containersProblem (cs # rest) pod kind =
     (let d = containerProblem cs pod kind
      in if d \<noteq> [] then d else containersProblem rest pod kind)"

definition unschedulable :: "pod_condition \<Rightarrow> bool" where
  "unschedulable c \<longleftrightarrow> PcType c = PodScheduled \<and> PcStatus c = ConditionFalse \<and>
     PcReason c = PodReasonUnschedulable"

definition podProblem :: "pod \<Rightarrow> string" where
  "podProblem pod =
     (case find unschedulable (PodConditions pod) of
        Some c \<Rightarrow> ''Unschedulable: '' @ PcMessage c
      | None \<Rightarrow>
          (let d = containersProblem (InitContainerStatuses pod) pod ''init container''
           in if d \<noteq> [] then d else containersProblem (ContainerStatuses pod) pod ''container''))"

section \<open>Deployments\<close>

definition DeploymentReplicaFailure :: string where "DeploymentReplicaFailure = ''ReplicaFailure''"
definition DeploymentProgressing :: string where "DeploymentProgressing = ''Progressing''"

definition replicaFailure :: "deployment \<Rightarrow> deployment_condition option" where
  "replicaFailure d =
     find (\<lambda>c. DcType c = DeploymentReplicaFailure \<and> DcStatus c = ConditionTrue)
       (DsConditions (DeployStatus d))"

definition progressDeadlineExceeded :: "deployment \<Rightarrow> bool" where
  "progressDeadlineExceeded d =
     (if DsObservedGeneration (DeployStatus d) <s Generation d then False
      else if UpdatedReplicas (DeployStatus d) = 0 \<and> replicaFailure d = None then False
      else list_ex (\<lambda>c. DcType c = DeploymentProgressing \<and> DcStatus c = ConditionFalse \<and>
                        DcReason c = ''ProgressDeadlineExceeded'')
             (DsConditions (DeployStatus d)))"

definition stalledBase :: string where
  "stalledBase =
     ''Stalled: no replica became ready within the deployment's progress deadline''"

text \<open>The last message has an em dash, three bytes of UTF-8.\<close>

definition stalledDetail :: "deployment \<Rightarrow> bool \<Rightarrow> string" where
  "stalledDetail d podsKnown =
     (case replicaFailure d of
        Some c \<Rightarrow> stalledBase @ ''; '' @ DcReason c @ '': '' @ DcMessage c
      | None \<Rightarrow>
          if \<not> podsKnown
          then stalledBase @ ''; the pods could not be read, so the cause is unknown''
          else stalledBase @ ''; if the container is running, its readinessProbe is not passing '' @
               [CHR 0xE2, CHR 0x80, CHR 0x94] @
               '' check that something listens on the port the probe targets'')"

section \<open>The map from service to problem\<close>

type_synonym problems = "(string, string) gomap"

definition podStep :: "pod \<Rightarrow> problems \<Rightarrow> problems" where
  "podStep pod byService =
     (if DeletionTimestamp pod \<noteq> None then byService
      else let svc = idx (Labels pod) labelService
           in if svc = [] \<or> idx byService svc \<noteq> [] then byService
              else let detail = podProblem pod
                   in if detail \<noteq> [] then AList.update svc detail byService else byService)"

definition podPass :: "pod list \<Rightarrow> problems \<Rightarrow> problems" where
  "podPass pods byService = fold podStep pods byService"

definition stalledStep :: "bool \<Rightarrow> deployment \<Rightarrow> problems \<Rightarrow> problems" where
  "stalledStep podsKnown d byService =
     (let svc = idx (Labels d) labelService
      in if svc = [] \<or> idx byService svc \<noteq> [] then byService
         else if \<not> progressDeadlineExceeded d then byService
         else AList.update svc (stalledDetail d podsKnown) byService)"

definition stalledPass :: "bool \<Rightarrow> deployment list \<Rightarrow> problems \<Rightarrow> problems" where
  "stalledPass podsKnown deploys byService = fold (stalledStep podsKnown) deploys byService"

definition problemLine :: "string \<Rightarrow> string \<Rightarrow> string" where
  "problemLine svc detail = ''service '' @ quote svc @ '': '' @ detail"

definition problemList :: "service_spec list \<Rightarrow> problems \<Rightarrow> string list" where
  "problemList services byService =
     map (\<lambda>s. problemLine (SvcName s) (idx byService (SvcName s)))
       (filter (\<lambda>s. idx byService (SvcName s) \<noteq> []) services)"

section \<open>Facts\<close>

definition blocked :: "container_status \<Rightarrow> bool" where
  "blocked cs = (case Waiting (CsState cs) of None \<Rightarrow> False
                 | Some w \<Rightarrow> WaitReason w \<in> set blockingWaitReasons)"

definition completed :: "container_status \<Rightarrow> bool" where
  "completed cs = (case Terminated (CsState cs) of None \<Rightarrow> False | Some t \<Rightarrow> ExitCode t = 0)"

definition crashed_before :: "container_status \<Rightarrow> bool" where
  "crashed_before cs \<longleftrightarrow> 0 < sint (RestartCount cs) \<and>
     (case Terminated (LastTerminationState cs) of None \<Rightarrow> False | Some t \<Rightarrow> ExitCode t \<noteq> 0)"

lemma blocking_reason_nonempty: "r \<in> set blockingWaitReasons \<Longrightarrow> r \<noteq> []"
  by (auto simp: blockingWaitReasons_def)

lemma waitProblem_nonempty: "WaitReason w \<in> set blockingWaitReasons \<Longrightarrow> waitProblem w \<noteq> []"
  using blocking_reason_nonempty by (auto simp: waitProblem_def)

lemma restartProblem_empty_iff:
  "restartProblem cs pod kind = [] \<longleftrightarrow> completed cs \<or> \<not> crashed_before cs"
  by (auto simp: restartProblem_def completed_def crashed_before_def word_sless_alt
      split: option.splits)

lemma containerProblem_empty_iff:
  "containerProblem cs pod kind = [] \<longleftrightarrow>
     CsReady cs \<or> (\<not> blocked cs \<and> (completed cs \<or> \<not> crashed_before cs))"
  using waitProblem_nonempty blocking_reason_nonempty
  by (auto simp: containerProblem_def blocked_def restartProblem_empty_iff split: option.splits)

lemma containersProblem_empty_iff:
  "containersProblem css pod kind = [] \<longleftrightarrow> (\<forall>cs \<in> set css. containerProblem cs pod kind = [])"
  by (induction css) (auto simp: Let_def)

lemma stalledDetail_nonempty [simp]: "stalledDetail d k \<noteq> []"
  by (auto simp: stalledDetail_def stalledBase_def split: option.splits)

definition first_nonempty :: "string list \<Rightarrow> string" where
  "first_nonempty xs = (case find (\<lambda>x. x \<noteq> []) xs of None \<Rightarrow> [] | Some x \<Rightarrow> x)"

lemma first_nonempty_simps [simp]:
  "first_nonempty [] = []"
  "first_nonempty (x # xs) = (if x \<noteq> [] then x else first_nonempty xs)"
  by (simp_all add: first_nonempty_def)

definition live_pods_of :: "string \<Rightarrow> pod list \<Rightarrow> pod list" where
  "live_pods_of svc pods =
     filter (\<lambda>p. DeletionTimestamp p = None \<and> idx (Labels p) labelService = svc) pods"

lemma podPass_idx:
  "idx (podPass pods m) svc =
     (if svc = [] \<or> idx m svc \<noteq> [] then idx m svc
      else first_nonempty (map podProblem (live_pods_of svc pods)))"
proof (induction pods arbitrary: m)
  case (Cons p pods)
  then show ?case
    by (auto simp: podPass_def podStep_def Let_def live_pods_of_def go_simps)
qed (simp add: podPass_def live_pods_of_def)

lemma stalledPass_idx:
  "idx (stalledPass k ds m) svc =
     (if svc = [] \<or> idx m svc \<noteq> [] then idx m svc
      else case find (\<lambda>d. idx (Labels d) labelService = svc \<and> progressDeadlineExceeded d) ds of
             None \<Rightarrow> [] | Some d \<Rightarrow> stalledDetail d k)"
proof (induction ds arbitrary: m)
  case (Cons d ds)
  then show ?case
    by (auto simp: stalledPass_def stalledStep_def Let_def go_simps)
qed (simp add: stalledPass_def)

section \<open>Properties\<close>

text \<open>
  A container counts as a problem exactly when it is not ready and either waits for a
  reason that will not clear by itself, or has restarted after a non-zero exit and has not
  completed; a container that is passing its probe, still being created, or finished cleanly is
  never reported.
\<close>

theorem containerProblem_exact:
  "containerProblem cs pod kind \<noteq> [] \<longleftrightarrow>
     \<not> CsReady cs \<and>
     ((case Waiting (CsState cs) of None \<Rightarrow> False
       | Some w \<Rightarrow> WaitReason w \<in> {''CrashLoopBackOff'', ''ImagePullBackOff'', ''ErrImagePull'',
           ''ErrImageNeverPull'', ''ImageInspectError'', ''InvalidImageName'',
           ''CreateContainerConfigError'', ''CreateContainerError'', ''RunContainerError''}) \<or>
      (case Terminated (CsState cs) of None \<Rightarrow> True | Some t \<Rightarrow> ExitCode t \<noteq> 0) \<and>
      0 < sint (RestartCount cs) \<and>
      (case Terminated (LastTerminationState cs) of None \<Rightarrow> False | Some t \<Rightarrow> ExitCode t \<noteq> 0))"
proof -
  have reasons: "set blockingWaitReasons = {''CrashLoopBackOff'', ''ImagePullBackOff'', ''ErrImagePull'',
      ''ErrImageNeverPull'', ''ImageInspectError'', ''InvalidImageName'',
      ''CreateContainerConfigError'', ''CreateContainerError'', ''RunContainerError''}"
    by (simp add: blockingWaitReasons_def)
  show ?thesis
    unfolding reasons [symmetric] containerProblem_empty_iff
    by (auto simp: blocked_def completed_def crashed_before_def split: option.splits)
qed

text \<open>
  A pod's problem is looked for in order: an unschedulable pod is reported as such whatever
  its containers say; otherwise the first init container with a problem speaks for the pod, and
  the app containers only when no init container has one. A pod is healthy exactly when none of
  the three applies.
\<close>

theorem podProblem_precedence:
  "podProblem pod =
     (case find unschedulable (PodConditions pod) of
        Some c \<Rightarrow> ''Unschedulable: '' @ PcMessage c
      | None \<Rightarrow> first_nonempty
          (map (\<lambda>cs. containerProblem cs pod ''init container'') (InitContainerStatuses pod) @
           map (\<lambda>cs. containerProblem cs pod ''container'') (ContainerStatuses pod)))"
proof -
  have first: "containersProblem css pod kind = first_nonempty (map (\<lambda>cs. containerProblem cs pod kind) css)"
    for css kind by (induction css) (auto simp: Let_def)
  have append: "first_nonempty (xs @ ys) = (if first_nonempty xs \<noteq> [] then first_nonempty xs else first_nonempty ys)"
    for xs ys by (induction xs) auto
  show ?thesis by (simp add: podProblem_def Let_def first append split: option.splits)
qed

text \<open>
  A Deployment is called stalled only on evidence about the rollout that is current: its
  status has caught up with its generation, either a pod of the current template exists or the
  ReplicaSet reports that it cannot create one, and the Deployment controller has set
  \<open>Progressing=False\<close> with reason \<open>ProgressDeadlineExceeded\<close>.
\<close>

theorem progressDeadlineExceeded_exact:
  "progressDeadlineExceeded d \<longleftrightarrow>
     sint (Generation d) \<le> sint (DsObservedGeneration (DeployStatus d)) \<and>
     (if UpdatedReplicas (DeployStatus d) = 0
      then \<exists>c \<in> set (DsConditions (DeployStatus d)). DcType c = ''ReplicaFailure'' \<and> DcStatus c = ConditionTrue
      else True) \<and>
     (\<exists>c \<in> set (DsConditions (DeployStatus d)). DcType c = ''Progressing'' \<and>
        DcStatus c = ConditionFalse \<and> DcReason c = ''ProgressDeadlineExceeded'')"
  by (auto simp: progressDeadlineExceeded_def replicaFailure_def word_sless_alt find_None_iff
      DeploymentReplicaFailure_def DeploymentProgressing_def list_ex_iff not_less)

text \<open>The diagnosis of one service: the first live pod with a problem, else a stalled Deployment.\<close>

definition service_diagnosis :: "bool \<Rightarrow> pod list \<Rightarrow> deployment list \<Rightarrow> string \<Rightarrow> string" where
  "service_diagnosis podsKnown pods deploys svc =
     (let from_pods = first_nonempty (map podProblem (live_pods_of svc pods))
      in if svc = [] then []
         else if from_pods \<noteq> [] then from_pods
         else case find (\<lambda>d. idx (Labels d) labelService = svc \<and> progressDeadlineExceeded d) deploys of
                None \<Rightarrow> [] | Some d \<Rightarrow> stalledDetail d podsKnown)"

text \<open>
  C31. The report has one line per broken service, in spec order: a service's line carries the
  problem of its first live pod that has one, and only when no pod has a problem the stalled
  detail of its Deployment, so a deadline never hides a crash; terminating pods and unlabelled
  objects contribute nothing.
\<close>

theorem problemList_exact:
  "problemList services (stalledPass podsKnown deploys (podPass pods [])) =
     concat (map (\<lambda>s. let d = service_diagnosis podsKnown pods deploys (SvcName s)
                       in if d = [] then [] else [''service '' @ quote (SvcName s) @ '': '' @ d]) services)"
proof -
  have "idx (stalledPass podsKnown deploys (podPass pods [])) svc = service_diagnosis podsKnown pods deploys svc"
    for svc
    by (simp add: stalledPass_idx podPass_idx service_diagnosis_def Let_def idx_def [of "[]"])
  then show ?thesis
    by (induction services) (simp_all add: problemList_def problemLine_def Let_def)
qed

end
