(* ===== verification/Kube_Client.thy ===== *)
theory Kube_Client
  imports Api_Types
begin

text \<open>
  The interface to the API server. The controller-runtime client, the \<open>controllerutil\<close> and
  \<open>meta\<close> helpers and the server behind them are not part of the repository, so they are
  parameters: a record of operations over an open world type \<open>'w\<close>, held by the
  \<open>DevEnvironmentReconciler\<close> record as the Go struct holds them. What the operator relies on is
  stated as locales over a view \<open>view\<close> of the world to the cluster's objects.

  The laws are the documented behaviour of the API. A read returns what is stored or fails. A
  write that succeeds has its effect; one that fails with NotFound, AlreadyExists or Conflict
  was rejected and has none; any other failure (a timeout, a lost connection) may or may not
  have taken effect. Every operation may fail at any time. The world may hold anything else
  besides (clocks, caches, logs, pending faults).
\<close>

section \<open>Operations\<close>

record 'w api_reader =
  get_secret :: "obj_key \<Rightarrow> ('w, secret) io"
  list_pods :: "string \<Rightarrow> labels \<Rightarrow> ('w, pod list) io"

text \<open>
  The client extends the reader, as \<open>client.Client\<close> embeds \<open>client.Reader\<close>. The
  \<open>create_or_update\<close> operations are \<open>controllerutil.CreateOrUpdate\<close> at each type, with the
  object that carries the key and the mutation closure. \<open>patch_namespace\<close> takes the object the
  merge patch is computed from and the modified object; \<open>delete_secret\<close> takes the UID
  precondition.
\<close>

record 'w client = "'w api_reader" +
  get_env :: "obj_key \<Rightarrow> ('w, dev_environment) io"
  update_env :: "dev_environment \<Rightarrow> ('w, dev_environment) io"
  update_env_status :: "dev_environment \<Rightarrow> ('w, dev_environment) io"
  get_namespace :: "string \<Rightarrow> ('w, namespace) io"
  create_namespace :: "namespace \<Rightarrow> ('w, namespace) io"
  patch_namespace :: "namespace \<Rightarrow> namespace \<Rightarrow> ('w, namespace) io"
  delete_namespace :: "namespace \<Rightarrow> ('w, unit) io"
  create_or_update_config_map :: "config_map \<Rightarrow> (config_map \<Rightarrow> config_map) \<Rightarrow> ('w, config_map) io"
  delete_config_map :: "config_map \<Rightarrow> ('w, unit) io"
  create_secret :: "secret \<Rightarrow> ('w, secret) io"
  create_or_update_secret :: "secret \<Rightarrow> (secret \<Rightarrow> secret) \<Rightarrow> ('w, secret) io"
  delete_secret :: "secret \<Rightarrow> string \<Rightarrow> ('w, unit) io"
  get_pvc :: "obj_key \<Rightarrow> ('w, pvc) io"
  create_pvc :: "pvc \<Rightarrow> ('w, pvc) io"
  create_or_update_deployment :: "deployment \<Rightarrow> (deployment \<Rightarrow> deployment) \<Rightarrow> ('w, deployment) io"
  list_deployments :: "string \<Rightarrow> labels \<Rightarrow> ('w, deployment list) io"
  delete_deployment :: "deployment \<Rightarrow> ('w, unit) io"
  create_or_update_service :: "service \<Rightarrow> (service \<Rightarrow> service) \<Rightarrow> ('w, service) io"
  list_services :: "string \<Rightarrow> labels \<Rightarrow> ('w, service list) io"
  delete_service :: "service \<Rightarrow> ('w, unit) io"

text \<open>
  \<open>meta.SetStatusCondition\<close> reads the clock, so it is an effect; the finalizer helpers of
  \<open>controllerutil\<close> are functions.
\<close>

record 'w helpers =
  set_status_condition :: "condition list \<Rightarrow> condition \<Rightarrow> ('w, condition list) state"
  contains_finalizer :: "dev_environment \<Rightarrow> string \<Rightarrow> bool"
  add_finalizer :: "dev_environment \<Rightarrow> string \<Rightarrow> dev_environment"
  remove_finalizer :: "dev_environment \<Rightarrow> string \<Rightarrow> dev_environment"

text \<open>The struct \<open>DevEnvironmentReconciler\<close>; \<open>Scheme\<close> is never read by the code.\<close>

record 'w reconciler =
  Client :: "'w client"
  APIReader :: "'w api_reader option"
  Helpers :: "'w helpers"

definition reader :: "'w reconciler \<Rightarrow> 'w api_reader" where
  "reader r = (case APIReader r of Some rd \<Rightarrow> rd | None \<Rightarrow> api_reader.truncate (Client r))"

section \<open>The cluster as the API server stores it\<close>

record cluster =
  cl_envs :: "obj_key \<rightharpoonup> dev_environment"
  cl_namespaces :: "string \<rightharpoonup> namespace"
  cl_config_maps :: "obj_key \<rightharpoonup> config_map"
  cl_secrets :: "obj_key \<rightharpoonup> secret"
  cl_pvcs :: "obj_key \<rightharpoonup> pvc"
  cl_deployments :: "obj_key \<rightharpoonup> deployment"
  cl_services :: "obj_key \<rightharpoonup> service"
  cl_pods :: "obj_key \<rightharpoonup> pod"

text \<open>Objects are stored under their own keys.\<close>

definition keyed :: "(obj_key \<rightharpoonup> 'a object_meta_scheme) \<Rightarrow> bool" where
  "keyed m \<longleftrightarrow> (\<forall>k obj. m k = Some obj \<longrightarrow> obj_key obj = k)"

definition wf_cluster :: "cluster \<Rightarrow> bool" where
  "wf_cluster c \<longleftrightarrow>
     (\<forall>n ns. cl_namespaces c n = Some ns \<longrightarrow> Name ns = n) \<and>
     keyed (cl_envs c) \<and> keyed (cl_config_maps c) \<and> keyed (cl_secrets c) \<and>
     keyed (cl_pvcs c) \<and> keyed (cl_deployments c) \<and> keyed (cl_services c) \<and> keyed (cl_pods c)"

text \<open>\<open>client.MatchingLabels\<close>: every pair of the selector is a label of the object.\<close>

definition selects :: "labels \<Rightarrow> 'a object_meta_scheme \<Rightarrow> bool" where
  "selects sel obj \<longleftrightarrow> list_all (\<lambda>(k, v). map_of (Labels obj) k = Some v) sel"

section \<open>Effects of the operations\<close>

text \<open>
  Admission: before it stores an object the server may fill in defaults (a replica count, a
  storage class, the name label of a namespace). \<open>admit x y\<close> says that \<open>x\<close> may be
  stored as \<open>y\<close>; it is a parameter for the kinds that have defaults. Identity, deletion mark
  and the labels that were sent survive admission.
\<close>

definition admission :: "('a object_meta_scheme \<Rightarrow> 'a object_meta_scheme \<Rightarrow> bool) \<Rightarrow> bool" where
  "admission admit \<longleftrightarrow> (\<forall>x y. admit x y \<longrightarrow>
     Name y = Name x \<and> Namespace y = Namespace x \<and> UID y = UID x \<and>
     DeletionTimestamp y = DeletionTimestamp x \<and> map_of (Labels x) \<subseteq>\<^sub>m map_of (Labels y))"

text \<open>What the server fills in when it stores a new object.\<close>

definition stamped :: "('a object_meta_scheme \<Rightarrow> 'a object_meta_scheme \<Rightarrow> bool) \<Rightarrow>
    'a object_meta_scheme \<Rightarrow> 'a object_meta_scheme \<Rightarrow> bool" where
  "stamped admit sent obj \<longleftrightarrow> (\<exists>y u v g t. admit sent y \<and> obj = y\<lparr>UID := u, ResourceVersion := v,
     Generation := g, CreationTimestamp := Some t, DeletionTimestamp := None\<rparr>)"

definition create_effect ::
  "('a object_meta_scheme \<Rightarrow> 'a object_meta_scheme \<Rightarrow> bool) \<Rightarrow>
   (cluster \<Rightarrow> 'k \<rightharpoonup> 'a object_meta_scheme) \<Rightarrow>
   ((('k \<rightharpoonup> 'a object_meta_scheme) \<Rightarrow> ('k \<rightharpoonup> 'a object_meta_scheme)) \<Rightarrow> cluster \<Rightarrow> cluster) \<Rightarrow>
   'k \<Rightarrow> 'a object_meta_scheme \<Rightarrow> cluster \<Rightarrow> 'a object_meta_scheme \<Rightarrow> cluster \<Rightarrow> bool" where
  "create_effect admit sel upd k sent c obj c' \<longleftrightarrow>
     sel c k = None \<and> stamped admit sent obj \<and> c' = upd (\<lambda>m. m(k \<mapsto> obj)) c"

text \<open>A deleted object is gone, or it is marked and kept until its finalizers have run.\<close>

definition delete_effect ::
  "(cluster \<Rightarrow> 'k \<rightharpoonup> 'a object_meta_scheme) \<Rightarrow>
   ((('k \<rightharpoonup> 'a object_meta_scheme) \<Rightarrow> ('k \<rightharpoonup> 'a object_meta_scheme)) \<Rightarrow> cluster \<Rightarrow> cluster) \<Rightarrow>
   'k \<Rightarrow> cluster \<Rightarrow> unit \<Rightarrow> cluster \<Rightarrow> bool" where
  "delete_effect sel upd k c u c' \<longleftrightarrow>
     (\<exists>obj. sel c k = Some obj \<and>
       (c' = upd (\<lambda>m. m(k := None)) c \<or>
        (\<exists>t v. c' = upd (\<lambda>m. m(k \<mapsto> obj\<lparr>DeletionTimestamp := Some t, ResourceVersion := v\<rparr>)) c)))"

text \<open>
  \<open>CreateOrUpdate\<close>: on an absent object the closure runs on the object passed in and the result
  is created; on a present one it runs on the stored object, and nothing is sent when it changes
  nothing. An update that after admission is the stored object again is not written either.
\<close>

definition create_or_update_effect ::
  "('a object_meta_scheme \<Rightarrow> 'a object_meta_scheme \<Rightarrow> bool) \<Rightarrow>
   (cluster \<Rightarrow> 'k \<rightharpoonup> 'a object_meta_scheme) \<Rightarrow>
   ((('k \<rightharpoonup> 'a object_meta_scheme) \<Rightarrow> ('k \<rightharpoonup> 'a object_meta_scheme)) \<Rightarrow> cluster \<Rightarrow> cluster) \<Rightarrow>
   'k \<Rightarrow> 'a object_meta_scheme \<Rightarrow> ('a object_meta_scheme \<Rightarrow> 'a object_meta_scheme) \<Rightarrow>
   cluster \<Rightarrow> 'a object_meta_scheme \<Rightarrow> cluster \<Rightarrow> bool" where
  "create_or_update_effect admit sel upd k init f c obj c' \<longleftrightarrow>
     (case sel c k of
        None \<Rightarrow> stamped admit (f init) obj \<and> c' = upd (\<lambda>m. m(k \<mapsto> obj)) c
      | Some old \<Rightarrow>
          if f old = old then obj = old \<and> c' = c
          else (\<exists>y. admit (f old) y \<and>
                 (if y = old then obj = old \<and> c' = c
                  else (\<exists>v g. obj = y\<lparr>ResourceVersion := v, Generation := g\<rparr>) \<and>
                       c' = upd (\<lambda>m. m(k \<mapsto> obj)) c)))"

text \<open>A JSON merge patch of the labels: keys that differ between base and modified are written.\<close>

definition merged_labels :: "labels \<Rightarrow> labels \<Rightarrow> labels \<Rightarrow> labels \<Rightarrow> bool" where
  "merged_labels base modified cur l \<longleftrightarrow> wf_map l \<and>
     (\<forall>k. map_of l k = (if map_of modified k = map_of base k then map_of cur k else map_of modified k))"

definition patch_effect :: "namespace \<Rightarrow> namespace \<Rightarrow> cluster \<Rightarrow> namespace \<Rightarrow> cluster \<Rightarrow> bool" where
  "patch_effect base modified c obj c' \<longleftrightarrow>
     (\<exists>cur. cl_namespaces c (Name base) = Some cur \<and>
        (if map_of (Labels modified) = map_of (Labels base) then obj = cur \<and> c' = c
         else (\<exists>l v. merged_labels (Labels base) (Labels modified) (Labels cur) l \<and>
                 obj = cur\<lparr>Labels := l, ResourceVersion := v\<rparr>) \<and>
              c' = c\<lparr>cl_namespaces := (cl_namespaces c)(Name base \<mapsto> obj)\<rparr>))"

text \<open>
  Update of the main resource: optimistic concurrency on the resource version, status and
  server-owned metadata kept, and an object under deletion disappears with its last finalizer.
\<close>

definition update_env_effect :: "dev_environment \<Rightarrow> cluster \<Rightarrow> dev_environment \<Rightarrow> cluster \<Rightarrow> bool" where
  "update_env_effect e c obj c' \<longleftrightarrow>
     (\<exists>cur v g. cl_envs c (obj_key e) = Some cur \<and> ResourceVersion cur = ResourceVersion e \<and>
        obj = e\<lparr>UID := UID cur, ResourceVersion := v, Generation := g,
               CreationTimestamp := CreationTimestamp cur,
               DeletionTimestamp := DeletionTimestamp cur, Status := Status cur\<rparr> \<and>
        c' = c\<lparr>cl_envs := (cl_envs c)(obj_key e :=
                 (if DeletionTimestamp cur \<noteq> None \<and> Finalizers e = [] then None else Some obj))\<rparr>)"

definition update_status_effect :: "dev_environment \<Rightarrow> cluster \<Rightarrow> dev_environment \<Rightarrow> cluster \<Rightarrow> bool" where
  "update_status_effect e c obj c' \<longleftrightarrow>
     (\<exists>cur v. cl_envs c (obj_key e) = Some cur \<and> ResourceVersion cur = ResourceVersion e \<and>
        obj = cur\<lparr>Status := Status e, ResourceVersion := v\<rparr> \<and>
        c' = c\<lparr>cl_envs := (cl_envs c)(obj_key e \<mapsto> obj)\<rparr>)"

section \<open>What the effects amount to\<close>

text \<open>A component of the cluster with its record update.\<close>

definition component :: "(cluster \<Rightarrow> 'm) \<Rightarrow> (('m \<Rightarrow> 'm) \<Rightarrow> cluster \<Rightarrow> cluster) \<Rightarrow> bool" where
  "component sel upd \<longleftrightarrow> (\<forall>f c. sel (upd f c) = f (sel c)) \<and>
     (\<forall>f g c. upd f (upd g c) = upd (\<lambda>m. f (g m)) c) \<and>
     (\<forall>f g c. f (sel c) = g (sel c) \<longrightarrow> upd f c = upd g c) \<and> (\<forall>c. upd (\<lambda>m. m) c = c)"

lemma components [simp]:
  "component cl_envs cl_envs_update" "component cl_namespaces cl_namespaces_update"
  "component cl_config_maps cl_config_maps_update" "component cl_secrets cl_secrets_update"
  "component cl_pvcs cl_pvcs_update" "component cl_deployments cl_deployments_update"
  "component cl_services cl_services_update" "component cl_pods cl_pods_update"
  by (auto simp: component_def o_def)

lemma component_noop: "component sel upd \<Longrightarrow> f (sel c) = sel c \<Longrightarrow> upd f c = c"
  unfolding component_def by metis

lemma component_updates [simp]:
  "cl_envs_update (\<lambda>m. m(k0 := y0)) c = c\<lparr>cl_envs := (cl_envs c)(k0 := y0)\<rparr>"
  "cl_namespaces_update (\<lambda>m. m(k1 := y1)) c = c\<lparr>cl_namespaces := (cl_namespaces c)(k1 := y1)\<rparr>"
  "cl_config_maps_update (\<lambda>m. m(k2 := y2)) c = c\<lparr>cl_config_maps := (cl_config_maps c)(k2 := y2)\<rparr>"
  "cl_secrets_update (\<lambda>m. m(k3 := y3)) c = c\<lparr>cl_secrets := (cl_secrets c)(k3 := y3)\<rparr>"
  "cl_pvcs_update (\<lambda>m. m(k4 := y4)) c = c\<lparr>cl_pvcs := (cl_pvcs c)(k4 := y4)\<rparr>"
  "cl_deployments_update (\<lambda>m. m(k5 := y5)) c = c\<lparr>cl_deployments := (cl_deployments c)(k5 := y5)\<rparr>"
  "cl_services_update (\<lambda>m. m(k6 := y6)) c = c\<lparr>cl_services := (cl_services c)(k6 := y6)\<rparr>"
  "cl_pods_update (\<lambda>m. m(k7 := y7)) c = c\<lparr>cl_pods := (cl_pods c)(k7 := y7)\<rparr>"
  by simp_all

text \<open>Deleted: gone, or marked for deletion and waiting for its finalizers.\<close>

definition gone :: "'a object_meta_scheme option \<Rightarrow> bool" where
  "gone x \<longleftrightarrow> (case x of None \<Rightarrow> True | Some obj \<Rightarrow> DeletionTimestamp obj \<noteq> None)"

text \<open>Equal up to the metadata that only the server writes.\<close>

definition same_content :: "'a object_meta_scheme \<Rightarrow> 'a object_meta_scheme \<Rightarrow> bool" where
  "same_content x y \<longleftrightarrow> (\<exists>u v g t d. y = x\<lparr>UID := u, ResourceVersion := v, Generation := g,
     CreationTimestamp := t, DeletionTimestamp := d\<rparr>)"

text \<open>
  What \<open>CreateOrUpdate\<close> with closure \<open>f\<close> leaves in the store: an object \<open>f\<close> does not
  change, or what the server makes of a result of \<open>f\<close>.
\<close>

definition outcome :: "('a object_meta_scheme \<Rightarrow> 'a object_meta_scheme \<Rightarrow> bool) \<Rightarrow>
    ('a object_meta_scheme \<Rightarrow> 'a object_meta_scheme) \<Rightarrow> 'a object_meta_scheme \<Rightarrow> bool" where
  "outcome admit f obj \<longleftrightarrow> f obj = obj \<or> (\<exists>x z. admit (f x) z \<and> same_content z obj)"

lemma same_content_refl [simp]: "same_content x x"
proof -
  have "x = x\<lparr>UID := UID x, ResourceVersion := ResourceVersion x, Generation := Generation x,
     CreationTimestamp := CreationTimestamp x, DeletionTimestamp := DeletionTimestamp x\<rparr>"
    by simp
  then show ?thesis unfolding same_content_def by blast
qed

lemma same_content_meta:
  "same_content x y \<Longrightarrow> Name y = Name x \<and> Namespace y = Namespace x \<and> Labels y = Labels x \<and>
     Finalizers y = Finalizers x \<and> object_meta.more y = object_meta.more x"
  by (auto simp: same_content_def)

lemma same_content_update_meta:
  "same_content x (x\<lparr>ResourceVersion := v, Generation := g\<rparr>)"
  "same_content x (x\<lparr>UID := u, ResourceVersion := v, Generation := g, CreationTimestamp := t,
     DeletionTimestamp := d\<rparr>)"
  unfolding same_content_def
  by (rule exI [of _ "UID x"], rule exI [of _ v], rule exI [of _ g],
      rule exI [of _ "CreationTimestamp x"], rule exI [of _ "DeletionTimestamp x"], simp) blast

lemma create_effectD:
  "create_effect admit sel upd k sent c obj c' \<Longrightarrow>
   sel c k = None \<and> c' = upd (\<lambda>m. m(k := Some obj)) c \<and> DeletionTimestamp obj = None \<and>
   (\<exists>z. admit sent z \<and> same_content z obj)"
  unfolding create_effect_def stamped_def using same_content_update_meta(2) by fastforce

lemma delete_effectD:
  "delete_effect sel upd k c x c' \<Longrightarrow>
   sel c k \<noteq> None \<and> (\<exists>y. c' = upd (\<lambda>m. m(k := y)) c \<and> gone y \<and>
     (\<forall>obj. y = Some obj \<longrightarrow> map_option Labels (sel c k) = Some (Labels obj)))"
  unfolding delete_effect_def gone_def by fastforce

lemma create_or_update_effectD:
  assumes "create_or_update_effect admit sel upd k init f c obj c'" and "component sel upd"
  shows "c' = upd (\<lambda>m. m(k := Some obj)) c \<and> outcome admit f obj"
proof (cases "sel c k")
  case None
  with assms(1) obtain z where "admit (f init) z" "same_content z obj"
    using same_content_update_meta(2)
    by (fastforce simp: create_or_update_effect_def stamped_def)
  then show ?thesis using assms(1) None
    by (auto simp: create_or_update_effect_def outcome_def)
next
  case (Some old)
  have idle: "upd (\<lambda>m. m(k := Some old)) c = c"
    using Some by (intro component_noop [OF assms(2)] fun_upd_idem)
  from assms(1) Some consider "f old = old" "obj = old" "c' = c"
    | "admit (f old) old" "obj = old" "c' = c"
    | y v g where "admit (f old) y" "obj = y\<lparr>ResourceVersion := v, Generation := g\<rparr>" "c' = upd (\<lambda>m. m(k \<mapsto> obj)) c"
    by (auto simp: create_or_update_effect_def split: if_splits)
  then show ?thesis
  proof cases
    case 3
    then show ?thesis unfolding outcome_def using same_content_update_meta(1) by blast
  next
    case 2
    then have "outcome admit f obj" unfolding outcome_def using same_content_refl by blast
    with 2 show ?thesis using idle by simp
  qed (simp add: outcome_def idle)
qed

lemma outcome_labels:
  assumes "outcome admit f obj" and "admission admit" and "\<And>x. Labels (f x) = l"
  shows "map_of l \<subseteq>\<^sub>m map_of (Labels obj)"
proof (cases "f obj = obj")
  case True
  then have "Labels obj = l" using assms(3) [of obj] by simp
  then show ?thesis by simp
next
  case False
  then obtain x z where "admit (f x) z" "same_content z obj"
    using assms(1) by (auto simp: outcome_def)
  then show ?thesis
    using assms(2,3) [unfolded admission_def] by (metis same_content_meta)
qed

lemma outcome_eq: "outcome (=) f obj \<Longrightarrow> \<exists>x. same_content (f x) obj"
  unfolding outcome_def by (metis same_content_refl)

lemma admission_eq [simp]: "admission (=)"
  by (simp add: admission_def)

section \<open>Triples over the abstract cluster\<close>

definition hoare ::
  "('w \<Rightarrow> cluster) \<Rightarrow> (cluster \<Rightarrow> bool) \<Rightarrow> ('w, 'a) state \<Rightarrow> ('a \<Rightarrow> cluster \<Rightarrow> bool) \<Rightarrow> bool" where
  "hoare view P m Q \<longleftrightarrow> triple (\<lambda>w. P (view w)) m (\<lambda>r w. Q r (view w))"

definition definite :: "go_error \<Rightarrow> bool" where
  "definite e \<longleftrightarrow> reason_of e \<noteq> OtherReason"

definition reads :: "('w \<Rightarrow> cluster) \<Rightarrow> (cluster \<Rightarrow> 'o option) \<Rightarrow> ('w, 'o) io \<Rightarrow> bool" where
  "reads view look m \<longleftrightarrow> (\<forall>c. hoare view ((=) c) m (\<lambda>r c'. c' = c \<and>
     (case r of Inr obj \<Rightarrow> look c = Some obj | Inl e \<Rightarrow> is_not_found e \<longrightarrow> look c = None)))"

text \<open>\<open>missing\<close> and \<open>present\<close> are what NotFound and AlreadyExists say about the cluster.\<close>

definition write_failed :: "(cluster \<Rightarrow> bool) \<Rightarrow> (cluster \<Rightarrow> bool) \<Rightarrow>
    (cluster \<Rightarrow> 'o \<Rightarrow> cluster \<Rightarrow> bool) \<Rightarrow> go_error \<Rightarrow> cluster \<Rightarrow> cluster \<Rightarrow> bool" where
  "write_failed missing present eff e c c' \<longleftrightarrow>
     (c' = c \<or> (\<exists>obj. eff c obj c')) \<and> (definite e \<longrightarrow> c' = c) \<and>
     (is_not_found e \<longrightarrow> missing c) \<and> (is_already_exists e \<longrightarrow> present c)"

definition writes :: "('w \<Rightarrow> cluster) \<Rightarrow> (cluster \<Rightarrow> bool) \<Rightarrow> (cluster \<Rightarrow> bool) \<Rightarrow>
    (cluster \<Rightarrow> 'o \<Rightarrow> cluster \<Rightarrow> bool) \<Rightarrow> ('w, 'o) io \<Rightarrow> bool" where
  "writes view missing present eff m \<longleftrightarrow> (\<forall>c. hoare view ((=) c) m (\<lambda>r c'.
     case r of Inr obj \<Rightarrow> eff c obj c' | Inl e \<Rightarrow> write_failed missing present eff e c c'))"

definition lists :: "('w \<Rightarrow> cluster) \<Rightarrow> (cluster \<Rightarrow> obj_key \<rightharpoonup> 'a object_meta_scheme) \<Rightarrow>
    string \<Rightarrow> labels \<Rightarrow> ('w, 'a object_meta_scheme list) io \<Rightarrow> bool" where
  "lists view sel ns ls m \<longleftrightarrow> (\<forall>c. hoare view ((=) c) m (\<lambda>r c'. c' = c \<and>
     (case r of
        Inr objs \<Rightarrow> distinct (map Name objs) \<and>
          set objs = {obj. sel c (ns, Name obj) = Some obj \<and> selects ls obj}
      | Inl e \<Rightarrow> True)))"

section \<open>Rules for triples\<close>

lemma hoare_triple: "hoare view P m Q \<longleftrightarrow> triple (\<lambda>w. P (view w)) m (\<lambda>r w. Q r (view w))"
  by (simp add: hoare_def)

lemma hoareD: "hoare view P m Q \<Longrightarrow> P (view w) \<Longrightarrow> run_state m w = (r, w') \<Longrightarrow> Q r (view w')"
  unfolding hoare_def by (drule (2) tripleD)

lemma hoare_return [vcg]: "(\<And>c. P c \<Longrightarrow> Q x c) \<Longrightarrow> hoare view P (State_Monad.return x) Q"
  unfolding hoare_def by (rule triple_return)

lemma hoare_bind:
  "hoare view P m R \<Longrightarrow> (\<And>x. hoare view (R x) (f x) Q) \<Longrightarrow> hoare view P (State_Monad.bind m f) Q"
  unfolding hoare_def by (rule triple_bind)

lemma hoare_weaken:
  "hoare view P' m Q' \<Longrightarrow> (\<And>c. P c \<Longrightarrow> P' c) \<Longrightarrow> (\<And>r c. Q' r c \<Longrightarrow> Q r c) \<Longrightarrow> hoare view P m Q"
  unfolding hoare_def by (rule triple_weaken)

lemma hoare_conj:
  "hoare view P m Q \<Longrightarrow> hoare view P m Q' \<Longrightarrow> hoare view P m (\<lambda>r c. Q r c \<and> Q' r c)"
  unfolding hoare_def by (rule triple_conj)

lemma hoare_if [vcg]:
  "(b \<Longrightarrow> hoare view P m Q) \<Longrightarrow> (\<not> b \<Longrightarrow> hoare view P n Q) \<Longrightarrow> hoare view P (if b then m else n) Q"
  by simp

lemma hoare_case_sum [vcg]:
  "(\<And>e. r = Inl e \<Longrightarrow> hoare view P (f e) Q) \<Longrightarrow> (\<And>x. r = Inr x \<Longrightarrow> hoare view P (g x) Q) \<Longrightarrow>
   hoare view P (case r of Inl e \<Rightarrow> f e | Inr x \<Rightarrow> g x) Q"
  by (cases r) auto

lemma hoare_case_option [vcg]:
  "(r = None \<Longrightarrow> hoare view P f Q) \<Longrightarrow> (\<And>x. r = Some x \<Longrightarrow> hoare view P (g x) Q) \<Longrightarrow>
   hoare view P (case r of None \<Rightarrow> f | Some x \<Rightarrow> g x) Q"
  by (cases r) auto

text \<open>From a law about each single start cluster to a triple from any precondition.\<close>

lemma hoare_from:
  "(\<And>c0. P c0 \<Longrightarrow> hoare view ((=) c0) m (R c0)) \<Longrightarrow> (\<And>c0 r c. P c0 \<Longrightarrow> R c0 r c \<Longrightarrow> Q r c) \<Longrightarrow>
   hoare view P m Q"
  unfolding hoare_def triple_def by fastforce

text \<open>
  The step of every proof about a program: first the operation, by its law, then the rest from
  each outcome the law allows.
\<close>

lemma hoare_step:
  "(\<And>c0. hoare view ((=) c0) m (R c0)) \<Longrightarrow>
   (\<And>x c0 c1. P c0 \<Longrightarrow> R c0 x c1 \<Longrightarrow> hoare view ((=) c1) (f x) Q) \<Longrightarrow>
   hoare view P (State_Monad.bind m f) Q"
  unfolding hoare_def triple_def by (fastforce split: prod.splits)

lemma hoare_run_pair:
  "hoare view P m Q \<Longrightarrow> P (view w) \<Longrightarrow> Q (fst (run_state m w)) (view (snd (run_state m w)))"
  using hoareD [of view P m Q w "fst (run_state m w)" "snd (run_state m w)"] by simp

text \<open>
  The same step from one cluster, with the outcomes spelled out. A read succeeds or fails. A
  write succeeds, or fails without an effect, or fails although it took effect, with an error
  that is none of NotFound, AlreadyExists and Conflict.
\<close>

lemma hoare_step_at:
  "hoare view ((=) c) m R \<Longrightarrow> (\<And>x c'. R x c' \<Longrightarrow> hoare view ((=) c') (f x) Q) \<Longrightarrow>
   hoare view ((=) c) (State_Monad.bind m f) Q"
  unfolding hoare_def triple_def by (fastforce split: prod.splits)

lemma call_step:
  "hoare view ((=) c) m R \<Longrightarrow>
   (\<And>e c'. R (Inl e) c' \<Longrightarrow> hoare view ((=) c') (f (Inl e)) Q) \<Longrightarrow>
   (\<And>x c'. R (Inr x) c' \<Longrightarrow> hoare view ((=) c') (f (Inr x)) Q) \<Longrightarrow>
   hoare view ((=) c) (State_Monad.bind m f) Q"
  by (erule hoare_step_at) (metis sum.exhaust)

lemma read_step:
  assumes "reads view look m"
    and "\<And>obj. look c = Some obj \<Longrightarrow> hoare view ((=) c) (f (Inr obj)) Q"
    and "\<And>e. (is_not_found e \<Longrightarrow> look c = None) \<Longrightarrow> hoare view ((=) c) (f (Inl e)) Q"
  shows "hoare view ((=) c) (State_Monad.bind m f) Q"
proof (rule hoare_step_at)
  show "hoare view ((=) c) m (\<lambda>r c'. c' = c \<and>
     (case r of Inr obj \<Rightarrow> look c = Some obj | Inl e \<Rightarrow> is_not_found e \<longrightarrow> look c = None))"
    using assms(1) by (simp add: reads_def)
next
  fix x c'
  assume "c' = c \<and>
     (case x of Inr obj \<Rightarrow> look c = Some obj | Inl e \<Rightarrow> is_not_found e \<longrightarrow> look c = None)"
  then show "hoare view ((=) c') (f x) Q"
    using assms(2,3) by (cases x) auto
qed

lemma write_step:
  assumes "writes view missing present eff m"
    and "\<And>obj c'. eff c obj c' \<Longrightarrow> hoare view ((=) c') (f (Inr obj)) Q"
    and "\<And>e. (is_not_found e \<Longrightarrow> missing c) \<Longrightarrow> (is_already_exists e \<Longrightarrow> present c) \<Longrightarrow>
      hoare view ((=) c) (f (Inl e)) Q"
    and "\<And>e obj c'. eff c obj c' \<Longrightarrow> \<not> definite e \<Longrightarrow> hoare view ((=) c') (f (Inl e)) Q"
  shows "hoare view ((=) c) (State_Monad.bind m f) Q"
proof (rule hoare_step_at)
  show "hoare view ((=) c) m (\<lambda>r c'. case r of
       Inr obj \<Rightarrow> eff c obj c' | Inl e \<Rightarrow> write_failed missing present eff e c c')"
    using assms(1) by (simp add: writes_def)
next
  fix x c'
  assume x: "case x of Inr obj \<Rightarrow> eff c obj c' | Inl e \<Rightarrow> write_failed missing present eff e c c'"
  show "hoare view ((=) c') (f x) Q"
  proof (cases "\<exists>e. x = Inl e \<and> c' = c")
    case True
    then show ?thesis using assms(3) x by (auto simp: write_failed_def)
  next
    case False
    then show ?thesis using assms(2,4) x by (cases x) (auto simp: write_failed_def)
  qed
qed

lemma indefinite [simp]:
  "\<not> definite e \<Longrightarrow> \<not> is_not_found e" "\<not> definite e \<Longrightarrow> \<not> is_already_exists e"
  "\<not> definite e \<Longrightarrow> \<not> is_conflict e"
  by (simp_all add: definite_def is_not_found_def is_already_exists_def is_conflict_def)

lemma list_step:
  fixes sel :: "cluster \<Rightarrow> obj_key \<rightharpoonup> 'b object_meta_scheme"
  assumes "lists view sel ns ls m"
    and "\<And>objs. distinct (map Name objs) \<Longrightarrow>
      set objs = {obj. sel c (ns, Name obj) = Some obj \<and> selects ls obj} \<Longrightarrow>
      hoare view ((=) c) (f (Inr objs)) Q"
    and "\<And>e. hoare view ((=) c) (f (Inl e)) Q"
  shows "hoare view ((=) c) (State_Monad.bind m f) Q"
proof (rule hoare_step_at)
  show "hoare view ((=) c) m (\<lambda>r c'. c' = c \<and>
     (case r of Inr objs \<Rightarrow> distinct (map Name objs) \<and>
          set objs = {obj. sel c (ns, Name obj) = Some obj \<and> selects ls obj} | Inl e \<Rightarrow> True))"
    using assms(1) by (simp add: lists_def)
next
  fix x :: "go_error + 'b object_meta_scheme list" and c'
  assume "c' = c \<and>
     (case x of Inr objs \<Rightarrow> distinct (map Name objs) \<and>
          set objs = {obj. sel c (ns, Name obj) = Some obj \<and> selects ls obj} | Inl e \<Rightarrow> True)"
  then show "hoare view ((=) c') (f x) Q"
    using assms(2,3) by (cases x) auto
qed

lemma hoare_return_eq: "Q x c \<Longrightarrow> hoare view ((=) c) (State_Monad.return x) Q"
  by (rule hoare_return) simp

section \<open>The laws of the API\<close>

definition keeps_meta :: "('a object_meta_scheme \<Rightarrow> 'a object_meta_scheme) \<Rightarrow> bool" where
  "keeps_meta f \<longleftrightarrow> (\<forall>x. Name (f x) = Name x \<and> Namespace (f x) = Namespace x \<and> UID (f x) = UID x \<and>
     CreationTimestamp (f x) = CreationTimestamp x \<and> DeletionTimestamp (f x) = DeletionTimestamp x)"

text \<open>
  \<open>SetStatusCondition\<close> replaces the first condition of the type, or appends one; the transition
  time moves to now exactly when the status changes.
\<close>

fun set_condition_at :: "nat \<Rightarrow> condition \<Rightarrow> condition list \<Rightarrow> condition list" where
  "set_condition_at now cond [] = [cond\<lparr>LastTransitionTime := now\<rparr>]"
| "set_condition_at now cond (c # cs) =
     (if CondType c = CondType cond
      then cond\<lparr>LastTransitionTime :=
        (if CondStatus c = CondStatus cond then LastTransitionTime c else now)\<rparr> # cs
      else c # set_condition_at now cond cs)"

definition condition_set :: "condition list \<Rightarrow> condition \<Rightarrow> condition list \<Rightarrow> bool" where
  "condition_set cs cond cs' \<longleftrightarrow> (\<exists>now. cs' = set_condition_at now cond cs)"

locale cluster_api =
  fixes r :: "'w reconciler" and view :: "'w \<Rightarrow> cluster"
  assumes wf_view: "wf_cluster (view w)"

context cluster_api begin

lemma hoare_wf:
  "(wf_cluster c \<Longrightarrow> hoare view ((=) c) m Q) \<Longrightarrow> hoare view ((=) c) m Q"
  unfolding hoare_def triple_def using wf_view by simp

end

locale namespace_api = cluster_api r view
  for r :: "'w reconciler" and view :: "'w \<Rightarrow> cluster" +
  fixes admit_ns :: "namespace \<Rightarrow> namespace \<Rightarrow> bool"
  assumes admit_ns_law: "admission admit_ns"
    and get_namespace_law:
      "reads view (\<lambda>c. cl_namespaces c n) (get_namespace (Client r) n)"
    and create_namespace_law:
      "writes view (\<lambda>c. True) (\<lambda>c. cl_namespaces c (Name ns) \<noteq> None)
         (create_effect admit_ns cl_namespaces cl_namespaces_update (Name ns) ns) (create_namespace (Client r) ns)"
    and patch_namespace_law:
      "Name modified = Name base \<Longrightarrow>
       writes view (\<lambda>c. cl_namespaces c (Name base) = None) (\<lambda>c. True)
         (patch_effect base modified) (patch_namespace (Client r) base modified)"
    and delete_namespace_law:
      "writes view (\<lambda>c. cl_namespaces c (Name ns) = None) (\<lambda>c. True)
         (delete_effect cl_namespaces cl_namespaces_update (Name ns)) (delete_namespace (Client r) ns)"

locale config_map_api = cluster_api +
  assumes create_or_update_config_map_law:
      "keeps_meta f_cm \<Longrightarrow>
       writes view (\<lambda>c. True) (\<lambda>c. True)
         (create_or_update_effect (=) cl_config_maps cl_config_maps_update (obj_key cm) cm f_cm)
         (create_or_update_config_map (Client r) cm f_cm)"
    and delete_config_map_law:
      "writes view (\<lambda>c. cl_config_maps c (obj_key cm) = None) (\<lambda>c. True)
         (delete_effect cl_config_maps cl_config_maps_update (obj_key cm)) (delete_config_map (Client r) cm)"

locale secret_api = cluster_api +
  assumes get_secret_law:
      "reads view (\<lambda>c. cl_secrets c k) (get_secret (Client r) k)"
    and read_secret_law:
      "reads view (\<lambda>c. cl_secrets c k) (get_secret (reader r) k)"
    and create_secret_law:
      "writes view (\<lambda>c. True) (\<lambda>c. cl_secrets c (obj_key s) \<noteq> None)
         (create_effect (=) cl_secrets cl_secrets_update (obj_key s) s) (create_secret (Client r) s)"
    and create_or_update_secret_law:
      "keeps_meta f_s \<Longrightarrow>
       writes view (\<lambda>c. True) (\<lambda>c. True)
         (create_or_update_effect (=) cl_secrets cl_secrets_update (obj_key s) s f_s)
         (create_or_update_secret (Client r) s f_s)"
    and delete_secret_law:
      "writes view (\<lambda>c. cl_secrets c (obj_key s) = None) (\<lambda>c. True)
         (\<lambda>c x c'. map_option UID (cl_secrets c (obj_key s)) = Some uid \<and>
            delete_effect cl_secrets cl_secrets_update (obj_key s) c x c')
         (delete_secret (Client r) s uid)"

locale pvc_api = cluster_api r view
  for r :: "'w reconciler" and view :: "'w \<Rightarrow> cluster" +
  fixes admit_pvc :: "pvc \<Rightarrow> pvc \<Rightarrow> bool"
  assumes admit_pvc_law: "admission admit_pvc"
    and get_pvc_law:
      "reads view (\<lambda>c. cl_pvcs c k) (get_pvc (Client r) k)"
    and create_pvc_law:
      "writes view (\<lambda>c. True) (\<lambda>c. cl_pvcs c (obj_key p) \<noteq> None)
         (create_effect admit_pvc cl_pvcs cl_pvcs_update (obj_key p) p) (create_pvc (Client r) p)"

locale workload_api = cluster_api r view
  for r :: "'w reconciler" and view :: "'w \<Rightarrow> cluster" +
  fixes admit_deploy :: "deployment \<Rightarrow> deployment \<Rightarrow> bool"
    and admit_svc :: "service \<Rightarrow> service \<Rightarrow> bool"
  assumes admit_deploy_law: "admission admit_deploy"
    and admit_deploy_status: "admit_deploy d d' \<Longrightarrow> DeployStatus d' = DeployStatus d"
    and admit_svc_law: "admission admit_svc"
    and create_or_update_deployment_law:
      "keeps_meta f_d \<Longrightarrow> (\<And>x. DeployStatus (f_d x) = DeployStatus x) \<Longrightarrow>
       writes view (\<lambda>c. True) (\<lambda>c. True)
         (create_or_update_effect admit_deploy cl_deployments cl_deployments_update (obj_key d) d f_d)
         (create_or_update_deployment (Client r) d f_d)"
    and list_deployments_law:
      "lists view cl_deployments ns ls (list_deployments (Client r) ns ls)"
    and delete_deployment_law:
      "writes view (\<lambda>c. cl_deployments c (obj_key d) = None) (\<lambda>c. True)
         (delete_effect cl_deployments cl_deployments_update (obj_key d)) (delete_deployment (Client r) d)"
    and create_or_update_service_law:
      "keeps_meta f_v \<Longrightarrow>
       writes view (\<lambda>c. True) (\<lambda>c. True)
         (create_or_update_effect admit_svc cl_services cl_services_update (obj_key v) v f_v)
         (create_or_update_service (Client r) v f_v)"
    and list_services_law:
      "lists view cl_services ns ls (list_services (Client r) ns ls)"
    and delete_service_law:
      "writes view (\<lambda>c. cl_services c (obj_key v) = None) (\<lambda>c. True)
         (delete_effect cl_services cl_services_update (obj_key v)) (delete_service (Client r) v)"
    and list_pods_law:
      "lists view cl_pods ns ls (list_pods (reader r) ns ls)"

locale env_api = cluster_api +
  assumes get_env_law:
      "reads view (\<lambda>c. cl_envs c k) (get_env (Client r) k)"
    and update_env_law:
      "writes view (\<lambda>c. cl_envs c (obj_key e) = None) (\<lambda>c. True)
         (update_env_effect e) (update_env (Client r) e)"
    and update_env_status_law:
      "writes view (\<lambda>c. cl_envs c (obj_key e) = None) (\<lambda>c. True)
         (update_status_effect e) (update_env_status (Client r) e)"
    and set_status_condition_law:
      "hoare view ((=) c) (set_status_condition (Helpers r) cs cond)
         (\<lambda>cs' c'. c' = c \<and> condition_set cs cond cs')"
    and contains_finalizer_law:
      "contains_finalizer (Helpers r) e f \<longleftrightarrow> f \<in> set (Finalizers e)"
    and add_finalizer_law:
      "add_finalizer (Helpers r) e f =
         (if f \<in> set (Finalizers e) then e else e\<lparr>Finalizers := Finalizers e @ [f]\<rparr>)"
    and remove_finalizer_law:
      "remove_finalizer (Helpers r) e f = e\<lparr>Finalizers := filter (\<lambda>g. g \<noteq> f) (Finalizers e)\<rparr>"

locale api_server =
  namespace_api r view admit_ns + config_map_api r view + secret_api r view +
  pvc_api r view admit_pvc + workload_api r view admit_deploy admit_svc + env_api r view
  for r :: "'w reconciler" and view :: "'w \<Rightarrow> cluster" and admit_ns admit_pvc admit_deploy admit_svc

lemma api_server_parts:
  assumes "api_server r view admit_ns admit_pvc admit_deploy admit_svc"
  shows "namespace_api r view admit_ns" "config_map_api r view" "secret_api r view"
    "pvc_api r view admit_pvc" "workload_api r view admit_deploy admit_svc" "env_api r view"
  by (rule api_server.axioms [OF assms])+

end
