(* ===== verification/Mem_Cluster.thy ===== *)
theory Mem_Cluster
  imports Kube_Client Defaulting
begin

text \<open>
  An executable API server in memory, as the repository's unit tests use a fake client: it
  shows that the laws of \<open>Kube_Client\<close> can hold together, and the witnesses run the operator
  on it. Objects are kept in lists, a clock supplies versions, timestamps and UIDs, and a script
  of faults decides what happens to each request: it is served, it fails, it is rejected with
  Conflict, or it is served and the reply is lost.
\<close>

datatype fault = Served | Broken | Rejected | ReplyLost

record mem =
  m_envs :: "dev_environment list"
  m_namespaces :: "namespace list"
  m_config_maps :: "config_map list"
  m_secrets :: "secret list"
  m_pvcs :: "pvc list"
  m_deployments :: "deployment list"
  m_services :: "service list"
  m_pods :: "pod list"
  m_clock :: nat
  m_faults :: "fault list"

definition empty_mem :: mem where
  "empty_mem = \<lparr>m_envs = [], m_namespaces = [], m_config_maps = [], m_secrets = [], m_pvcs = [],
     m_deployments = [], m_services = [], m_pods = [], m_clock = 1, m_faults = []\<rparr>"

section \<open>Lists of objects\<close>

fun lookup :: "('a \<Rightarrow> 'k) \<Rightarrow> 'a list \<Rightarrow> 'k \<rightharpoonup> 'a" where
  "lookup key [] k = None"
| "lookup key (x # xs) k = (if key x = k then Some x else lookup key xs k)"

definition remove :: "('a \<Rightarrow> 'k) \<Rightarrow> 'k \<Rightarrow> 'a list \<Rightarrow> 'a list" where
  "remove key k xs = filter (\<lambda>x. key x \<noteq> k) xs"

definition store :: "('a \<Rightarrow> 'k) \<Rightarrow> 'a \<Rightarrow> 'a list \<Rightarrow> 'a list" where
  "store key x xs = x # remove key (key x) xs"

fun visible :: "('a \<Rightarrow> 'k) \<Rightarrow> 'a list \<Rightarrow> 'a list" where
  "visible key [] = []"
| "visible key (x # xs) = x # remove key (key x) (visible key xs)"

lemma lookup_key: "lookup key xs k = Some x \<Longrightarrow> key x = k"
  by (induction xs) (auto split: if_splits)

lemma lookup_obj_key: "lookup obj_key xs (ns, n) = Some x \<Longrightarrow> Namespace x = ns \<and> Name x = n"
  by (drule lookup_key) (simp add: obj_key_def)

lemma lookup_remove [simp]: "lookup key (remove key k xs) = (lookup key xs)(k := None)"
  by (induction xs) (auto simp: remove_def fun_eq_iff)

lemma lookup_store [simp]: "lookup key (store key x xs) = (lookup key xs)(key x := Some x)"
  by (auto simp: store_def fun_eq_iff)

lemma set_visible: "set (visible key xs) = {x. lookup key xs (key x) = Some x}"
  by (induction xs) (auto simp: remove_def)

lemma inj_on_visible: "distinct (map key (visible key xs))"
  by (induction xs) (auto simp: remove_def distinct_map intro: inj_on_subset)

section \<open>Requests\<close>

definition next_fault :: "(mem, fault) state" where
  "next_fault = State (\<lambda>w. case m_faults w of
     [] \<Rightarrow> (Served, w) | f # fs \<Rightarrow> (f, w\<lparr>m_faults := fs\<rparr>))"

definition failure :: go_error where
  "failure = ApiStatus OtherReason ''etcdserver: request timed out''"

definition mem_read :: "(mem \<Rightarrow> go_error + 'a) \<Rightarrow> (mem, 'a) io" where
  "mem_read look = do {
     f \<leftarrow> next_fault;
     if f = Served then State (\<lambda>w. (look w, w)) else State_Monad.return (Inl failure)
   }"

definition mem_write :: "(mem \<Rightarrow> go_error + 'a \<times> mem) \<Rightarrow> (mem, 'a) io" where
  "mem_write act = do {
     f \<leftarrow> next_fault;
     case f of
       Broken \<Rightarrow> State_Monad.return (Inl failure)
     | Rejected \<Rightarrow> State_Monad.return (Inl (ApiStatus Conflict ''the object has been modified''))
     | _ \<Rightarrow> State (\<lambda>w. case act (w\<lparr>m_clock := m_clock w + 1\<rparr>) of
         Inl e \<Rightarrow> (Inl e, w)
       | Inr (x, w') \<Rightarrow> (if f = Served then Inr x else Inl failure, w'))
   }"

definition not_found :: go_error where
  "not_found = ApiStatus NotFound ''not found''"

definition look_one :: "('a \<Rightarrow> 'k) \<Rightarrow> (mem \<Rightarrow> 'a list) \<Rightarrow> 'k \<Rightarrow> mem \<Rightarrow> go_error + 'a" where
  "look_one key sel k w = (case lookup key (sel w) k of None \<Rightarrow> Inl not_found | Some x \<Rightarrow> Inr x)"

definition look_list ::
  "(mem \<Rightarrow> 'a object_meta_scheme list) \<Rightarrow> string \<Rightarrow> labels \<Rightarrow> mem \<Rightarrow> go_error + 'a object_meta_scheme list" where
  "look_list sel ns ls w =
     Inr (filter (\<lambda>x. Namespace x = ns \<and> selects ls x) (visible obj_key (sel w)))"

definition stamp :: "mem \<Rightarrow> 'a object_meta_scheme \<Rightarrow> 'a object_meta_scheme" where
  "stamp w x = x\<lparr>UID := ''uid-'' @ itoa_nat (m_clock w), ResourceVersion := m_clock w, Generation := 1,
     CreationTimestamp := Some (m_clock w), DeletionTimestamp := None\<rparr>"

definition act_create :: "('a object_meta_scheme \<Rightarrow> 'k) \<Rightarrow> (mem \<Rightarrow> 'a object_meta_scheme list) \<Rightarrow>
    (('a object_meta_scheme list \<Rightarrow> 'a object_meta_scheme list) \<Rightarrow> mem \<Rightarrow> mem) \<Rightarrow>
    ('a object_meta_scheme \<Rightarrow> 'a object_meta_scheme) \<Rightarrow> 'a object_meta_scheme \<Rightarrow>
    mem \<Rightarrow> go_error + 'a object_meta_scheme \<times> mem" where
  "act_create key sel upd dflt x w =
     (if lookup key (sel w) (key x) \<noteq> None then Inl (ApiStatus AlreadyExists ''already exists'')
      else let y = stamp w (dflt x) in Inr (y, upd (store key y) w))"

definition act_delete :: "('a object_meta_scheme \<Rightarrow> 'k) \<Rightarrow> (mem \<Rightarrow> 'a object_meta_scheme list) \<Rightarrow>
    (('a object_meta_scheme list \<Rightarrow> 'a object_meta_scheme list) \<Rightarrow> mem \<Rightarrow> mem) \<Rightarrow>
    ('a object_meta_scheme \<Rightarrow> bool) \<Rightarrow> 'k \<Rightarrow> mem \<Rightarrow> go_error + unit \<times> mem" where
  "act_delete key sel upd pre k w =
     (case lookup key (sel w) k of
        None \<Rightarrow> Inl not_found
      | Some x \<Rightarrow>
          if \<not> pre x then Inl (ApiStatus Conflict ''the UID in the precondition does not match'')
          else if Finalizers x = [] then Inr ((), upd (remove key k) w)
          else Inr ((), upd (store key (x\<lparr>DeletionTimestamp := Some (m_clock w),
                 ResourceVersion := m_clock w\<rparr>)) w))"

definition act_create_or_update :: "(mem \<Rightarrow> 'a object_meta_scheme list) \<Rightarrow>
    (('a object_meta_scheme list \<Rightarrow> 'a object_meta_scheme list) \<Rightarrow> mem \<Rightarrow> mem) \<Rightarrow>
    ('a object_meta_scheme \<Rightarrow> 'a object_meta_scheme) \<Rightarrow> 'a object_meta_scheme \<Rightarrow>
    ('a object_meta_scheme \<Rightarrow> 'a object_meta_scheme) \<Rightarrow> mem \<Rightarrow> go_error + 'a object_meta_scheme \<times> mem" where
  "act_create_or_update sel upd dflt x f w =
     (case lookup obj_key (sel w) (obj_key x) of
        None \<Rightarrow> let y = stamp w (dflt (f x)) in Inr (y, upd (store obj_key y) w)
      | Some old \<Rightarrow>
          if f old = old then Inr (old, w)
          else if dflt (f old) = old then Inr (old, w)
          else let y = (dflt (f old))\<lparr>ResourceVersion := m_clock w, Generation := Generation old + 1\<rparr>
               in Inr (y, upd (store obj_key y) w))"

definition same_map :: "labels \<Rightarrow> labels \<Rightarrow> bool" where
  "same_map l l' \<longleftrightarrow> list_all (\<lambda>k. map_of l k = map_of l' k) (map fst l @ map fst l')"

definition merge_key :: "labels \<Rightarrow> labels \<Rightarrow> string \<Rightarrow> labels \<Rightarrow> labels" where
  "merge_key base modified k l =
     (if map_of modified k = map_of base k then l
      else case map_of modified k of Some v \<Rightarrow> AList.update k v l | None \<Rightarrow> AList.delete k l)"

definition merge_labels :: "labels \<Rightarrow> labels \<Rightarrow> labels \<Rightarrow> labels" where
  "merge_labels base modified cur =
     fold (merge_key base modified) (map fst base @ map fst modified) (AList.clearjunk cur)"

definition act_patch :: "namespace \<Rightarrow> namespace \<Rightarrow> mem \<Rightarrow> go_error + namespace \<times> mem" where
  "act_patch base modified w =
     (case lookup Name (m_namespaces w) (Name base) of
        None \<Rightarrow> Inl not_found
      | Some cur \<Rightarrow>
          if same_map (Labels modified) (Labels base) then Inr (cur, w)
          else let y = cur\<lparr>Labels := merge_labels (Labels base) (Labels modified) (Labels cur),
                           ResourceVersion := m_clock w\<rparr>
               in Inr (y, m_namespaces_update (store Name y) w))"

definition act_update_env :: "dev_environment \<Rightarrow> mem \<Rightarrow> go_error + dev_environment \<times> mem" where
  "act_update_env e w =
     (case lookup obj_key (m_envs w) (obj_key e) of
        None \<Rightarrow> Inl not_found
      | Some cur \<Rightarrow>
          if ResourceVersion cur \<noteq> ResourceVersion e
          then Inl (ApiStatus Conflict ''the object has been modified'')
          else let y = e\<lparr>UID := UID cur, ResourceVersion := m_clock w,
                     Generation := (if Spec e = Spec cur then Generation cur else Generation cur + 1),
                     CreationTimestamp := CreationTimestamp cur,
                     DeletionTimestamp := DeletionTimestamp cur, Status := Status cur\<rparr>
               in Inr (y, if DeletionTimestamp cur \<noteq> None \<and> Finalizers e = []
                          then m_envs_update (remove obj_key (obj_key e)) w
                          else m_envs_update (store obj_key y) w))"

definition act_update_status :: "dev_environment \<Rightarrow> mem \<Rightarrow> go_error + dev_environment \<times> mem" where
  "act_update_status e w =
     (case lookup obj_key (m_envs w) (obj_key e) of
        None \<Rightarrow> Inl not_found
      | Some cur \<Rightarrow>
          if ResourceVersion cur \<noteq> ResourceVersion e
          then Inl (ApiStatus Conflict ''the object has been modified'')
          else let y = cur\<lparr>Status := Status e, ResourceVersion := m_clock w\<rparr>
               in Inr (y, m_envs_update (store obj_key y) w))"

definition mem_set_condition :: "condition list \<Rightarrow> condition \<Rightarrow> (mem, condition list) state" where
  "mem_set_condition cs cond = State (\<lambda>w. (set_condition_at (m_clock w) cond cs, w))"

section \<open>Admission\<close>

definition name_label :: string where "name_label = ''kubernetes.io/metadata.name''"

definition default_namespace :: "namespace \<Rightarrow> namespace" where
  "default_namespace n =
     (if map_of (Labels n) name_label = None then n\<lparr>Labels := (name_label, Name n) # Labels n\<rparr> else n)"

definition default_pvc :: "pvc \<Rightarrow> pvc" where
  "default_pvc p = (if PvcStorageClassName p = None then p\<lparr>PvcStorageClassName := Some ''standard''\<rparr> else p)"

definition default_deployment :: "deployment \<Rightarrow> deployment" where
  "default_deployment d = defaulted api_defaults d"

section \<open>The reconciler on this server\<close>

definition mem_reader :: "mem api_reader" where
  "mem_reader = \<lparr>get_secret = (\<lambda>k. mem_read (look_one obj_key m_secrets k)),
     list_pods = (\<lambda>ns ls. mem_read (look_list m_pods ns ls))\<rparr>"

definition mem_client :: "mem client" where
  "mem_client = api_reader.extend mem_reader (client.fields
     (\<lambda>k. mem_read (look_one obj_key m_envs k))
     (\<lambda>e. mem_write (act_update_env e))
     (\<lambda>e. mem_write (act_update_status e))
     (\<lambda>n. mem_read (look_one Name m_namespaces n))
     (\<lambda>n. mem_write (act_create Name m_namespaces m_namespaces_update default_namespace n))
     (\<lambda>base modified. mem_write (act_patch base modified))
     (\<lambda>n. mem_write (act_delete Name m_namespaces m_namespaces_update (\<lambda>x. True) (Name n)))
     (\<lambda>x f. mem_write (act_create_or_update m_config_maps m_config_maps_update id x f))
     (\<lambda>x. mem_write (act_delete obj_key m_config_maps m_config_maps_update (\<lambda>x. True) (obj_key x)))
     (\<lambda>x. mem_write (act_create obj_key m_secrets m_secrets_update id x))
     (\<lambda>x f. mem_write (act_create_or_update m_secrets m_secrets_update id x f))
     (\<lambda>x uid. mem_write (act_delete obj_key m_secrets m_secrets_update (\<lambda>y. UID y = uid) (obj_key x)))
     (\<lambda>k. mem_read (look_one obj_key m_pvcs k))
     (\<lambda>x. mem_write (act_create obj_key m_pvcs m_pvcs_update default_pvc x))
     (\<lambda>x f. mem_write (act_create_or_update m_deployments m_deployments_update default_deployment x f))
     (\<lambda>ns ls. mem_read (look_list m_deployments ns ls))
     (\<lambda>x. mem_write (act_delete obj_key m_deployments m_deployments_update (\<lambda>x. True) (obj_key x)))
     (\<lambda>x f. mem_write (act_create_or_update m_services m_services_update id x f))
     (\<lambda>ns ls. mem_read (look_list m_services ns ls))
     (\<lambda>x. mem_write (act_delete obj_key m_services m_services_update (\<lambda>x. True) (obj_key x))))"

definition mem_helpers :: "mem helpers" where
  "mem_helpers = \<lparr>set_status_condition = mem_set_condition,
     contains_finalizer = (\<lambda>e f. f \<in> set (Finalizers e)),
     add_finalizer = (\<lambda>e f. if f \<in> set (Finalizers e) then e else e\<lparr>Finalizers := Finalizers e @ [f]\<rparr>),
     remove_finalizer = (\<lambda>e f. e\<lparr>Finalizers := filter (\<lambda>g. g \<noteq> f) (Finalizers e)\<rparr>)\<rparr>"

definition mem_reconciler :: "mem reconciler" where
  "mem_reconciler = \<lparr>Client = mem_client, APIReader = Some mem_reader, Helpers = mem_helpers\<rparr>"

definition mem_view :: "mem \<Rightarrow> cluster" where
  "mem_view w = \<lparr>cl_envs = lookup obj_key (m_envs w), cl_namespaces = lookup Name (m_namespaces w),
     cl_config_maps = lookup obj_key (m_config_maps w), cl_secrets = lookup obj_key (m_secrets w),
     cl_pvcs = lookup obj_key (m_pvcs w), cl_deployments = lookup obj_key (m_deployments w),
     cl_services = lookup obj_key (m_services w), cl_pods = lookup obj_key (m_pods w)\<rparr>"

section \<open>The laws hold\<close>

lemma mem_view_simps [simp]:
  "mem_view (w\<lparr>m_clock := n\<rparr>) = mem_view w" "mem_view (w\<lparr>m_faults := fs\<rparr>) = mem_view w"
  by (simp_all add: mem_view_def)

lemma next_fault_view: "run_state next_fault w = (f, w') \<Longrightarrow> mem_view w' = mem_view w"
  by (auto simp: next_fault_def split: list.splits)

lemma wf_mem_view: "wf_cluster (mem_view w)"
  by (auto simp: wf_cluster_def mem_view_def keyed_def dest: lookup_key)

lemma failure_simps [simp]:
  "\<not> definite failure" "is_not_found not_found" "\<not> is_already_exists not_found"
  "\<not> is_not_found (ApiStatus Conflict m)" "\<not> is_already_exists (ApiStatus Conflict m)"
  "\<not> is_not_found (ApiStatus AlreadyExists m)"
  by (simp_all add: failure_def not_found_def definite_def is_not_found_def is_already_exists_def)

lemma reads_mem_read:
  assumes "\<And>w. case look w of Inr x \<Rightarrow> lk (mem_view w) = Some x
      | Inl e \<Rightarrow> is_not_found e \<longrightarrow> lk (mem_view w) = None"
  shows "reads mem_view lk (mem_read look)"
  unfolding reads_def hoare_def
proof (intro allI tripleI)
  fix c w r w'
  assume c: "c = mem_view w" and run: "run_state (mem_read look) w = (r, w')"
  obtain f w1 where f: "run_state next_fault w = (f, w1)" by fastforce
  with run have "w' = w1" "r = (if f = Served then look w1 else Inl failure)"
    by (auto simp: mem_read_def split: if_splits)
  then show "mem_view w' = c \<and> (case r of Inr x \<Rightarrow> lk c = Some x
      | Inl e \<Rightarrow> is_not_found e \<longrightarrow> lk c = None)"
    using assms [of w1] next_fault_view [OF f] c by (auto split: sum.splits)
qed

lemma writes_mem_write:
  assumes "\<And>w. case act w of Inr (x, w') \<Rightarrow> eff (mem_view w) x (mem_view w')
      | Inl e \<Rightarrow> (is_not_found e \<longrightarrow> missing (mem_view w)) \<and> (is_already_exists e \<longrightarrow> present (mem_view w))"
  shows "writes mem_view missing present eff (mem_write act)"
  unfolding writes_def hoare_def
proof (intro allI tripleI)
  fix c w r w'
  assume c: "c = mem_view w" and run: "run_state (mem_write act) w = (r, w')"
  obtain f w1 where f: "run_state next_fault w = (f, w1)" by fastforce
  let ?w = "w1\<lparr>m_clock := m_clock w1 + 1\<rparr>"
  have "r = Inl failure \<and> w' = w1 \<or> r = Inl (ApiStatus Conflict ''the object has been modified'') \<and> w' = w1 \<or>
      (\<exists>e. act ?w = Inl e \<and> r = Inl e \<and> w' = w1) \<or>
      (\<exists>x. act ?w = Inr (x, w') \<and> (r = Inr x \<or> r = Inl failure))"
    using run f by (cases f) (auto simp: mem_write_def split: sum.splits prod.splits if_splits)
  then show "case r of Inr x \<Rightarrow> eff c x (mem_view w') | Inl e \<Rightarrow> write_failed missing present eff e c (mem_view w')"
    using assms [of ?w] next_fault_view [OF f] c
    by (elim disjE exE) (auto simp: write_failed_def)
qed

lemma stamped_stamp: "admit x y \<Longrightarrow> stamped admit x (stamp w y)"
  unfolding stamped_def stamp_def by blast

locale mem_kind =
  fixes key :: "'a object_meta_scheme \<Rightarrow> 'k"
    and msel :: "mem \<Rightarrow> 'a object_meta_scheme list"
    and mupd :: "('a object_meta_scheme list \<Rightarrow> 'a object_meta_scheme list) \<Rightarrow> mem \<Rightarrow> mem"
    and csel :: "cluster \<Rightarrow> 'k \<rightharpoonup> 'a object_meta_scheme"
    and cupd :: "(('k \<rightharpoonup> 'a object_meta_scheme) \<Rightarrow> ('k \<rightharpoonup> 'a object_meta_scheme)) \<Rightarrow> cluster \<Rightarrow> cluster"
  assumes csel_view: "csel (mem_view w) = lookup key (msel w)"
    and view_upd: "lookup key (f (msel w)) = g (lookup key (msel w)) \<Longrightarrow>
      mem_view (mupd f w) = cupd g (mem_view w)"

context mem_kind begin

lemma view_store: "mem_view (mupd (store key x) w) = cupd (\<lambda>m. m(key x := Some x)) (mem_view w)"
  by (rule view_upd) simp

lemma view_remove: "mem_view (mupd (remove key k) w) = cupd (\<lambda>m. m(k := None)) (mem_view w)"
  by (rule view_upd) simp

lemma reads_one: "reads mem_view (\<lambda>c. csel c k) (mem_read (look_one key msel k))"
  by (rule reads_mem_read) (simp add: look_one_def csel_view split: option.split)

lemma writes_create:
  assumes k: "\<And>v. key (stamp v (dflt x)) = key x" and "\<And>x. admit x (dflt x)"
  shows "writes mem_view (\<lambda>c. True) (\<lambda>c. csel c (key x) \<noteq> None)
    (create_effect admit csel cupd (key x) x) (mem_write (act_create key msel mupd dflt x))"
proof (rule writes_mem_write)
  fix w
  show "case act_create key msel mupd dflt x w of Inr (y, w') \<Rightarrow>
      create_effect admit csel cupd (key x) x (mem_view w) y (mem_view w')
    | Inl e \<Rightarrow> (is_not_found e \<longrightarrow> True) \<and> (is_already_exists e \<longrightarrow> csel (mem_view w) (key x) \<noteq> None)"
    using stamped_stamp [where admit = admit and x = x and y = "dflt x" and w = w] assms(2) [of x]
    by (auto simp: act_create_def Let_def create_effect_def csel_view view_store k)
qed

lemma writes_delete:
  assumes "\<And>x t v. key (x\<lparr>DeletionTimestamp := t, ResourceVersion := v\<rparr>) = key x"
  shows "writes mem_view (\<lambda>c. csel c k = None) (\<lambda>c. True)
    (\<lambda>c u c'. (\<exists>x. csel c k = Some x \<and> pre x) \<and> delete_effect csel cupd k c u c')
    (mem_write (act_delete key msel mupd pre k))"
proof (rule writes_mem_write)
  fix w
  show "case act_delete key msel mupd pre k w of
      Inr (y, w') \<Rightarrow> (\<exists>x. csel (mem_view w) k = Some x \<and> pre x) \<and>
        delete_effect csel cupd k (mem_view w) y (mem_view w')
    | Inl e \<Rightarrow> (is_not_found e \<longrightarrow> csel (mem_view w) k = None) \<and> (is_already_exists e \<longrightarrow> True)"
    using assms lookup_key [of key "msel w" k]
    by (auto simp: act_delete_def delete_effect_def csel_view view_store view_remove split: option.splits)
qed

lemma writes_delete_any:
  assumes "\<And>x t v. key (x\<lparr>DeletionTimestamp := t, ResourceVersion := v\<rparr>) = key x"
  shows "writes mem_view (\<lambda>c. csel c k = None) (\<lambda>c. True) (delete_effect csel cupd k)
    (mem_write (act_delete key msel mupd (\<lambda>x. True) k))"
proof -
  have "(\<lambda>c u c'. (\<exists>x. csel c k = Some x \<and> True) \<and> delete_effect csel cupd k c u c') =
      delete_effect csel cupd k"
    by (auto simp: fun_eq_iff delete_effect_def)
  then show ?thesis using writes_delete [OF assms, of k "\<lambda>x. True"] by simp
qed

end

text \<open>The kinds that are created or updated and listed all have namespaced keys.\<close>

locale mem_namespaced = mem_kind obj_key msel mupd csel cupd
  for msel :: "mem \<Rightarrow> 'a object_meta_scheme list" and mupd csel cupd

context mem_namespaced begin

lemma writes_create_or_update:
  assumes f: "keeps_meta f" and d: "\<And>x. obj_key (dflt x) = obj_key x" "\<And>x. admit x (dflt x)"
  shows "writes mem_view (\<lambda>c. True) (\<lambda>c. True)
    (create_or_update_effect admit csel cupd (obj_key x) x f)
    (mem_write (act_create_or_update msel mupd dflt x f))"
proof (rule writes_mem_write)
  fix w
  have k: "obj_key (stamp w (dflt (f x))) = obj_key x"
    "obj_key ((dflt (f y))\<lparr>ResourceVersion := v, Generation := g\<rparr>) = obj_key y" for y v g
    using f d(1) by (simp_all add: stamp_def obj_key_def keeps_meta_def)
  have old_key: "obj_key old = obj_key x" if "lookup obj_key (msel w) (obj_key x) = Some old" for old
    using that by (rule lookup_key)
  show "case act_create_or_update msel mupd dflt x f w of
      Inr (y, w') \<Rightarrow> create_or_update_effect admit csel cupd (obj_key x) x f (mem_view w) y (mem_view w')
    | Inl e \<Rightarrow> (is_not_found e \<longrightarrow> True) \<and> (is_already_exists e \<longrightarrow> True)"
  proof (cases "lookup obj_key (msel w) (obj_key x)")
    case None
    then show ?thesis
      using stamped_stamp [where admit = admit and x = "f x" and y = "dflt (f x)" and w = w] d(2)
      by (simp add: act_create_or_update_def csel_view Let_def view_store k create_or_update_effect_def)
  next
    case (Some old)
    consider "f old = old" | "f old \<noteq> old" "dflt (f old) = old" | "f old \<noteq> old" "dflt (f old) \<noteq> old" by blast
    then show ?thesis
    proof cases
      case 3
      then have "\<exists>v g. (dflt (f old))\<lparr>ResourceVersion := m_clock w, Generation := Generation old + 1\<rparr> =
          (dflt (f old))\<lparr>ResourceVersion := v, Generation := g\<rparr>" by blast
      with 3 show ?thesis
        using Some d(2) [of "f old"] old_key [OF Some] unfolding act_create_or_update_def create_or_update_effect_def
        by (simp add: csel_view Let_def view_store k) (rule exI [of _ "dflt (f old)"], simp)
    qed (use Some d(2) [of "f old"] in \<open>auto simp: act_create_or_update_def create_or_update_effect_def csel_view\<close>)
  qed
qed

lemma lists_all: "lists mem_view csel ns ls (mem_read (look_list msel ns ls))"
proof -
  have "distinct (map Name objs) \<and>
      set objs = {obj. csel (mem_view w) (ns, Name obj) = Some obj \<and> selects ls obj}"
    if "look_list msel ns ls w = Inr objs" for w objs
  proof -
    have objs: "objs = filter (\<lambda>x. Namespace x = ns \<and> selects ls x) (visible obj_key (msel w))"
      using that by (simp add: look_list_def)
    have "x = y" if "x \<in> set objs" "y \<in> set objs" "Name x = Name y" for x y
    proof -
      have "obj_key x = obj_key y" using that by (simp add: objs obj_key_def)
      moreover have "inj_on obj_key (set (visible obj_key (msel w)))"
        using inj_on_visible [of obj_key "msel w"] by (simp add: distinct_map)
      ultimately show ?thesis using that(1,2) unfolding objs by (auto dest: inj_onD)
    qed
    then have "inj_on Name (set objs)" by (simp add: inj_on_def)
    moreover have "distinct objs"
      using inj_on_visible [of obj_key "msel w"] by (simp add: objs distinct_map)
    moreover have "set objs = {obj. csel (mem_view w) (ns, Name obj) = Some obj \<and> selects ls obj}"
      by (auto simp: objs set_visible csel_view obj_key_def dest: lookup_obj_key)
    ultimately show ?thesis by (simp add: distinct_map)
  qed
  then show ?thesis
    unfolding lists_def hoare_def
  proof (intro allI tripleI)
    fix c w r w'
    assume c: "c = mem_view w" and run: "run_state (mem_read (look_list msel ns ls)) w = (r, w')"
    assume spec: "\<And>w objs. look_list msel ns ls w = Inr objs \<Longrightarrow> distinct (map Name objs) \<and>
      set objs = {obj. csel (mem_view w) (ns, Name obj) = Some obj \<and> selects ls obj}"
    obtain f w1 where f: "run_state next_fault w = (f, w1)" by fastforce
    with run have "w' = w1" "r = (if f = Served then look_list msel ns ls w1 else Inl failure)"
      by (auto simp: mem_read_def split: if_splits)
    then show "mem_view w' = c \<and> (case r of
        Inr objs \<Rightarrow> distinct (map Name objs) \<and>
          set objs = {obj. csel c (ns, Name obj) = Some obj \<and> selects ls obj}
      | Inl e \<Rightarrow> True)"
      using spec [of w1] next_fault_view [OF f] c by (simp split: sum.split)
  qed
qed

end

section \<open>The kinds of objects\<close>

interpretation mem_namespaces: mem_kind Name m_namespaces m_namespaces_update cl_namespaces cl_namespaces_update
  by unfold_locales (simp_all add: mem_view_def)

interpretation mem_config_maps: mem_namespaced m_config_maps m_config_maps_update cl_config_maps cl_config_maps_update
  by unfold_locales (simp_all add: mem_view_def)

interpretation mem_secrets: mem_namespaced m_secrets m_secrets_update cl_secrets cl_secrets_update
  by unfold_locales (simp_all add: mem_view_def)

interpretation mem_pvcs: mem_namespaced m_pvcs m_pvcs_update cl_pvcs cl_pvcs_update
  by unfold_locales (simp_all add: mem_view_def)

interpretation mem_deployments: mem_namespaced m_deployments m_deployments_update cl_deployments cl_deployments_update
  by unfold_locales (simp_all add: mem_view_def)

interpretation mem_services: mem_namespaced m_services m_services_update cl_services cl_services_update
  by unfold_locales (simp_all add: mem_view_def)

interpretation mem_pods: mem_namespaced m_pods "m_pods_update" cl_pods cl_pods_update
  by unfold_locales (simp_all add: mem_view_def)

interpretation mem_envs: mem_namespaced m_envs m_envs_update cl_envs cl_envs_update
  by unfold_locales (simp_all add: mem_view_def)

section \<open>Merge patches\<close>

lemma same_map_iff: "same_map l l' \<longleftrightarrow> map_of l = map_of l'"
proof
  assume s: "same_map l l'"
  show "map_of l = map_of l'"
  proof
    fix k
    show "map_of l k = map_of l' k"
    proof (cases "k \<in> set (map fst l @ map fst l')")
      case True
      then show ?thesis using s by (auto simp: same_map_def list_all_iff)
    next
      case False
      then show ?thesis by (simp add: map_of_eq_None_iff [THEN iffD2])
    qed
  qed
qed (simp add: same_map_def list_all_iff)

lemma merge_key_spec:
  "wf_map l \<Longrightarrow> wf_map (merge_key base modified k l) \<and>
   map_of (merge_key base modified k l) =
     (if map_of modified k = map_of base k then map_of l else (map_of l)(k := map_of modified k))"
  by (auto simp: merge_key_def wf_map_def distinct_update distinct_delete update_conv' delete_conv'
      split: option.splits)

lemma fold_merge_key:
  "wf_map l \<Longrightarrow> wf_map (fold (merge_key base modified) ks l) \<and>
   map_of (fold (merge_key base modified) ks l) k =
     (if k \<in> set ks \<and> map_of modified k \<noteq> map_of base k then map_of modified k else map_of l k)"
  using merge_key_spec by (induction ks arbitrary: l) auto

lemma merged_merge_labels: "merged_labels base modified cur (merge_labels base modified cur)"
proof -
  have "wf_map (AList.clearjunk cur)" by (simp add: wf_map_def distinct_clearjunk)
  note f = fold_merge_key [OF this, of base modified "map fst base @ map fst modified"]
  have "map_of (merge_labels base modified cur) k =
      (if map_of modified k = map_of base k then map_of cur k else map_of modified k)" for k
  proof (cases "k \<in> set (map fst base @ map fst modified)")
    case True
    then show ?thesis using f [of k] by (simp add: merge_labels_def map_of_clearjunk)
  next
    case False
    then have "map_of base k = None" "map_of modified k = None"
      by (auto simp: map_of_eq_None_iff)
    then show ?thesis using f [of k] False by (simp add: merge_labels_def map_of_clearjunk)
  qed
  then show ?thesis using f unfolding merged_labels_def merge_labels_def by blast
qed

lemma writes_patch:
  assumes "Name modified = Name base"
  shows "writes mem_view (\<lambda>c. cl_namespaces c (Name base) = None) (\<lambda>c. True)
    (patch_effect base modified) (mem_write (act_patch base modified))"
proof (rule writes_mem_write)
  fix w
  show "case act_patch base modified w of
      Inr (y, w') \<Rightarrow> patch_effect base modified (mem_view w) y (mem_view w')
    | Inl e \<Rightarrow> (is_not_found e \<longrightarrow> cl_namespaces (mem_view w) (Name base) = None) \<and>
        (is_already_exists e \<longrightarrow> True)"
  proof (cases "lookup Name (m_namespaces w) (Name base)")
    case None
    then show ?thesis by (simp add: act_patch_def mem_namespaces.csel_view)
  next
    case (Some cur)
    then have cur: "cl_namespaces (mem_view w) (Name base) = Some cur" "Name cur = Name base"
      using lookup_key [OF Some] by (simp_all add: mem_namespaces.csel_view)
    show ?thesis
    proof (cases "same_map (Labels modified) (Labels base)")
      case True
      then have "patch_effect base modified (mem_view w) cur (mem_view w)"
        using cur(1) unfolding patch_effect_def same_map_iff by simp
      then show ?thesis using Some True by (simp add: act_patch_def)
    next
      case False
      obtain y where y: "y = cur\<lparr>Labels := merge_labels (Labels base) (Labels modified) (Labels cur),
          ResourceVersion := m_clock w\<rparr>" by simp
      have view: "mem_view (m_namespaces_update (store Name y) w) =
          (mem_view w)\<lparr>cl_namespaces := (cl_namespaces (mem_view w))(Name base := Some y)\<rparr>"
        using cur(2) by (simp only: mem_namespaces.view_store component_updates) (simp add: y)
      have "patch_effect base modified (mem_view w) y (mem_view (m_namespaces_update (store Name y) w))"
        unfolding patch_effect_def
        using cur(1) False view merged_merge_labels [of "Labels base" "Labels modified" "Labels cur"] y
        unfolding same_map_iff by (intro exI [of _ cur]) (simp only: if_False simp_thms, blast)
      then show ?thesis using Some False by (simp add: act_patch_def Let_def y)
    qed
  qed
qed

lemma writes_update_env:
  "writes mem_view (\<lambda>c. cl_envs c (obj_key e) = None) (\<lambda>c. True) (update_env_effect e)
     (mem_write (act_update_env e))"
proof (rule writes_mem_write)
  fix w
  have k: "obj_key (e\<lparr>UID := u, ResourceVersion := v, Generation := g, CreationTimestamp := t,
      DeletionTimestamp := d, Status := s\<rparr>) = obj_key e" for u v g t d s
    by (simp add: obj_key_def)
  show "case act_update_env e w of
      Inr (y, w') \<Rightarrow> update_env_effect e (mem_view w) y (mem_view w')
    | Inl e' \<Rightarrow> (is_not_found e' \<longrightarrow> cl_envs (mem_view w) (obj_key e) = None) \<and>
        (is_already_exists e' \<longrightarrow> True)"
  proof (cases "lookup obj_key (m_envs w) (obj_key e)")
    case None
    then show ?thesis by (simp add: act_update_env_def mem_envs.csel_view)
  next
    case (Some cur)
    let ?g = "if Spec e = Spec cur then Generation cur else Generation cur + 1"
    let ?y = "e\<lparr>UID := UID cur, ResourceVersion := m_clock w, Generation := ?g,
      CreationTimestamp := CreationTimestamp cur, DeletionTimestamp := DeletionTimestamp cur,
      Status := Status cur\<rparr>"
    obtain y where y: "y = ?y" by simp
    have ky: "obj_key y = obj_key e" by (simp add: y obj_key_def)
    obtain w' where w': "w' = (if DeletionTimestamp cur \<noteq> None \<and> Finalizers e = []
      then m_envs_update (remove obj_key (obj_key e)) w else m_envs_update (store obj_key y) w)" by simp
    have view: "mem_view w' = (mem_view w)\<lparr>cl_envs := (cl_envs (mem_view w))(obj_key e :=
        (if DeletionTimestamp cur \<noteq> None \<and> Finalizers e = [] then None else Some y))\<rparr>"
      unfolding w' by (simp only: mem_envs.view_store mem_envs.view_remove ky component_updates split: if_split) blast
    have act: "act_update_env e w = (if ResourceVersion cur \<noteq> ResourceVersion e
        then Inl (ApiStatus Conflict ''the object has been modified'') else Inr (y, w'))"
      using Some by (simp only: act_update_env_def option.case Let_def y w')
    show ?thesis
    proof (cases "ResourceVersion cur = ResourceVersion e")
      case True
      have "cl_envs (mem_view w) (obj_key e) = Some cur" using Some by (simp add: mem_envs.csel_view)
      then have "update_env_effect e (mem_view w) y (mem_view w')"
        unfolding update_env_effect_def using True y view by blast
      then show ?thesis using True by (simp add: act)
    next
      case False
      then show ?thesis by (simp add: act)
    qed
  qed
qed

lemma writes_update_status:
  "writes mem_view (\<lambda>c. cl_envs c (obj_key e) = None) (\<lambda>c. True) (update_status_effect e)
     (mem_write (act_update_status e))"
proof (rule writes_mem_write)
  fix w
  have k: "obj_key (x\<lparr>Status := s, ResourceVersion := v\<rparr>) = obj_key x" for x :: dev_environment and v s
    by (simp add: obj_key_def)
  show "case act_update_status e w of
      Inr (y, w') \<Rightarrow> update_status_effect e (mem_view w) y (mem_view w')
    | Inl e' \<Rightarrow> (is_not_found e' \<longrightarrow> cl_envs (mem_view w) (obj_key e) = None) \<and>
        (is_already_exists e' \<longrightarrow> True)"
    using lookup_key [of obj_key "m_envs w" "obj_key e"]
    by (auto simp: act_update_status_def update_status_effect_def mem_envs.csel_view mem_envs.view_store
        k Let_def split: option.splits)
qed

section \<open>Interpretations\<close>

lemma mem_ops [simp]:
  "Client mem_reconciler = mem_client" "reader mem_reconciler = mem_reader"
  "Helpers mem_reconciler = mem_helpers"
  "get_secret mem_reader k = mem_read (look_one obj_key m_secrets k)"
  "list_pods mem_reader ns ls = mem_read (look_list m_pods ns ls)"
  "get_secret mem_client k = mem_read (look_one obj_key m_secrets k)"
  "get_env mem_client k = mem_read (look_one obj_key m_envs k)"
  "update_env mem_client e = mem_write (act_update_env e)"
  "update_env_status mem_client e = mem_write (act_update_status e)"
  "get_namespace mem_client n = mem_read (look_one Name m_namespaces n)"
  "create_namespace mem_client obj =
     mem_write (act_create Name m_namespaces m_namespaces_update default_namespace obj)"
  "patch_namespace mem_client base modified = mem_write (act_patch base modified)"
  "delete_namespace mem_client obj =
     mem_write (act_delete Name m_namespaces m_namespaces_update (\<lambda>x. True) (Name obj))"
  "create_or_update_config_map mem_client cm f1 =
     mem_write (act_create_or_update m_config_maps m_config_maps_update id cm f1)"
  "delete_config_map mem_client cm =
     mem_write (act_delete obj_key m_config_maps m_config_maps_update (\<lambda>x. True) (obj_key cm))"
  "create_secret mem_client s = mem_write (act_create obj_key m_secrets m_secrets_update id s)"
  "create_or_update_secret mem_client s f2 =
     mem_write (act_create_or_update m_secrets m_secrets_update id s f2)"
  "delete_secret mem_client s uid =
     mem_write (act_delete obj_key m_secrets m_secrets_update (\<lambda>y. UID y = uid) (obj_key s))"
  "get_pvc mem_client k = mem_read (look_one obj_key m_pvcs k)"
  "create_pvc mem_client p = mem_write (act_create obj_key m_pvcs m_pvcs_update default_pvc p)"
  "create_or_update_deployment mem_client d f3 =
     mem_write (act_create_or_update m_deployments m_deployments_update default_deployment d f3)"
  "list_deployments mem_client ns ls = mem_read (look_list m_deployments ns ls)"
  "delete_deployment mem_client d =
     mem_write (act_delete obj_key m_deployments m_deployments_update (\<lambda>x. True) (obj_key d))"
  "create_or_update_service mem_client v f4 =
     mem_write (act_create_or_update m_services m_services_update id v f4)"
  "list_services mem_client ns ls = mem_read (look_list m_services ns ls)"
  "delete_service mem_client v =
     mem_write (act_delete obj_key m_services m_services_update (\<lambda>x. True) (obj_key v))"
  by (simp_all add: mem_reconciler_def mem_client_def mem_reader_def reader_def
      api_reader.defs client.defs)

lemma obj_key_updates [simp]:
  "obj_key (x\<lparr>DeletionTimestamp := t, ResourceVersion := v\<rparr>) = obj_key x"
  "obj_key (stamp w x) = obj_key x"
  "obj_key (default_pvc p) = obj_key p" "obj_key (default_deployment d) = obj_key d"
  "Name (stamp w x) = Name x" "Name (default_namespace n) = Name n"
  by (simp_all add: obj_key_def stamp_def default_pvc_def default_deployment_def defaulted_def default_namespace_def)

lemma default_deployment_status: "DeployStatus (default_deployment d) = DeployStatus d"
  by (simp add: default_deployment_def defaulted_def)

definition admit_namespace :: "namespace \<Rightarrow> namespace \<Rightarrow> bool" where
  "admit_namespace x y \<longleftrightarrow> y = default_namespace x"

definition admit_claim :: "pvc \<Rightarrow> pvc \<Rightarrow> bool" where
  "admit_claim x y \<longleftrightarrow> y = default_pvc x"

definition admit_deployment :: "deployment \<Rightarrow> deployment \<Rightarrow> bool" where
  "admit_deployment x y \<longleftrightarrow> y = default_deployment x"

lemma admissions:
  "admission admit_namespace" "admission admit_claim" "admission admit_deployment"
  by (auto simp: admission_def admit_namespace_def admit_claim_def admit_deployment_def
      default_namespace_def default_pvc_def default_deployment_def defaulted_def map_le_def dom_def)

interpretation mem_api: cluster_api mem_reconciler mem_view
  by unfold_locales (rule wf_mem_view)

interpretation mem_api: namespace_api mem_reconciler mem_view admit_namespace
  by unfold_locales
    (auto simp: admissions admit_namespace_def simp del: not_None_eq intro!: mem_namespaces.reads_one mem_namespaces.writes_create
      writes_patch mem_namespaces.writes_delete_any)

interpretation mem_api: config_map_api mem_reconciler mem_view
  by unfold_locales
    (auto intro!: mem_config_maps.writes_create_or_update mem_config_maps.writes_delete_any)

interpretation mem_api: secret_api mem_reconciler mem_view
proof
  fix s :: secret and uid
  have "(\<lambda>c u c'. (\<exists>x. cl_secrets c (obj_key s) = Some x \<and> UID x = uid) \<and>
        delete_effect cl_secrets cl_secrets_update (obj_key s) c u c') =
      (\<lambda>c u c'. map_option UID (cl_secrets c (obj_key s)) = Some uid \<and>
        delete_effect cl_secrets cl_secrets_update (obj_key s) c u c')"
    by (auto simp: fun_eq_iff)
  then show "writes mem_view (\<lambda>c. cl_secrets c (obj_key s) = None) (\<lambda>c. True)
      (\<lambda>c u c'. map_option UID (cl_secrets c (obj_key s)) = Some uid \<and>
        delete_effect cl_secrets cl_secrets_update (obj_key s) c u c')
      (delete_secret (Client mem_reconciler) s uid)"
    using mem_secrets.writes_delete [of "obj_key s" "\<lambda>y. UID y = uid"] by simp
qed (auto simp del: not_None_eq intro!: mem_secrets.reads_one mem_secrets.writes_create mem_secrets.writes_create_or_update)

interpretation mem_api: pvc_api mem_reconciler mem_view admit_claim
  by unfold_locales
    (auto simp: admissions admit_claim_def simp del: not_None_eq intro!: mem_pvcs.reads_one mem_pvcs.writes_create)

interpretation mem_api: workload_api mem_reconciler mem_view admit_deployment "(=)"
  by unfold_locales
    (auto simp: admissions admit_deployment_def default_deployment_status
      intro!: mem_deployments.writes_create_or_update mem_deployments.writes_delete_any
        mem_deployments.lists_all mem_services.writes_create_or_update mem_services.writes_delete_any
        mem_services.lists_all mem_pods.lists_all)

interpretation mem_api: env_api mem_reconciler mem_view
proof
  fix c and cs :: "condition list" and cond
  show "hoare mem_view ((=) c) (set_status_condition (Helpers mem_reconciler) cs cond)
      (\<lambda>cs' c'. c' = c \<and> condition_set cs cond cs')"
    by (auto simp: hoare_def triple_def mem_helpers_def mem_set_condition_def condition_set_def)
qed (auto simp: mem_helpers_def intro!: mem_envs.reads_one writes_update_env writes_update_status)

interpretation mem_api: api_server mem_reconciler mem_view admit_namespace admit_claim admit_deployment "(=)"
  by unfold_locales

lemma mem_api_server:
  "api_server mem_reconciler mem_view admit_namespace admit_claim admit_deployment (=)"
  by (rule mem_api.api_server_axioms)

end
