(* ===== verification/Ensure_Namespace.thy ===== *)
theory Ensure_Namespace
  imports Naming Kube_Client
begin

text \<open>
  \<open>reconcileNamespace\<close> of \<open>internal/controller/devenvironment_controller.go\<close>: the target
  namespace is created with the environment's labels, refused when something else holds the
  name, and relabelled by a merge patch when the environment already owns it.
\<close>

definition reconcileNamespace ::
  "'w reconciler \<Rightarrow> dev_environment \<Rightarrow> string \<Rightarrow> ('w, unit) io" where
  "reconcileNamespace r env name = do {
     got \<leftarrow> get_namespace (Client r) name;
     case got of
       Inl err \<Rightarrow>
         if is_not_found err then do {
           let ns = (new_meta [] name)\<lparr>Labels := labels env []\<rparr>;
           made \<leftarrow> create_namespace (Client r) ns;
           case made of
             Inl err \<Rightarrow>
               if \<not> is_already_exists err
               then State_Monad.return (Inl (Wrapf (''creating namespace '' @ quote name) err))
               else State_Monad.return (Inr ())
           | Inr _ \<Rightarrow> State_Monad.return (Inr ())
         }
         else State_Monad.return (Inl (Wrapf (''getting namespace '' @ quote name) err))
     | Inr existing \<Rightarrow>
         if \<not> owns env existing
         then State_Monad.return (Inl (Errorf (''namespace '' @ quote name @
                '' already exists and is not managed by this DevEnvironment'')))
         else do {
           let modified = existing\<lparr>Labels := maps_copy (Labels existing) (labels env [])\<rparr>;
           patched \<leftarrow> patch_namespace (Client r) existing modified;
           case patched of
             Inl err \<Rightarrow> State_Monad.return
               (Inl (Wrapf (''updating namespace '' @ quote name @ '' labels'') err))
           | Inr _ \<Rightarrow> State_Monad.return (Inr ())
         }
   }"

section \<open>What a pass may do to a namespace\<close>

definition labels_current :: "dev_environment \<Rightarrow> 'a object_meta_scheme \<Rightarrow> bool" where
  "labels_current env obj \<longleftrightarrow> map_of (labels env []) \<subseteq>\<^sub>m map_of (Labels obj)"

definition namespace_step :: "dev_environment \<Rightarrow> namespace option \<Rightarrow> namespace option \<Rightarrow> bool" where
  "namespace_step env x y \<longleftrightarrow>
     y = x \<or>
     (x = None \<and> (\<exists>n. y = Some n \<and> owns env n \<and> DeletionTimestamp n = None)) \<or>
     (\<exists>m n. x = Some m \<and> y = Some n \<and> owns env m \<and> owns env n \<and> UID n = UID m \<and>
        DeletionTimestamp n = DeletionTimestamp m \<and>
        (\<forall>k. map_of (labels env []) k = None \<longrightarrow> map_of (Labels n) k = map_of (Labels m) k))"

lemma namespace_step_refl [simp]: "namespace_step env x x"
  by (simp add: namespace_step_def)

lemma labels_current_owns: "labels_current env obj \<Longrightarrow> owns env obj"
  by (auto simp: labels_current_def map_le_def owns_def idx_def map_of_labels dom_def
      dest!: bspec split: option.splits)

lemma labels_current_stamped:
  "admission admit \<Longrightarrow> stamped admit sent obj \<Longrightarrow> Labels sent = labels env [] \<Longrightarrow>
   labels_current env obj \<and> DeletionTimestamp obj = None"
  by (force simp: stamped_def admission_def labels_current_def)

lemma patch_labels:
  assumes "patch_effect base (base\<lparr>Labels := maps_copy (Labels base) (labels env [])\<rparr>) c obj c'"
    and "cl_namespaces c (Name base) = Some base" and "owns env base"
  shows "\<exists>y. c' = c\<lparr>cl_namespaces := (cl_namespaces c)(Name base := Some y)\<rparr> \<and> labels_current env y \<and>
    namespace_step env (Some base) (Some y)"
proof (cases "map_of (maps_copy (Labels base) (labels env [])) = map_of (Labels base)")
  case True
  then have "map_of (Labels base) ++ map_of (labels env []) = map_of (Labels base)"
    by (simp add: map_of_maps_copy)
  then have "labels_current env base"
    unfolding labels_current_def by (metis map_le_map_add)
  moreover have "c' = c" using assms True by (simp add: patch_effect_def)
  ultimately show ?thesis using assms(2) by (intro exI [of _ base]) (simp add: fun_upd_idem)
next
  case False
  with assms obtain l v where l: "merged_labels (Labels base)
      (maps_copy (Labels base) (labels env [])) (Labels base) l"
    and obj: "obj = base\<lparr>Labels := l, ResourceVersion := v\<rparr>"
    and c': "c' = c\<lparr>cl_namespaces := (cl_namespaces c)(Name base \<mapsto> obj)\<rparr>"
    by (auto simp: patch_effect_def)
  from l have l': "map_of l = map_of (Labels base) ++ map_of (labels env [])"
    by (auto simp: merged_labels_def map_of_maps_copy fun_eq_iff)
  then have cur: "labels_current env obj" by (simp add: labels_current_def obj)
  moreover have "map_of (Labels obj) k = map_of (Labels base) k" if "map_of (labels env []) k = None" for k
    using that by (simp add: obj l' map_add_def)
  ultimately show ?thesis
    using c' obj assms(3) labels_current_owns [OF cur]
    by (intro exI [of _ obj]) (auto simp: namespace_step_def)
qed

text \<open>The outcome of \<open>reconcileNamespace\<close>, on success and on failure.\<close>

definition namespace_pass ::
  "dev_environment \<Rightarrow> string \<Rightarrow> cluster \<Rightarrow> go_error + unit \<Rightarrow> cluster \<Rightarrow> bool" where
  "namespace_pass env n c res c' \<longleftrightarrow>
     (\<exists>y. c' = c\<lparr>cl_namespaces := (cl_namespaces c)(n := y)\<rparr> \<and>
       namespace_step env (cl_namespaces c n) y \<and>
       (res = Inr () \<longrightarrow> (\<exists>obj. y = Some obj \<and> labels_current env obj)))"

lemma namespace_pass_unchanged: "namespace_pass env n c (Inl e) c"
  unfolding namespace_pass_def by (rule exI [of _ "cl_namespaces c n"]) simp

lemma namespace_pass_created:
  assumes "admission admit" "create_effect admit cl_namespaces cl_namespaces_update n
      ((new_meta [] n)\<lparr>Labels := labels env []\<rparr>) c obj c'"
  shows "namespace_pass env n c res c'"
  unfolding namespace_pass_def
proof (intro exI conjI)
  show "c' = c\<lparr>cl_namespaces := (cl_namespaces c)(n := Some obj)\<rparr>"
    using assms by (simp add: create_effect_def)
  have "labels_current env obj" "DeletionTimestamp obj = None" "cl_namespaces c n = None"
    using assms labels_current_stamped [of admit _ obj env] by (auto simp: create_effect_def)
  then show "namespace_step env (cl_namespaces c n) (Some obj)"
    and "res = Inr () \<longrightarrow> (\<exists>obj'. Some obj = Some obj' \<and> labels_current env obj')"
    by (auto simp: namespace_step_def intro: labels_current_owns)
qed

lemma namespace_pass_patched:
  assumes "wf_cluster c" "cl_namespaces c n = Some existing" "owns env existing"
    and "patch_effect existing
      (existing\<lparr>Labels := maps_copy (Labels existing) (labels env [])\<rparr>) c obj c'"
  shows "namespace_pass env n c res c'"
proof -
  have "Name existing = n" using assms(1,2) by (simp add: wf_cluster_def)
  then show ?thesis
    unfolding namespace_pass_def using patch_labels [of existing env c obj c'] assms by auto
qed

context namespace_api begin

lemma reconcileNamespace_spec:
  "hoare view ((=) c) (reconcileNamespace r env n) (namespace_pass env n c)"
proof (rule hoare_wf)
  assume wf: "wf_cluster c"
  have name: "Name ((new_meta [] n)\<lparr>Labels := labels env []\<rparr>) = n"
    by (simp add: new_meta_def)
  note create = create_namespace_law [of "(new_meta [] n)\<lparr>Labels := labels env []\<rparr>", unfolded name]
  note patched = namespace_pass_patched [OF wf] and created = namespace_pass_created [OF admit_ns_law]
  show "hoare view ((=) c) (reconcileNamespace r env n) (namespace_pass env n c)"
    unfolding reconcileNamespace_def Let_def
    by (auto intro!: read_step [OF get_namespace_law] write_step [OF patch_namespace_law]
          write_step [OF create] hoare_if hoare_return_eq)
       (rule namespace_pass_unchanged | erule (2) patched | erule created)+
qed

end

end
