(* ===== verification/Ensure_Config.thy ===== *)
theory Ensure_Config
  imports Naming Kube_Client
begin

text \<open>
  \<open>reconcileConfigMap\<close> of \<open>internal/controller/devenvironment_controller.go\<close>: the
  shared ConfigMap holds \<open>spec.config\<close>, and is deleted while \<open>spec.config\<close> is empty.
\<close>


definition mutateConfigMap :: "dev_environment \<Rightarrow> config_map \<Rightarrow> config_map" where
  "mutateConfigMap env cm = cm\<lparr>Labels := labels env [], CmData := Config (Spec env)\<rparr>"

definition reconcileConfigMap ::
  "'w reconciler \<Rightarrow> dev_environment \<Rightarrow> string \<Rightarrow> ('w, unit) io" where
  "reconcileConfigMap r env ns = do {
     let cm = new_config_map ns (configMapName env);
     if length (Config (Spec env)) = 0 then do {
       deleted \<leftarrow> delete_config_map (Client r) cm;
       case deleted of
         Inl err \<Rightarrow>
           if \<not> is_not_found err
           then State_Monad.return (Inl (Wrapf ''deleting config map'' err))
           else State_Monad.return (Inr ())
       | Inr _ \<Rightarrow> State_Monad.return (Inr ())
     }
     else do {
       res \<leftarrow> create_or_update_config_map (Client r) cm (mutateConfigMap env);
       case res of
         Inl err \<Rightarrow> State_Monad.return (Inl (Wrapf ''reconciling config map'' err))
       | Inr _ \<Rightarrow> State_Monad.return (Inr ())
     }
   }"

section \<open>What a pass does to the ConfigMap\<close>

definition config_synced :: "dev_environment \<Rightarrow> config_map option \<Rightarrow> bool" where
  "config_synced env x \<longleftrightarrow>
     (if Config (Spec env) = [] then gone x
      else (\<exists>cm. x = Some cm \<and> Labels cm = labels env [] \<and> CmData cm = Config (Spec env)))"

definition config_pass ::
  "dev_environment \<Rightarrow> string \<Rightarrow> cluster \<Rightarrow> go_error + unit \<Rightarrow> cluster \<Rightarrow> bool" where
  "config_pass env ns c res c' \<longleftrightarrow>
     (\<exists>y. c' = c\<lparr>cl_config_maps := (cl_config_maps c)((ns, configMapName env) := y)\<rparr> \<and>
       (y = cl_config_maps c (ns, configMapName env) \<or> config_synced env y) \<and>
       (res = Inr () \<longrightarrow> config_synced env y))"

lemma keeps_meta_mutateConfigMap: "keeps_meta (mutateConfigMap env)"
  by (simp add: keeps_meta_def mutateConfigMap_def)

lemma config_pass_unchanged: "config_pass env ns c (Inl e) c"
  unfolding config_pass_def by (rule exI [of _ "cl_config_maps c (ns, configMapName env)"]) simp

lemma config_pass_absent:
  "Config (Spec env) = [] \<Longrightarrow> cl_config_maps c (ns, configMapName env) = None \<Longrightarrow>
   config_pass env ns c res c"
  unfolding config_pass_def by (rule exI [of _ None]) (simp add: config_synced_def gone_def fun_upd_idem)

lemma config_pass_deleted:
  "Config (Spec env) = [] \<Longrightarrow>
   delete_effect cl_config_maps cl_config_maps_update (ns, configMapName env) c x c' \<Longrightarrow>
   config_pass env ns c res c'"
  by (auto simp: config_pass_def config_synced_def dest!: delete_effectD)

lemma config_pass_written:
  assumes "Config (Spec env) \<noteq> []"
    and "create_or_update_effect (=) cl_config_maps cl_config_maps_update (ns, configMapName env)
      cm (mutateConfigMap env) c obj c'"
  shows "config_pass env ns c res c'"
proof -
  have "c' = c\<lparr>cl_config_maps := (cl_config_maps c)((ns, configMapName env) := Some obj)\<rparr>"
    and "outcome (=) (mutateConfigMap env) obj"
    using create_or_update_effectD [OF assms(2)] by simp_all
  moreover from outcome_eq [OF this(2)] have "config_synced env (Some obj)"
    using assms(1) by (auto simp: same_content_def mutateConfigMap_def config_synced_def)
  ultimately show ?thesis unfolding config_pass_def by blast
qed

context config_map_api begin

lemma reconcileConfigMap_spec:
  "hoare view ((=) c) (reconcileConfigMap r env ns) (config_pass env ns c)"
proof -
  have key: "obj_key (new_config_map ns (configMapName env)) = (ns, configMapName env)"
    by (simp add: obj_key_def new_config_map_def new_meta_def object_meta.defs config_map.defs)
  note del = delete_config_map_law [of "new_config_map ns (configMapName env)", unfolded key]
  note upd = create_or_update_config_map_law
    [OF keeps_meta_mutateConfigMap, of "new_config_map ns (configMapName env)", unfolded key]
  show ?thesis
    unfolding reconcileConfigMap_def Let_def length_0_conv
    by (auto intro!: write_step [OF del] write_step [OF upd] hoare_if hoare_return_eq)
       (rule config_pass_unchanged | erule (1) config_pass_absent | erule (1) config_pass_deleted |
        erule (1) config_pass_written)+
qed

end

end
