(* ===== verification/Copy_Secrets.thy ===== *)
theory Copy_Secrets
  imports Secret_Refs Kube_Client
begin

text \<open>
  \<open>reconcileSecrets\<close> and \<open>replaceOnTypeChange\<close> of
  \<open>internal/controller/devenvironment_controller.go\<close>: every referenced Secret is copied from
  the environment's own namespace into the target namespace. A Secret there that the
  environment does not own is refused; an owned copy whose type no longer matches is deleted
  and made again, because the type of a Secret is immutable. The \<open>for\<close> loop over the names
  is the recursion \<open>copySecrets\<close>.
\<close>


definition replaceOnTypeChange ::
  "'w reconciler \<Rightarrow> dev_environment \<Rightarrow> string \<Rightarrow> string \<Rightarrow> string \<Rightarrow> ('w, bool) io" where
  "replaceOnTypeChange r env name ns want = do {
     got \<leftarrow> get_secret (reader r) (ns, name);
     case got of
       Inl err \<Rightarrow>
         if is_not_found err then State_Monad.return (Inr False)
         else State_Monad.return (Inl (Wrapf (''reading copied secret '' @ quote name) err))
     | Inr existing \<Rightarrow>
         if \<not> owns env existing
         then State_Monad.return (Inl (Errorf (''secret '' @ quote name @ '' in namespace '' @ quote ns @
                '' already exists and is not managed by this DevEnvironment; '' @
                ''rename the reference or remove that secret'')))
         else if SecretType existing = want then State_Monad.return (Inr False)
         else do {
           deleted \<leftarrow> delete_secret (Client r) existing (UID existing);
           case deleted of
             Inl err \<Rightarrow>
               if is_not_found err then State_Monad.return (Inr True)
               else if is_conflict err
               then State_Monad.return
                 (Inl (Wrapf (''secret '' @ quote name @ '' changed while being replaced'') err))
               else State_Monad.return
                 (Inl (Wrapf (''replacing secret '' @ quote name @ '' after its type changed to '' @
                        quote want) err))
           | Inr _ \<Rightarrow> State_Monad.return (Inr True)
         }
   }"

definition mutateSecret :: "dev_environment \<Rightarrow> secret \<Rightarrow> secret \<Rightarrow> secret" where
  "mutateSecret env src dst =
     dst\<lparr>Labels := labels env [], SecretType := SecretType src, SecretData := SecretData src\<rparr>"

text \<open>The body of the loop over \<open>referencedSecrets(env)\<close>, for one name.\<close>

definition copySecret ::
  "'w reconciler \<Rightarrow> dev_environment \<Rightarrow> string \<Rightarrow> string list \<Rightarrow> string \<Rightarrow> ('w, unit) io" where
  "copySecret r env ns pull name = do {
     got \<leftarrow> get_secret (Client r) (Namespace env, name);
     case got of
       Inl err \<Rightarrow> State_Monad.return (Inl (Wrapf (''reading source secret '' @ quote name) err))
     | Inr src \<Rightarrow>
         if name \<in> set pull \<and> \<not> isDockerAuthSecret (SecretType src)
         then State_Monad.return (Inl (Errorf (''secret '' @ quote name @
                '' is named in imagePullSecrets but has type '' @ quote (SecretType src) @
                '', want '' @ quote SecretTypeDockerConfigJson @ '' or '' @ quote SecretTypeDockercfg)))
         else do {
           res \<leftarrow> replaceOnTypeChange r env name ns (SecretType src);
           case res of
             Inl err \<Rightarrow> State_Monad.return (Inl err)
           | Inr replaced \<Rightarrow>
               if replaced then do {
                 let fresh = mutateSecret env src (new_secret ns name);
                 made \<leftarrow> create_secret (Client r) fresh;
                 case made of
                   Inl err \<Rightarrow> State_Monad.return (Inl (Wrapf
                     (''recreating secret '' @ quote name @ '' after its type changed'') err))
                 | Inr _ \<Rightarrow> State_Monad.return (Inr ())
               }
               else do {
                 made \<leftarrow> create_or_update_secret (Client r) (new_secret ns name) (mutateSecret env src);
                 case made of
                   Inl err \<Rightarrow> State_Monad.return (Inl (Wrapf (''copying secret '' @ quote name) err))
                 | Inr _ \<Rightarrow> State_Monad.return (Inr ())
               }
         }
   }"

fun copySecrets ::
  "'w reconciler \<Rightarrow> dev_environment \<Rightarrow> string \<Rightarrow> string list \<Rightarrow> string list \<Rightarrow> ('w, unit) io" where
  "copySecrets r env ns pull [] = State_Monad.return (Inr ())"
| "copySecrets r env ns pull (name # names) = do {
     res \<leftarrow> copySecret r env ns pull name;
     case res of
       Inl err \<Rightarrow> State_Monad.return (Inl err)
     | Inr _ \<Rightarrow> copySecrets r env ns pull names
   }"

definition reconcileSecrets ::
  "'w reconciler \<Rightarrow> dev_environment \<Rightarrow> string \<Rightarrow> ('w, unit) io" where
  "reconcileSecrets r env ns =
     (let pull = set_add_all (referencedPullSecrets env) []
      in copySecrets r env ns pull (referencedSecrets env))"

section \<open>What a pass does to the Secrets\<close>

text \<open>A Secret the environment does not own never changes; one it owns stays owned or goes.\<close>

definition owned_or_absent :: "dev_environment \<Rightarrow> 'a object_meta_scheme option \<Rightarrow> bool" where
  "owned_or_absent env x \<longleftrightarrow> (case x of None \<Rightarrow> True | Some obj \<Rightarrow> owns env obj)"

definition owned_step ::
  "dev_environment \<Rightarrow> 'a object_meta_scheme option \<Rightarrow> 'a object_meta_scheme option \<Rightarrow> bool" where
  "owned_step env x y \<longleftrightarrow> y = x \<or> owned_or_absent env x \<and> owned_or_absent env y"

lemma owned_step_refl [simp]: "owned_step env x x"
  by (simp add: owned_step_def)

lemma owned_step_trans [trans]: "owned_step env x y \<Longrightarrow> owned_step env y z \<Longrightarrow> owned_step env x z"
  by (auto simp: owned_step_def)

definition secret_synced :: "dev_environment \<Rightarrow> secret \<Rightarrow> secret option \<Rightarrow> bool" where
  "secret_synced env src x \<longleftrightarrow> (\<exists>d. x = Some d \<and> Labels d = labels env [] \<and>
     SecretType d = SecretType src \<and> SecretData d = SecretData src)"

lemma secret_synced_owned: "secret_synced env src x \<Longrightarrow> owned_or_absent env x"
  by (auto simp: secret_synced_def owned_or_absent_def intro: owns_labels)

definition replace_pass :: "dev_environment \<Rightarrow> obj_key \<Rightarrow> cluster \<Rightarrow> go_error + bool \<Rightarrow> cluster \<Rightarrow> bool" where
  "replace_pass env k c res c' \<longleftrightarrow>
     (\<exists>y. c' = c\<lparr>cl_secrets := (cl_secrets c)(k := y)\<rparr> \<and>
       owned_step env (cl_secrets c k) y \<and>
       (\<forall>b. res = Inr b \<longrightarrow> owned_or_absent env (cl_secrets c k) \<and> owned_or_absent env y))"

definition source_ok :: "dev_environment \<Rightarrow> string list \<Rightarrow> string \<Rightarrow> secret \<Rightarrow> cluster \<Rightarrow> bool" where
  "source_ok env pull name src c \<longleftrightarrow> cl_secrets c (Namespace env, name) = Some src \<and>
     (name \<in> set pull \<longrightarrow> isDockerAuthSecret (SecretType src))"

definition secret_pass :: "dev_environment \<Rightarrow> string list \<Rightarrow> string \<Rightarrow> string \<Rightarrow>
    cluster \<Rightarrow> go_error + unit \<Rightarrow> cluster \<Rightarrow> bool" where
  "secret_pass env pull ns name c res c' \<longleftrightarrow>
     (\<exists>y. c' = c\<lparr>cl_secrets := (cl_secrets c)((ns, name) := y)\<rparr> \<and>
       owned_step env (cl_secrets c (ns, name)) y \<and>
       (res = Inr () \<longrightarrow> (\<exists>src. source_ok env pull name src c \<and> secret_synced env src y)))"

definition secrets_pass :: "dev_environment \<Rightarrow> string list \<Rightarrow> string \<Rightarrow> string list \<Rightarrow>
    cluster \<Rightarrow> go_error + unit \<Rightarrow> cluster \<Rightarrow> bool" where
  "secrets_pass env pull ns names c res c' \<longleftrightarrow>
     (\<exists>f. c' = c\<lparr>cl_secrets := f\<rparr> \<and>
       (\<forall>k. owned_step env (cl_secrets c k) (f k)) \<and>
       (\<forall>k. (\<forall>n \<in> set names. k \<noteq> (ns, n)) \<longrightarrow> f k = cl_secrets c k) \<and>
       (res = Inr () \<longrightarrow> (\<forall>n \<in> set names. \<exists>src. source_ok env pull n src c \<and>
          secret_synced env src (f (ns, n)))))"

lemma keeps_meta_mutateSecret: "keeps_meta (mutateSecret env src)"
  by (simp add: keeps_meta_def mutateSecret_def)

lemma replace_pass_unchanged:
  "(\<forall>b. res = Inr b \<longrightarrow> owned_or_absent env (cl_secrets c k)) \<Longrightarrow> replace_pass env k c res c"
  unfolding replace_pass_def by (rule exI [of _ "cl_secrets c k"]) simp

lemma replace_pass_deleted:
  assumes "delete_effect cl_secrets cl_secrets_update k c x c'"
    and "cl_secrets c k = Some s" and "owns env s"
  shows "replace_pass env k c res c'"
proof -
  obtain y where y: "c' = c\<lparr>cl_secrets := (cl_secrets c)(k := y)\<rparr>"
    and l: "\<forall>obj. y = Some obj \<longrightarrow> map_option Labels (cl_secrets c k) = Some (Labels obj)"
    using delete_effectD [OF assms(1)] by auto
  from l have "owned_or_absent env y"
    using assms(2,3) by (auto simp: owned_or_absent_def owns_def split: option.splits)
  with y assms(2,3) show ?thesis
    by (auto simp: replace_pass_def owned_step_def owned_or_absent_def)
qed

lemma secret_pass_unchanged: "secret_pass env pull ns name c (Inl e) c"
  unfolding secret_pass_def by (rule exI [of _ "cl_secrets c (ns, name)"]) simp

lemma secret_pass_replace_failed:
  "replace_pass env (ns, name) c res c' \<Longrightarrow> secret_pass env pull ns name c (Inl e) c'"
  by (auto simp: replace_pass_def secret_pass_def)

lemma secret_pass_written:
  assumes "replace_pass env (ns, name) c (Inr b) c1" and "source_ok env pull name src c"
    and "c' = c1\<lparr>cl_secrets := (cl_secrets c1)((ns, name) := Some obj)\<rparr>"
    and "same_content (mutateSecret env src x) obj"
  shows "secret_pass env pull ns name c res c'"
proof -
  have "secret_synced env src (Some obj)"
    using same_content_meta [OF assms(4)] assms(4)
    by (auto simp: secret_synced_def mutateSecret_def same_content_def)
  moreover from this have "owned_or_absent env (Some obj)" by (rule secret_synced_owned)
  ultimately show ?thesis
    using assms(1-3) by (auto simp: replace_pass_def secret_pass_def owned_step_def)
qed

context secret_api begin

lemma replaceOnTypeChange_spec:
  "hoare view ((=) c) (replaceOnTypeChange r env name ns want) (replace_pass env (ns, name) c)"
proof (rule hoare_wf)
  assume wf: "wf_cluster c"
  have key: "obj_key s = (ns, name)" if "cl_secrets c (ns, name) = Some s" for s
    using wf that unfolding wf_cluster_def keyed_def by blast
  show ?thesis
    unfolding replaceOnTypeChange_def
    by (auto intro!: read_step [OF read_secret_law] write_step [OF delete_secret_law]
          hoare_if hoare_return_eq simp: key)
       (rule replace_pass_unchanged, simp add: owned_or_absent_def | erule (2) replace_pass_deleted)+
qed

lemma copySecret_spec:
  "hoare view ((=) c) (copySecret r env ns pull name) (secret_pass env pull ns name c)"
proof -
  have key: "obj_key (mutateSecret env src (new_secret ns name)) = (ns, name)"
    "obj_key (new_secret ns name) = (ns, name)" for src
    by (simp_all add: obj_key_def mutateSecret_def new_secret_def new_meta_def object_meta.defs secret.defs)
  note create = create_secret_law [of "mutateSecret env src (new_secret ns name)" for src, unfolded key]
  note upd = create_or_update_secret_law
    [OF keeps_meta_mutateSecret, of "new_secret ns name" env src for src, unfolded key]
  have source: "source_ok env pull name src c"
    if "cl_secrets c (Namespace env, name) = Some src"
      "\<not> (name \<in> set pull \<and> \<not> isDockerAuthSecret (SecretType src))" for src
    using that by (auto simp: source_ok_def)
  have created: "secret_pass env pull ns name c res c'"
    if "create_effect (=) cl_secrets cl_secrets_update (ns, name)
        (mutateSecret env src (new_secret ns name)) c1 obj c'"
      "replace_pass env (ns, name) c (Inr b) c1" "source_ok env pull name src c" for res src b c1 obj c'
    using create_effectD [OF that(1)] by (auto intro: secret_pass_written [OF that(2,3)])
  have updated: "secret_pass env pull ns name c res c'"
    if "create_or_update_effect (=) cl_secrets cl_secrets_update (ns, name)
        (new_secret ns name) (mutateSecret env src) c1 obj c'"
      "replace_pass env (ns, name) c (Inr b) c1" "source_ok env pull name src c" for res src b c1 obj c'
    using create_or_update_effectD [OF that(1)] outcome_eq [of "mutateSecret env src" obj]
    by (auto intro: secret_pass_written [OF that(2,3)])
  show ?thesis
    unfolding copySecret_def Let_def
    by (rule hoare_return_eq read_step [OF get_secret_law] write_step [OF create] write_step [OF upd]
          call_step [OF replaceOnTypeChange_spec] hoare_if secret_pass_unchanged |
        simp only: sum.case | erule (1) created, rule source, assumption+ |
        erule (1) updated, rule source, assumption+ | erule secret_pass_replace_failed)+
qed

lemma copySecrets_spec:
  "distinct names \<Longrightarrow>
   hoare view ((=) c) (copySecrets r env ns pull names) (secrets_pass env pull ns names c)"
proof (induction names arbitrary: c)
  case Nil
  have "secrets_pass env pull ns [] c (Inr ()) c"
    unfolding secrets_pass_def by (rule exI [of _ "cl_secrets c"]) simp
  then show ?case by (simp add: hoare_return)
next
  case (Cons name names)
  have failed: "secrets_pass env pull ns (name # names) c (Inl e) c1"
    if "secret_pass env pull ns name c (Inl e) c1" for e c1
    using that by (auto simp: secret_pass_def secrets_pass_def)
  have step: "secrets_pass env pull ns (name # names) c res c'"
    if one: "secret_pass env pull ns name c (Inr ()) c1"
      and rest: "secrets_pass env pull ns names c1 res c'" for res c1 c'
  proof -
    obtain y src where c1: "c1 = c\<lparr>cl_secrets := (cl_secrets c)((ns, name) := y)\<rparr>"
      and y: "owned_step env (cl_secrets c (ns, name)) y" "source_ok env pull name src c"
        "secret_synced env src y"
      using one unfolding secret_pass_def by blast
    obtain f where f: "c' = c1\<lparr>cl_secrets := f\<rparr>" "\<And>k. owned_step env (cl_secrets c1 k) (f k)"
        "\<And>k. (\<forall>n \<in> set names. k \<noteq> (ns, n)) \<Longrightarrow> f k = cl_secrets c1 k"
        "res = Inr () \<Longrightarrow> \<forall>n \<in> set names. \<exists>src. source_ok env pull n src c1 \<and>
          secret_synced env src (f (ns, n))"
      using rest unfolding secrets_pass_def by blast
    have "f (ns, name) = y" using f(3) [of "(ns, name)"] Cons.prems c1 by auto
    moreover have "owned_step env (cl_secrets c k) (f k)" for k
      using f(2) [of k] y(1) c1 owned_step_trans by (cases "k = (ns, name)") auto
    moreover have "source_ok env pull n s c" if "source_ok env pull n s c1" "n \<in> set names" for n s
    proof -
      have "n \<noteq> name" using that(2) Cons.prems by auto
      then show ?thesis using that(1) c1 by (simp add: source_ok_def)
    qed
    ultimately show ?thesis
      unfolding secrets_pass_def using c1 y f by (intro exI [of _ f]) (auto, blast)
  qed
  show ?case
    by (simp, rule call_step [OF copySecret_spec]; simp only: sum.case)
       (rule hoare_return_eq, erule failed, rule hoare_weaken, rule Cons.IH, use Cons.prems in simp,
        assumption, rule step, simp)
qed

lemma reconcileSecrets_spec:
  "hoare view ((=) c) (reconcileSecrets r env ns)
     (secrets_pass env (set_add_all (referencedPullSecrets env) []) ns (referencedSecrets env) c)"
  unfolding reconcileSecrets_def Let_def by (rule copySecrets_spec [OF distinct_referencedSecrets])

end

lemma owned_step_foreign: "owned_step env (Some obj) y \<Longrightarrow> \<not> owns env obj \<Longrightarrow> y = Some obj"
  by (simp add: owned_step_def owned_or_absent_def)

end
