(* ===== verification/Shared_Volume.thy ===== *)
theory Shared_Volume
  imports Naming Kube_Client
begin

text \<open>
  \<open>reconcilePVC\<close> of \<open>internal/controller/devenvironment_controller.go\<close>: the shared
  claim is created once and never written again.
\<close>


definition ReadWriteOnce :: string where "ReadWriteOnce = ''ReadWriteOnce''"
definition ResourceStorage :: string where "ResourceStorage = ''storage''"

definition sharedClaim :: "dev_environment \<Rightarrow> string \<Rightarrow> storage_spec \<Rightarrow> pvc" where
  "sharedClaim env ns st =
     (let accessModes = AccessModes st;
          accessModes = (if length accessModes = 0 then [ReadWriteOnce] else accessModes)
      in (new_pvc ns (pvcName env))\<lparr>Labels := labels env [],
           PvcAccessModes := accessModes, PvcStorageClassName := StorageClassName st,
           PvcRequests := [(ResourceStorage, Size st)]\<rparr>)"

definition reconcilePVC :: "'w reconciler \<Rightarrow> dev_environment \<Rightarrow> string \<Rightarrow> ('w, unit) io" where
  "reconcilePVC r env ns =
     (case Storage (Spec env) of
        None \<Rightarrow> State_Monad.return (Inr ())
      | Some st \<Rightarrow> do {
          let name = pvcName env;
          got \<leftarrow> get_pvc (Client r) (ns, name);
          case got of
            Inr _ \<Rightarrow> State_Monad.return (Inr ())
          | Inl err \<Rightarrow>
              if \<not> is_not_found err
              then State_Monad.return (Inl (Wrapf (''getting pvc '' @ quote name) err))
              else do {
                made \<leftarrow> create_pvc (Client r) (sharedClaim env ns st);
                case made of
                  Inl err \<Rightarrow>
                    if \<not> is_already_exists err
                    then State_Monad.return (Inl (Wrapf (''creating pvc '' @ quote name) err))
                    else State_Monad.return (Inr ())
                | Inr _ \<Rightarrow> State_Monad.return (Inr ())
              }
        })"

section \<open>What a pass does to the claim\<close>

text \<open>The claim the environment asks for, as the server stores it.\<close>

definition claim_stored ::
  "(pvc \<Rightarrow> pvc \<Rightarrow> bool) \<Rightarrow> dev_environment \<Rightarrow> string \<Rightarrow> pvc \<Rightarrow> bool" where
  "claim_stored admit env ns p \<longleftrightarrow>
     (\<exists>st z. Storage (Spec env) = Some st \<and> admit (sharedClaim env ns st) z \<and> same_content z p)"

definition claim_pass :: "(pvc \<Rightarrow> pvc \<Rightarrow> bool) \<Rightarrow>
    dev_environment \<Rightarrow> string \<Rightarrow> cluster \<Rightarrow> go_error + unit \<Rightarrow> cluster \<Rightarrow> bool" where
  "claim_pass admit env ns c res c' \<longleftrightarrow>
     (\<exists>y. c' = c\<lparr>cl_pvcs := (cl_pvcs c)((ns, pvcName env) := y)\<rparr> \<and>
       (y = cl_pvcs c (ns, pvcName env) \<or>
        cl_pvcs c (ns, pvcName env) = None \<and> (\<exists>p. y = Some p \<and> claim_stored admit env ns p)) \<and>
       (res = Inr () \<longrightarrow> Storage (Spec env) \<noteq> None \<longrightarrow> y \<noteq> None))"

lemma claim_pass_unchanged:
  "res \<noteq> Inr () \<or> Storage (Spec env) = None \<or> cl_pvcs c (ns, pvcName env) \<noteq> None \<Longrightarrow>
   claim_pass admit env ns c res c"
  unfolding claim_pass_def by (rule exI [of _ "cl_pvcs c (ns, pvcName env)"]) auto

lemma claim_pass_created:
  "Storage (Spec env) = Some st \<Longrightarrow>
   create_effect admit cl_pvcs cl_pvcs_update (ns, pvcName env) (sharedClaim env ns st) c obj c' \<Longrightarrow>
   claim_pass admit env ns c res c'"
  by (drule create_effectD) (auto simp: claim_pass_def claim_stored_def)

context pvc_api begin

lemma reconcilePVC_spec:
  "hoare view ((=) c) (reconcilePVC r env ns) (claim_pass admit_pvc env ns c)"
proof -
  have key: "obj_key (sharedClaim env ns st) = (ns, pvcName env)" for st
    by (simp add: obj_key_def sharedClaim_def Let_def new_pvc_def new_meta_def object_meta.defs pvc.defs)
  note create = create_pvc_law [of "sharedClaim env ns st" for st, unfolded key]
  show ?thesis
    unfolding reconcilePVC_def Let_def
    by (auto intro!: read_step [OF get_pvc_law] write_step [OF create]
          hoare_case_option hoare_if hoare_return_eq)
       (rule claim_pass_unchanged; simp | erule (1) claim_pass_created)+
qed

end

end
