(* ===== verification/Workloads.thy ===== *)
theory Workloads
  imports Render Kube_Client
begin

text \<open>
  \<open>reconcileService\<close> and \<open>pruneServices\<close> of
  \<open>internal/controller/devenvironment_controller.go\<close>: one Deployment and one Service per entry
  of \<open>spec.services\<close>, and the removal of those whose entry has gone. The two pruning loops of
  the source have the same body at two types; \<open>pruneItems\<close> is that body.
\<close>

section \<open>Services\<close>

definition desired_replicas :: "service_spec \<Rightarrow> int32" where
  "desired_replicas spec = (case SvcReplicas spec of None \<Rightarrow> 1 | Some n \<Rightarrow> n)"

definition reconcileService ::
  "'w reconciler \<Rightarrow> dev_environment \<Rightarrow> string \<Rightarrow> service_spec \<Rightarrow> ('w, bool) io" where
  "reconcileService r env ns spec = do {
     res \<leftarrow> create_or_update_deployment (Client r) (new_deployment ns (SvcName spec))
             (mutateDeployment env spec);
     case res of
       Inl err \<Rightarrow> State_Monad.return
         (Inl (Wrapf (''reconciling deployment '' @ quote (SvcName spec)) err))
     | Inr deploy \<Rightarrow> do {
         res \<leftarrow> create_or_update_service (Client r) (new_service ns (SvcName spec))
                 (mutateService env spec);
         case res of
           Inl err \<Rightarrow> State_Monad.return
             (Inl (Wrapf (''reconciling service '' @ quote (SvcName spec)) err))
         | Inr _ \<Rightarrow> State_Monad.return
             (Inr (desired_replicas spec <=s ReadyReplicas (DeployStatus deploy)))
       }
   }"

section \<open>Pruning\<close>

definition prune_selector :: "dev_environment \<Rightarrow> labels" where
  "prune_selector env = [(labelEnvironment, Name env), (labelManagedBy, managerName)]"

text \<open>The label guard both pruning loops share: keep wanted and unlabelled objects.\<close>

definition keeps :: "string list \<Rightarrow> 'a object_meta_scheme \<Rightarrow> bool" where
  "keeps wanted obj \<longleftrightarrow>
     idx (Labels obj) labelService \<in> set wanted \<or> idx (Labels obj) labelService = []"

fun pruneItems ::
  "('a object_meta_scheme \<Rightarrow> ('w, unit) io) \<Rightarrow> string \<Rightarrow> string list \<Rightarrow>
   'a object_meta_scheme list \<Rightarrow> ('w, unit) io" where
  "pruneItems del what wanted [] = State_Monad.return (Inr ())"
| "pruneItems del what wanted (obj # objs) =
     (if keeps wanted obj then pruneItems del what wanted objs
      else do {
        deleted \<leftarrow> del obj;
        case deleted of
          Inl err \<Rightarrow>
            if \<not> is_not_found err
            then State_Monad.return (Inl (Wrapf (''pruning '' @ what @ '' '' @ quote (Name obj)) err))
            else pruneItems del what wanted objs
        | Inr _ \<Rightarrow> pruneItems del what wanted objs
      })"

definition pruneServices :: "'w reconciler \<Rightarrow> dev_environment \<Rightarrow> string \<Rightarrow> ('w, unit) io" where
  "pruneServices r env ns = do {
     let wanted = map SvcName (Services (Spec env));
     listed \<leftarrow> list_deployments (Client r) ns (prune_selector env);
     case listed of
       Inl err \<Rightarrow> State_Monad.return (Inl (Wrapf ''listing deployments'' err))
     | Inr deployments \<Rightarrow> do {
         pruned \<leftarrow> pruneItems (delete_deployment (Client r)) ''deployment'' wanted deployments;
         case pruned of
           Inl err \<Rightarrow> State_Monad.return (Inl err)
         | Inr _ \<Rightarrow> do {
             listed \<leftarrow> list_services (Client r) ns (prune_selector env);
             case listed of
               Inl err \<Rightarrow> State_Monad.return (Inl (Wrapf ''listing services'' err))
             | Inr services \<Rightarrow>
                 pruneItems (delete_service (Client r)) ''service'' wanted services
           }
       }
   }"

text \<open>The loop over \<open>env.Spec.Services\<close>: the count so far and, on failure, the error.\<close>

fun reconcileServices ::
  "'w reconciler \<Rightarrow> dev_environment \<Rightarrow> string \<Rightarrow> service_spec list \<Rightarrow> int32 \<Rightarrow>
   ('w, int32 \<times> go_error option) state" where
  "reconcileServices r env ns [] ready = State_Monad.return (ready, None)"
| "reconcileServices r env ns (svc # svcs) ready = do {
     res \<leftarrow> reconcileService r env ns svc;
     case res of
       Inl err \<Rightarrow> State_Monad.return (ready, Some err)
     | Inr isReady \<Rightarrow> reconcileServices r env ns svcs (if isReady then ready + 1 else ready)
   }"

section \<open>What a pass does to the workloads\<close>

definition service_up :: "service_spec \<Rightarrow> deployment option \<Rightarrow> bool" where
  "service_up svc x \<longleftrightarrow>
     (\<exists>d. x = Some d \<and> desired_replicas svc <=s ReadyReplicas (DeployStatus d))"

definition rendered :: "('a object_meta_scheme \<Rightarrow> 'a object_meta_scheme \<Rightarrow> bool) \<Rightarrow>
    ('a object_meta_scheme \<Rightarrow> 'a object_meta_scheme) \<Rightarrow> 'a object_meta_scheme option \<Rightarrow> bool" where
  "rendered admit f x \<longleftrightarrow> (\<exists>obj. x = Some obj \<and> outcome admit f obj)"

definition service_pass :: "(deployment \<Rightarrow> deployment \<Rightarrow> bool) \<Rightarrow> (service \<Rightarrow> service \<Rightarrow> bool) \<Rightarrow>
    dev_environment \<Rightarrow> string \<Rightarrow> service_spec \<Rightarrow> cluster \<Rightarrow> go_error + bool \<Rightarrow> cluster \<Rightarrow> bool" where
  "service_pass admit_d admit_v env ns svc c res c' \<longleftrightarrow>
     (\<exists>d v. c' = c\<lparr>cl_deployments := (cl_deployments c)((ns, SvcName svc) := d),
                  cl_services := (cl_services c)((ns, SvcName svc) := v)\<rparr> \<and>
       (d = cl_deployments c (ns, SvcName svc) \<or> rendered admit_d (mutateDeployment env svc) d) \<and>
       (v = cl_services c (ns, SvcName svc) \<or> rendered admit_v (mutateService env svc) v) \<and>
       (\<forall>up. res = Inr up \<longrightarrow> rendered admit_d (mutateDeployment env svc) d \<and>
          rendered admit_v (mutateService env svc) v \<and> up = service_up svc d))"

lemma keeps_meta_mutate:
  "keeps_meta (mutateDeployment env svc)" "keeps_meta (mutateService env svc)"
  by (simp_all add: keeps_meta_def)

lemma service_pass_unchanged: "service_pass admit_d admit_v env ns svc c (Inl e) c"
  unfolding service_pass_def
  by (rule exI [of _ "cl_deployments c (ns, SvcName svc)"],
      rule exI [of _ "cl_services c (ns, SvcName svc)"]) simp

lemma service_pass_deployment:
  assumes "create_or_update_effect admit_d cl_deployments cl_deployments_update (ns, SvcName svc) init
      (mutateDeployment env svc) c d c'"
  shows "service_pass admit_d admit_v env ns svc c (Inl e) c'"
  using create_or_update_effectD [OF assms] unfolding service_pass_def rendered_def
  by (intro exI [of _ "Some d"] exI [of _ "cl_services c (ns, SvcName svc)"]) simp

lemma service_pass_service:
  assumes "create_or_update_effect admit_d cl_deployments cl_deployments_update (ns, SvcName svc) init
      (mutateDeployment env svc) c d c1"
    and "create_or_update_effect admit_v cl_services cl_services_update (ns, SvcName svc) init'
      (mutateService env svc) c1 v c'"
    and "\<forall>up. res = Inr up \<longrightarrow> up = (desired_replicas svc <=s ReadyReplicas (DeployStatus d))"
  shows "service_pass admit_d admit_v env ns svc c res c'"
  using create_or_update_effectD [OF assms(1)] create_or_update_effectD [OF assms(2)] assms(3)
  unfolding service_pass_def rendered_def service_up_def
  by (intro exI [of _ "Some d"] exI [of _ "Some v"]) simp

context workload_api begin

lemma reconcileService_spec:
  "hoare view ((=) c) (reconcileService r env ns svc)
     (service_pass admit_deploy admit_svc env ns svc c)"
proof -
  have key: "obj_key (new_deployment ns n) = (ns, n)" "obj_key (new_service ns n) = (ns, n)" for n
    by (simp_all add: obj_key_def new_deployment_def new_service_def new_meta_def object_meta.defs
        deployment.defs service.defs)
  note deploy = create_or_update_deployment_law [OF keeps_meta_mutate(1), of env svc "new_deployment ns (SvcName svc)",
    unfolded key]
  note service = create_or_update_service_law [OF keeps_meta_mutate(2), of "new_service ns (SvcName svc)" env svc,
    unfolded key]
  show ?thesis
    unfolding reconcileService_def
    by (rule hoare_return_eq write_step [OF deploy] write_step [OF service] |
        simp only: sum.case | rule mutate_keeps_identity service_pass_unchanged | erule service_pass_deployment |
        erule (1) service_pass_service; simp)+
qed

end

section \<open>The loop over the services\<close>

text \<open>
  \<open>services_pass\<close>: only objects under the keys of the services change, each to something the
  closure of a service with that key rendered. On success, if the names are distinct, every
  service is rendered and the count is the number of services that are up.
\<close>

definition rendered_for :: "(service_spec \<Rightarrow> 'b option \<Rightarrow> bool) \<Rightarrow> string \<Rightarrow> service_spec list \<Rightarrow>
    (obj_key \<rightharpoonup> 'b) \<Rightarrow> (obj_key \<rightharpoonup> 'b) \<Rightarrow> bool" where
  "rendered_for P ns svcs m f \<longleftrightarrow>
     (\<forall>k. f k = m k \<or> (\<exists>svc \<in> set svcs. k = (ns, SvcName svc) \<and> P svc (f k)))"

definition services_pass :: "(deployment \<Rightarrow> deployment \<Rightarrow> bool) \<Rightarrow> (service \<Rightarrow> service \<Rightarrow> bool) \<Rightarrow>
    dev_environment \<Rightarrow> string \<Rightarrow> service_spec list \<Rightarrow> int32 \<Rightarrow> cluster \<Rightarrow>
    int32 \<times> go_error option \<Rightarrow> cluster \<Rightarrow> bool" where
  "services_pass admit_d admit_v env ns svcs ready c res c' \<longleftrightarrow>
     (\<exists>fd fv. c' = c\<lparr>cl_deployments := fd, cl_services := fv\<rparr> \<and>
       rendered_for (\<lambda>svc. rendered admit_d (mutateDeployment env svc)) ns svcs (cl_deployments c) fd \<and>
       rendered_for (\<lambda>svc. rendered admit_v (mutateService env svc)) ns svcs (cl_services c) fv \<and>
       (snd res = None \<longrightarrow> distinct (map SvcName svcs) \<longrightarrow>
          (\<forall>svc \<in> set svcs. rendered admit_d (mutateDeployment env svc) (fd (ns, SvcName svc)) \<and>
             rendered admit_v (mutateService env svc) (fv (ns, SvcName svc))) \<and>
          fst res = ready + of_nat (length (filter (\<lambda>svc. service_up svc (fd (ns, SvcName svc))) svcs))))"

lemma rendered_for_one:
  "y = m (ns, SvcName svc) \<or> P svc y \<Longrightarrow> rendered_for P ns (svc # svcs) m (m((ns, SvcName svc) := y))"
  by (auto simp: rendered_for_def)

lemma rendered_for_cons:
  assumes "y = m (ns, SvcName svc) \<or> P svc y"
    and "rendered_for P ns svcs (m((ns, SvcName svc) := y)) f"
  shows "rendered_for P ns (svc # svcs) m f"
  unfolding rendered_for_def
proof
  fix k
  show "f k = m k \<or> (\<exists>s \<in> set (svc # svcs). k = (ns, SvcName s) \<and> P s (f k))"
    using assms(1) assms(2) [unfolded rendered_for_def, rule_format, of k]
    by (cases "k = (ns, SvcName svc)") auto
qed

lemma rendered_for_other:
  "rendered_for P ns svcs m f \<Longrightarrow> n \<notin> SvcName ` set svcs \<Longrightarrow> f (ns, n) = m (ns, n)"
  unfolding rendered_for_def by blast

lemma services_pass_failed:
  "service_pass admit_d admit_v env ns svc c (Inl e) c' \<Longrightarrow>
   services_pass admit_d admit_v env ns (svc # svcs) ready c (ready, Some e) c'"
  unfolding service_pass_def services_pass_def by (auto intro!: rendered_for_one)

lemma services_pass_cons:
  assumes "service_pass admit_d admit_v env ns svc c (Inr up) c1"
    and "services_pass admit_d admit_v env ns svcs (if up then ready + 1 else ready) c1 res c'"
  shows "services_pass admit_d admit_v env ns (svc # svcs) ready c res c'"
proof -
  let ?D = "\<lambda>svc. rendered admit_d (mutateDeployment env svc)"
  let ?V = "\<lambda>svc. rendered admit_v (mutateService env svc)"
  obtain d v where c1: "c1 = c\<lparr>cl_deployments := (cl_deployments c)((ns, SvcName svc) := d),
        cl_services := (cl_services c)((ns, SvcName svc) := v)\<rparr>"
    and dv: "?D svc d" "?V svc v" "up = service_up svc d"
    using assms(1) unfolding service_pass_def by blast
  obtain fd fv where c': "c' = c1\<lparr>cl_deployments := fd, cl_services := fv\<rparr>"
    and f: "rendered_for ?D ns svcs (cl_deployments c1) fd" "rendered_for ?V ns svcs (cl_services c1) fv"
    and fin: "snd res = None \<longrightarrow> distinct (map SvcName svcs) \<longrightarrow>
          (\<forall>svc \<in> set svcs. ?D svc (fd (ns, SvcName svc)) \<and> ?V svc (fv (ns, SvcName svc))) \<and>
          fst res = (if up then ready + 1 else ready) +
            of_nat (length (filter (\<lambda>svc. service_up svc (fd (ns, SvcName svc))) svcs))"
    using assms(2) unfolding services_pass_def by (elim exE conjE) (rule that)
  have "rendered_for ?D ns (svc # svcs) (cl_deployments c) fd"
    "rendered_for ?V ns (svc # svcs) (cl_services c) fv"
    using dv f c1 by (auto intro!: rendered_for_cons [where y = d] rendered_for_cons [where y = v])
  moreover have "fd (ns, SvcName svc) = d" "fv (ns, SvcName svc) = v"
    if "SvcName svc \<notin> SvcName ` set svcs"
    using rendered_for_other [OF f(1) that] rendered_for_other [OF f(2) that] c1 by simp_all
  ultimately show ?thesis
    unfolding services_pass_def using c1 c' dv fin by (intro exI [of _ fd] exI [of _ fv]) auto
qed

context workload_api begin

lemma reconcileServices_spec:
  "hoare view ((=) c) (reconcileServices r env ns svcs ready)
     (services_pass admit_deploy admit_svc env ns svcs ready c)"
proof (induction svcs arbitrary: ready c)
  case Nil
  have "services_pass admit_deploy admit_svc env ns [] ready c (ready, None) c"
    unfolding services_pass_def
    by (rule exI [of _ "cl_deployments c"], rule exI [of _ "cl_services c"]) (simp add: rendered_for_def)
  then show ?case by (simp add: hoare_return)
next
  case (Cons svc svcs)
  show ?case
    by (simp, rule call_step [OF reconcileService_spec]; simp only: sum.case)
       (rule hoare_return_eq, erule services_pass_failed, rule hoare_weaken, rule Cons.IH,
        assumption, erule (1) services_pass_cons)
qed

end

section \<open>Pruning\<close>

text \<open>
  \<open>stale env obj\<close>: the object carries the labels the pruning query selects and names a
  service that is no longer listed.
\<close>

definition stale :: "dev_environment \<Rightarrow> 'a object_meta_scheme \<Rightarrow> bool" where
  "stale env obj \<longleftrightarrow>
     selects (prune_selector env) obj \<and> \<not> keeps (map SvcName (Services (Spec env))) obj"

definition pruned :: "dev_environment \<Rightarrow> string \<Rightarrow>
    (obj_key \<rightharpoonup> 'a object_meta_scheme) \<Rightarrow> (obj_key \<rightharpoonup> 'a object_meta_scheme) \<Rightarrow> bool" where
  "pruned env ns m f \<longleftrightarrow>
     (\<forall>k. f k = m k \<or> fst k = ns \<and> (\<exists>obj. m k = Some obj \<and> stale env obj) \<and> gone (f k))"

definition none_stale :: "dev_environment \<Rightarrow> string \<Rightarrow> (obj_key \<rightharpoonup> 'a object_meta_scheme) \<Rightarrow> bool" where
  "none_stale env ns f \<longleftrightarrow> (\<forall>n obj. f (ns, n) = Some obj \<longrightarrow> stale env obj \<longrightarrow> gone (f (ns, n)))"

definition items_pass ::
  "(cluster \<Rightarrow> obj_key \<rightharpoonup> 'a object_meta_scheme) \<Rightarrow>
   (((obj_key \<rightharpoonup> 'a object_meta_scheme) \<Rightarrow> (obj_key \<rightharpoonup> 'a object_meta_scheme)) \<Rightarrow> cluster \<Rightarrow> cluster) \<Rightarrow>
   string list \<Rightarrow> 'a object_meta_scheme list \<Rightarrow> cluster \<Rightarrow> go_error + unit \<Rightarrow> cluster \<Rightarrow> bool" where
  "items_pass sel upd wanted objs c res c' \<longleftrightarrow>
     (\<exists>f. c' = upd (\<lambda>m. f) c \<and>
       (\<forall>k. f k = sel c k \<or> (\<exists>obj \<in> set objs. obj_key obj = k \<and> \<not> keeps wanted obj) \<and> gone (f k)) \<and>
       (res = Inr () \<longrightarrow> (\<forall>obj \<in> set objs. \<not> keeps wanted obj \<longrightarrow> gone (f (obj_key obj)))))"

text \<open>The interface of the loop: a kind of object that can be deleted.\<close>

locale prunable =
  fixes view :: "'w \<Rightarrow> cluster"
    and sel :: "cluster \<Rightarrow> obj_key \<rightharpoonup> 'a object_meta_scheme"
    and upd :: "((obj_key \<rightharpoonup> 'a object_meta_scheme) \<Rightarrow> (obj_key \<rightharpoonup> 'a object_meta_scheme)) \<Rightarrow> cluster \<Rightarrow> cluster"
    and del :: "'a object_meta_scheme \<Rightarrow> ('w, unit) io"
  assumes kind: "component sel upd"
    and del_law: "writes view (\<lambda>c. sel c (obj_key obj) = None) (\<lambda>c. True)
      (delete_effect sel upd (obj_key obj)) (del obj)"

context prunable begin

lemma sel_upd [simp]: "sel (upd f c) = f (sel c)"
  using kind unfolding component_def by blast

lemma upd_upd [simp]: "upd f (upd g c) = upd (\<lambda>m. f (g m)) c"
  using kind unfolding component_def by blast

lemma upd_same: "f (sel c) = g (sel c) \<Longrightarrow> upd f c = upd g c"
  using kind unfolding component_def by blast

lemma upd_noop: "upd (\<lambda>m. sel c) c = c"
  by (rule component_noop [OF kind]) simp

lemma items_pass_unchanged: "res \<noteq> Inr () \<or> objs = [] \<Longrightarrow> items_pass sel upd wanted objs c res c"
  unfolding items_pass_def by (rule exI [of _ "sel c"]) (auto simp: upd_noop)

lemma items_pass_skip:
  "items_pass sel upd wanted objs c res c' \<Longrightarrow>
   keeps wanted obj \<or> sel c (obj_key obj) = None \<Longrightarrow>
   items_pass sel upd wanted (obj # objs) c res c'"
  unfolding items_pass_def
proof (elim exE conjE)
  fix f
  assume c': "c' = upd (\<lambda>m. f) c"
    and f: "\<forall>k. f k = sel c k \<or> (\<exists>obj \<in> set objs. obj_key obj = k \<and> \<not> keeps wanted obj) \<and> gone (f k)"
      "res = Inr () \<longrightarrow> (\<forall>obj \<in> set objs. \<not> keeps wanted obj \<longrightarrow> gone (f (obj_key obj)))"
    and obj: "keeps wanted obj \<or> sel c (obj_key obj) = None"
  have "gone (f (obj_key obj))" if "\<not> keeps wanted obj"
    using that obj f(1) [rule_format, of "obj_key obj"] by (auto simp: gone_def)
  with c' f show "\<exists>f. c' = upd (\<lambda>m. f) c \<and>
     (\<forall>k. f k = sel c k \<or> (\<exists>o' \<in> set (obj # objs). obj_key o' = k \<and> \<not> keeps wanted o') \<and> gone (f k)) \<and>
     (res = Inr () \<longrightarrow> (\<forall>o' \<in> set (obj # objs). \<not> keeps wanted o' \<longrightarrow> gone (f (obj_key o'))))"
    by (intro exI [of _ f]) auto
qed

lemma items_pass_delete:
  assumes "delete_effect sel upd (obj_key obj) c x c1" and "\<not> keeps wanted obj"
    and "items_pass sel upd wanted objs c1 res c'"
  shows "items_pass sel upd wanted (obj # objs) c res c'"
proof -
  obtain y where y: "c1 = upd (\<lambda>m. m(obj_key obj := y)) c" "gone y"
    using delete_effectD [OF assms(1)] by blast
  obtain f where c': "c' = upd (\<lambda>m. f) c1"
    and f: "\<forall>k. f k = sel c1 k \<or> (\<exists>obj \<in> set objs. obj_key obj = k \<and> \<not> keeps wanted obj) \<and> gone (f k)"
      "res = Inr () \<longrightarrow> (\<forall>obj \<in> set objs. \<not> keeps wanted obj \<longrightarrow> gone (f (obj_key obj)))"
    using assms(3) unfolding items_pass_def by blast
  have "c' = upd (\<lambda>m. f) c" using c' y(1) by simp
  moreover have "f k = sel c k \<or>
      (\<exists>o' \<in> set (obj # objs). obj_key o' = k \<and> \<not> keeps wanted o') \<and> gone (f k)" for k
    using f(1) [rule_format, of k] y assms(2) by (cases "k = obj_key obj") auto
  moreover have "gone (f (obj_key obj))"
    using f(1) [rule_format, of "obj_key obj"] y by auto
  ultimately show ?thesis
    unfolding items_pass_def using f(2) by (intro exI [of _ f]) auto
qed

lemma pruneItems_spec:
  "hoare view ((=) c) (pruneItems del what wanted objs) (items_pass sel upd wanted objs c)"
proof (induction objs arbitrary: c)
  case Nil
  show ?case by (simp add: hoare_return_eq items_pass_unchanged)
next
  case (Cons obj objs)
  have rest: "hoare view ((=) c1) (pruneItems del what wanted objs) (items_pass sel upd wanted (obj # objs) c)"
    if "\<And>res c'. items_pass sel upd wanted objs c1 res c' \<Longrightarrow> items_pass sel upd wanted (obj # objs) c res c'"
    for c1
    by (rule hoare_weaken [OF Cons.IH _ that])
  show ?case
    by (simp only: pruneItems.simps)
       (rule hoare_if rest write_step [OF del_law] hoare_return_eq | simp only: sum.case |
        erule items_pass_skip | erule (2) items_pass_delete |
        erule (1) items_pass_delete, rule items_pass_unchanged, simp | simp | rule items_pass_unchanged)+
qed

end

sublocale workload_api \<subseteq> deployments: prunable view cl_deployments cl_deployments_update "delete_deployment (Client r)"
  by unfold_locales (simp_all add: delete_deployment_law)

sublocale workload_api \<subseteq> services: prunable view cl_services cl_services_update "delete_service (Client r)"
  by unfold_locales (simp_all add: delete_service_law)

definition prune_pass ::
  "dev_environment \<Rightarrow> string \<Rightarrow> cluster \<Rightarrow> go_error + unit \<Rightarrow> cluster \<Rightarrow> bool" where
  "prune_pass env ns c res c' \<longleftrightarrow>
     (\<exists>fd fv. c' = c\<lparr>cl_deployments := fd, cl_services := fv\<rparr> \<and>
       pruned env ns (cl_deployments c) fd \<and> pruned env ns (cl_services c) fv \<and>
       (res = Inr () \<longrightarrow> none_stale env ns fd \<and> none_stale env ns fv))"

lemma pruned_refl [simp]: "pruned env ns m m"
  by (simp add: pruned_def)

lemma listed_pruned:
  assumes objs: "set objs = {obj. m (ns, Name obj) = Some obj \<and> selects (prune_selector env) obj}"
    and wf: "keyed m"
    and f: "\<forall>k. f k = m k \<or>
      (\<exists>obj \<in> set objs. obj_key obj = k \<and> \<not> keeps (map SvcName (Services (Spec env))) obj) \<and> gone (f k)"
    and fin: "b \<longrightarrow> (\<forall>obj \<in> set objs. \<not> keeps (map SvcName (Services (Spec env))) obj \<longrightarrow> gone (f (obj_key obj)))"
  shows "pruned env ns m f \<and> (b \<longrightarrow> none_stale env ns f)"
proof -
  have key: "obj_key obj = (ns, Name obj)" "m (ns, Name obj) = Some obj" "selects (prune_selector env) obj"
    if "obj \<in> set objs" for obj
    using that wf unfolding objs keyed_def by blast+
  have "pruned env ns m f"
    unfolding pruned_def
  proof
    fix k
    show "f k = m k \<or> fst k = ns \<and> (\<exists>obj. m k = Some obj \<and> stale env obj) \<and> gone (f k)"
    proof (cases "f k = m k")
      case False
      then obtain obj where "obj \<in> set objs" "obj_key obj = k"
          "\<not> keeps (map SvcName (Services (Spec env))) obj" "gone (f k)"
        using f by blast
      with key [OF this(1)] have "k = (ns, Name obj)" "m k = Some obj" "stale env obj"
        by (simp_all add: stale_def)
      then show ?thesis using \<open>gone (f k)\<close> by auto
    qed simp
  qed
  moreover have "none_stale env ns f" if b
    unfolding none_stale_def
  proof (intro allI impI)
    fix n obj
    assume obj: "f (ns, n) = Some obj" "stale env obj"
    show "gone (f (ns, n))"
    proof (cases "f (ns, n) = m (ns, n)")
      case True
      then have k: "obj_key obj = (ns, n)" using obj(1) wf unfolding keyed_def by metis
      then have "m (ns, Name obj) = Some obj" using True obj(1) by (simp add: obj_key_def)
      then have "obj \<in> set objs" using obj(2) unfolding objs stale_def by blast
      then show ?thesis using fin \<open>b\<close> obj(2) k unfolding stale_def by metis
    next
      case False
      then show ?thesis using f by blast
    qed
  qed
  ultimately show ?thesis by blast
qed

context workload_api begin

lemma pruneServices_spec:
  "hoare view ((=) c) (pruneServices r env ns) (prune_pass env ns c)"
proof (rule hoare_wf)
  assume wf: "wf_cluster c"
  let ?wanted = "map SvcName (Services (Spec env))"
  have same: "prune_pass env ns c (Inl e) c" for e
    unfolding prune_pass_def
    by (rule exI [of _ "cl_deployments c"], rule exI [of _ "cl_services c"]) simp
  have dep: "\<exists>fd. c1 = c\<lparr>cl_deployments := fd\<rparr> \<and> pruned env ns (cl_deployments c) fd \<and>
      (res = Inr () \<longrightarrow> none_stale env ns fd)"
    if "set ds = {obj. cl_deployments c (ns, Name obj) = Some obj \<and> selects (prune_selector env) obj}"
      "items_pass cl_deployments cl_deployments_update ?wanted ds c res c1" for ds res c1
    using that(2) listed_pruned [OF that(1)] wf unfolding items_pass_def wf_cluster_def by blast
  have dep_only: "prune_pass env ns c (Inl e) c1"
    if "set ds = {obj. cl_deployments c (ns, Name obj) = Some obj \<and> selects (prune_selector env) obj}"
      "items_pass cl_deployments cl_deployments_update ?wanted ds c res c1" for ds res c1 e
    using dep [OF that] unfolding prune_pass_def
    by (elim exE) (rule_tac x = fd in exI, rule exI [of _ "cl_services c"], simp)
  have svc: "prune_pass env ns c res' c2"
    if d1: "set ds = {obj. cl_deployments c (ns, Name obj) = Some obj \<and> selects (prune_selector env) obj}"
      and d2: "items_pass cl_deployments cl_deployments_update ?wanted ds c (Inr u) c1"
      and v1: "set vs = {obj. cl_services c1 (ns, Name obj) = Some obj \<and> selects (prune_selector env) obj}"
      and v2: "items_pass cl_services cl_services_update ?wanted vs c1 res' c2" for ds vs u res' c1 c2
  proof -
    obtain fd where c1: "c1 = c\<lparr>cl_deployments := fd\<rparr>" "pruned env ns (cl_deployments c) fd"
        "none_stale env ns fd"
      using dep [OF d1 d2] by auto
    moreover obtain fv where c2: "c2 = c1\<lparr>cl_services := fv\<rparr>" "pruned env ns (cl_services c1) fv"
        "res' = Inr () \<longrightarrow> none_stale env ns fv"
      using v2 listed_pruned [OF v1] wf c1(1) unfolding items_pass_def wf_cluster_def by auto
    ultimately show ?thesis
      unfolding prune_pass_def by (intro exI [of _ fd] exI [of _ fv]) simp
  qed
  show "hoare view ((=) c) (pruneServices r env ns) (prune_pass env ns c)"
    unfolding pruneServices_def Let_def
    by (rule hoare_return_eq list_step [OF list_deployments_law] list_step [OF list_services_law]
          call_step [OF deployments.pruneItems_spec] same |
        rule hoare_weaken [OF services.pruneItems_spec], assumption, erule (3) svc |
        simp only: sum.case | erule (1) dep_only)+
qed

end

end
