(* ===== verification/Provision.thy ===== *)
theory Provision
  imports Validation Mem_Cluster Ensure_Namespace Ensure_Config Copy_Secrets Shared_Volume Workloads
begin

text \<open>
  \<open>reconcileEnvironment\<close> of \<open>internal/controller/devenvironment_controller.go\<close>: namespace,
  ConfigMap, Secrets, claim, services and pruning in this order, stopping at the first error
  with the number of services counted ready so far.
\<close>

definition reconcileEnvironment ::
  "'w reconciler \<Rightarrow> dev_environment \<Rightarrow> ('w, int32 \<times> go_error option) state" where
  "reconcileEnvironment r env = do {
     let ns = TargetNamespace env;
     res \<leftarrow> reconcileNamespace r env ns;
     case res of Inl err \<Rightarrow> State_Monad.return (0, Some err) | Inr _ \<Rightarrow> do {
     res \<leftarrow> reconcileConfigMap r env ns;
     case res of Inl err \<Rightarrow> State_Monad.return (0, Some err) | Inr _ \<Rightarrow> do {
     res \<leftarrow> reconcileSecrets r env ns;
     case res of Inl err \<Rightarrow> State_Monad.return (0, Some err) | Inr _ \<Rightarrow> do {
     res \<leftarrow> reconcilePVC r env ns;
     case res of Inl err \<Rightarrow> State_Monad.return (0, Some err) | Inr _ \<Rightarrow> do {
     counted \<leftarrow> reconcileServices r env ns (Services (Spec env)) 0;
     case counted of
       (ready, Some err) \<Rightarrow> State_Monad.return (ready, Some err)
     | (ready, None) \<Rightarrow> do {
         pruned \<leftarrow> pruneServices r env ns;
         case pruned of
           Inl err \<Rightarrow> State_Monad.return (ready, Some err)
         | Inr _ \<Rightarrow> State_Monad.return (ready, None)
       }
     }}}}
   }"

section \<open>What a pass may touch\<close>

text \<open>
  \<open>confined env c c'\<close>: from \<open>c\<close> to \<open>c'\<close> only objects in the target namespace of \<open>env\<close>
  that are the environment's to write have changed, and nothing at all if the target namespace
  belongs to something else.
\<close>

definition refused :: "dev_environment \<Rightarrow> cluster \<Rightarrow> bool" where
  "refused env c \<longleftrightarrow> (\<exists>n. cl_namespaces c (TargetNamespace env) = Some n \<and> \<not> owns env n)"

definition workload_frame :: "dev_environment \<Rightarrow>
    (obj_key \<rightharpoonup> 'a object_meta_scheme) \<Rightarrow> (obj_key \<rightharpoonup> 'a object_meta_scheme) \<Rightarrow> bool" where
  "workload_frame env m f \<longleftrightarrow>
     (\<forall>k. f k = m k \<or> fst k = TargetNamespace env \<and>
        (snd k \<in> SvcName ` set (Services (Spec env)) \<or> (\<exists>obj. m k = Some obj \<and> stale env obj)))"

definition confined :: "dev_environment \<Rightarrow> cluster \<Rightarrow> cluster \<Rightarrow> bool" where
  "confined env c c' \<longleftrightarrow>
     (let ns = TargetNamespace env in
        cl_envs c' = cl_envs c \<and> cl_pods c' = cl_pods c \<and>
        (\<forall>n. n \<noteq> ns \<longrightarrow> cl_namespaces c' n = cl_namespaces c n) \<and>
        namespace_step env (cl_namespaces c ns) (cl_namespaces c' ns) \<and>
        (\<forall>k. k \<noteq> (ns, configMapName env) \<longrightarrow> cl_config_maps c' k = cl_config_maps c k) \<and>
        (\<forall>k. owned_step env (cl_secrets c k) (cl_secrets c' k)) \<and>
        (\<forall>k. fst k \<noteq> ns \<or> snd k \<notin> secret_set (Spec env) \<longrightarrow> cl_secrets c' k = cl_secrets c k) \<and>
        (\<forall>k. k \<noteq> (ns, pvcName env) \<or> cl_pvcs c k \<noteq> None \<longrightarrow> cl_pvcs c' k = cl_pvcs c k) \<and>
        workload_frame env (cl_deployments c) (cl_deployments c') \<and>
        workload_frame env (cl_services c) (cl_services c') \<and>
        (refused env c \<longrightarrow> c' = c))"

section \<open>What a successful pass establishes\<close>

definition provisioned :: "(deployment \<Rightarrow> deployment \<Rightarrow> bool) \<Rightarrow> (service \<Rightarrow> service \<Rightarrow> bool) \<Rightarrow>
    dev_environment \<Rightarrow> cluster \<Rightarrow> bool" where
  "provisioned admit_d admit_v env c \<longleftrightarrow>
     (let ns = TargetNamespace env in
        (\<exists>n. cl_namespaces c ns = Some n \<and> labels_current env n) \<and>
        config_synced env (cl_config_maps c (ns, configMapName env)) \<and>
        (\<forall>n \<in> secret_set (Spec env). \<exists>src. cl_secrets c (Namespace env, n) = Some src \<and>
           (n \<in> pull_secret_set (Spec env) \<longrightarrow> isDockerAuthSecret (SecretType src)) \<and>
           secret_synced env src (cl_secrets c (ns, n))) \<and>
        (Storage (Spec env) \<noteq> None \<longrightarrow> cl_pvcs c (ns, pvcName env) \<noteq> None) \<and>
        (\<forall>svc \<in> set (Services (Spec env)).
           rendered admit_d (mutateDeployment env svc) (cl_deployments c (ns, SvcName svc)) \<and>
           rendered admit_v (mutateService env svc) (cl_services c (ns, SvcName svc))) \<and>
        none_stale env ns (cl_deployments c) \<and> none_stale env ns (cl_services c))"

definition ready_count :: "dev_environment \<Rightarrow> cluster \<Rightarrow> int32" where
  "ready_count env c = of_nat (length (filter
     (\<lambda>svc. service_up svc (cl_deployments c (TargetNamespace env, SvcName svc)))
     (Services (Spec env))))"

definition environment_pass :: "(deployment \<Rightarrow> deployment \<Rightarrow> bool) \<Rightarrow> (service \<Rightarrow> service \<Rightarrow> bool) \<Rightarrow>
    dev_environment \<Rightarrow> cluster \<Rightarrow> int32 \<times> go_error option \<Rightarrow> cluster \<Rightarrow> bool" where
  "environment_pass admit_d admit_v env c res c' \<longleftrightarrow> confined env c c' \<and>
     (refused env c \<longrightarrow> fst res = 0 \<and> snd res \<noteq> None) \<and>
     (snd res = None \<longrightarrow> valid_spec (Spec env) \<longrightarrow>
        provisioned admit_d admit_v env c' \<and> fst res = ready_count env c')"

section \<open>The stages\<close>

lemma workload_frame_refl [simp]: "workload_frame env m m"
  by (simp add: workload_frame_def)

lemma workload_frame_rendered:
  "rendered_for P (TargetNamespace env) (Services (Spec env)) m f \<Longrightarrow> workload_frame env m f"
  by (force simp: rendered_for_def workload_frame_def)

lemma workload_frame_pruned:
  assumes "workload_frame env m f" and "pruned env (TargetNamespace env) f g"
  shows "workload_frame env m g"
  unfolding workload_frame_def
proof
  fix k
  show "g k = m k \<or> fst k = TargetNamespace env \<and>
        (snd k \<in> SvcName ` set (Services (Spec env)) \<or> (\<exists>obj. m k = Some obj \<and> stale env obj))"
    using assms(1) [unfolded workload_frame_def, rule_format, of k]
      assms(2) [unfolded pruned_def, rule_format, of k] by metis
qed

text \<open>An object with the rendered labels is never stale.\<close>

lemma current_not_stale:
  assumes "map_of (labels env (SvcName svc)) \<subseteq>\<^sub>m map_of (Labels obj)"
    and "svc \<in> set (Services (Spec env))" "SvcName svc \<noteq> []"
  shows "\<not> stale env obj"
proof -
  have "map_of (Labels obj) labelService = Some (SvcName svc)"
    using assms(1,3) by (auto simp: map_le_def map_of_labels dom_def dest!: bspec [of _ _ labelService])
  then show ?thesis using assms(2) by (auto simp: stale_def keeps_def idx_def)
qed

lemma rendered_survives:
  assumes "rendered admit f (m (ns, SvcName svc))" and "pruned env ns m g" and "admission admit"
    and "\<And>x. Labels (f x) = labels env (SvcName svc)"
    and "svc \<in> set (Services (Spec env))" "SvcName svc \<noteq> []"
  shows "g (ns, SvcName svc) = m (ns, SvcName svc)"
proof -
  obtain obj where obj: "m (ns, SvcName svc) = Some obj" "outcome admit f obj"
    using assms(1) by (auto simp: rendered_def)
  have "\<not> stale env obj"
    using outcome_labels [OF obj(2) assms(3,4)] assms(5,6) by (rule current_not_stale)
  then show ?thesis using assms(2) [unfolded pruned_def, rule_format, of "(ns, SvcName svc)"] obj(1) by auto
qed

lemma valid_spec_names:
  "valid_spec sp \<Longrightarrow> distinct (map SvcName (Services sp)) \<and> (\<forall>svc \<in> set (Services sp). SvcName svc \<noteq> [])"
  by (auto simp: valid_spec_def valid_service_def list_all_iff)

text \<open>
  The cluster after each stage, relative to the start: the first stage decides whether the
  rest runs, the others change one component each.
\<close>

lemma source_transfer:
  assumes "source_ok env pull n src c" and "secret_synced env src (f (ns, n))"
    and "\<And>k. (\<forall>n \<in> names. k \<noteq> (ns, n)) \<Longrightarrow> f k = cl_secrets c k" and "n \<in> names"
  shows "\<exists>src. f (Namespace env, n) = Some src \<and>
    (n \<in> set pull \<longrightarrow> isDockerAuthSecret (SecretType src)) \<and> secret_synced env src (f (ns, n))"
proof (cases "Namespace env = ns")
  case True
  then show ?thesis using assms(1,2) by (auto simp: source_ok_def secret_synced_def)
next
  case False
  then have "f (Namespace env, n) = cl_secrets c (Namespace env, n)" by (intro assms(3)) auto
  then show ?thesis using assms(1,2) by (auto simp: source_ok_def)
qed

lemma confined_refl: "confined env c c"
  by (simp add: confined_def Let_def)

lemma confined_namespace:
  assumes "namespace_pass env (TargetNamespace env) c res c'"
  shows "confined env c c' \<and> (res = Inr () \<longrightarrow> \<not> refused env c)"
proof -
  obtain y where y: "c' = c\<lparr>cl_namespaces := (cl_namespaces c)(TargetNamespace env := y)\<rparr>"
      "namespace_step env (cl_namespaces c (TargetNamespace env)) y"
      "res = Inr () \<longrightarrow> (\<exists>obj. y = Some obj \<and> labels_current env obj)"
    using assms unfolding namespace_pass_def by blast
  have same: "y = cl_namespaces c (TargetNamespace env)" if "refused env c"
    using that y(2) by (auto simp: refused_def namespace_step_def)
  then have "refused env c \<longrightarrow> c' = c" using y(1) by auto
  moreover have "\<not> refused env c" if "res = Inr ()"
    using y that same labels_current_owns unfolding refused_def by (metis option.inject)
  ultimately show ?thesis using y(1,2) by (simp add: confined_def Let_def)
qed

lemma confined_config:
  assumes "confined env c c1" "\<not> refused env c" "config_pass env (TargetNamespace env) c1 res c2"
  shows "confined env c c2"
proof -
  obtain y where "c2 = c1\<lparr>cl_config_maps := (cl_config_maps c1)((TargetNamespace env, configMapName env) := y)\<rparr>"
    using assms(3) unfolding config_pass_def by blast
  then show ?thesis using assms(1,2) unfolding confined_def Let_def by simp
qed

lemma confined_secrets:
  assumes c1: "confined env c c1" "\<not> refused env c"
    and c2: "secrets_pass env pull (TargetNamespace env) names c1 res c2"
    and names: "set names = secret_set (Spec env)"
  shows "confined env c c2"
proof -
  obtain f where f: "c2 = c1\<lparr>cl_secrets := f\<rparr>" "\<And>k. owned_step env (cl_secrets c1 k) (f k)"
      "\<And>k. (\<forall>n \<in> set names. k \<noteq> (TargetNamespace env, n)) \<Longrightarrow> f k = cl_secrets c1 k"
    using c2 unfolding secrets_pass_def by blast
  have "owned_step env (cl_secrets c k) (f k)" for k
    using c1(1) f(2) [of k] owned_step_trans unfolding confined_def Let_def by blast
  moreover have "f k = cl_secrets c k"
    if "fst k \<noteq> TargetNamespace env \<or> snd k \<notin> secret_set (Spec env)" for k
  proof -
    have "f k = cl_secrets c1 k" using that names by (intro f(3)) auto
    then show ?thesis using c1(1) that unfolding confined_def Let_def by metis
  qed
  ultimately show ?thesis using c1 f(1) unfolding confined_def Let_def by simp
qed

lemma confined_claim:
  assumes c1: "confined env c c1" "\<not> refused env c"
    and c2: "claim_pass admit env (TargetNamespace env) c1 res c2"
  shows "confined env c c2"
proof -
  let ?k = "(TargetNamespace env, pvcName env)"
  obtain y where y: "c2 = c1\<lparr>cl_pvcs := (cl_pvcs c1)(?k := y)\<rparr>"
      "y = cl_pvcs c1 ?k \<or> cl_pvcs c1 ?k = None"
    using c2 unfolding claim_pass_def by blast
  have "((cl_pvcs c1)(?k := y)) k = cl_pvcs c k" if "k \<noteq> ?k \<or> cl_pvcs c k \<noteq> None" for k
  proof -
    have "cl_pvcs c1 k = cl_pvcs c k" using that c1(1) unfolding confined_def Let_def by blast
    then show ?thesis using that y(2) by auto
  qed
  then show ?thesis using c1 y(1) unfolding confined_def Let_def by simp
qed

lemma confined_workloads:
  assumes "confined env c c1" "\<not> refused env c"
    and "workload_frame env (cl_deployments c) fd" "workload_frame env (cl_services c) fv"
  shows "confined env c (c1\<lparr>cl_deployments := fd, cl_services := fv\<rparr>)"
  using assms unfolding confined_def Let_def by simp

lemma workload_frame_trans:
  "workload_frame env m f \<Longrightarrow> rendered_for P (TargetNamespace env) (Services (Spec env)) f g \<Longrightarrow>
   workload_frame env m g"
  unfolding rendered_for_def workload_frame_def by (metis fst_conv image_eqI snd_conv)

lemma confined_services:
  assumes "confined env c c1" "\<not> refused env c"
    and "services_pass admit_d admit_v env (TargetNamespace env) (Services (Spec env)) ready c1 res c2"
  shows "confined env c c2"
proof -
  have "workload_frame env (cl_deployments c) (cl_deployments c1)"
    "workload_frame env (cl_services c) (cl_services c1)"
    using assms(1) unfolding confined_def Let_def by blast+
  then show ?thesis
    using assms(3) confined_workloads [OF assms(1,2)] unfolding services_pass_def
    by (auto intro: workload_frame_trans)
qed

lemma confined_prune:
  assumes "confined env c c1" "\<not> refused env c" and "prune_pass env (TargetNamespace env) c1 res c2"
  shows "confined env c c2"
proof -
  have "workload_frame env (cl_deployments c) (cl_deployments c1)"
    "workload_frame env (cl_services c) (cl_services c1)"
    using assms(1) unfolding confined_def Let_def by blast+
  then show ?thesis
    using assms(3) confined_workloads [OF assms(1,2)] unfolding prune_pass_def
    by (auto intro: workload_frame_pruned)
qed

section \<open>The composition\<close>

lemma provisioned_stages:
  assumes ns: "ns = TargetNamespace env" and valid: "valid_spec (Spec env)"
    and c1: "namespace_pass env ns c (Inr ()) c1"
    and c2: "config_pass env ns c1 (Inr ()) c2"
    and c3: "secrets_pass env pull ns (referencedSecrets env) c2 (Inr ()) c3"
    and c4: "claim_pass admit_pvc env ns c3 (Inr ()) c4"
    and c5: "services_pass admit_d admit_v env ns (Services (Spec env)) 0 c4 (ready, None) c5"
    and c6: "prune_pass env ns c5 (Inr ()) c6"
    and pull: "set pull = pull_secret_set (Spec env)"
    and admit: "admission admit_d" "admission admit_v"
  shows "provisioned admit_d admit_v env c6 \<and> ready = ready_count env c6"
proof -
  let ?svcs = "Services (Spec env)"
  obtain n where n: "cl_namespaces c1 ns = Some n" "labels_current env n"
    using c1 unfolding namespace_pass_def by auto
  obtain y2 where y2: "c2 = c1\<lparr>cl_config_maps := (cl_config_maps c1)((ns, configMapName env) := y2)\<rparr>"
      "config_synced env y2"
    using c2 unfolding config_pass_def by blast
  obtain f where f: "c3 = c2\<lparr>cl_secrets := f\<rparr>"
      "\<And>k. (\<forall>n \<in> set (referencedSecrets env). k \<noteq> (ns, n)) \<Longrightarrow> f k = cl_secrets c2 k"
      "\<forall>n \<in> set (referencedSecrets env). \<exists>src. source_ok env pull n src c2 \<and> secret_synced env src (f (ns, n))"
    using c3 unfolding secrets_pass_def by blast
  have secrets: "\<exists>src. f (Namespace env, n) = Some src \<and>
      (n \<in> pull_secret_set (Spec env) \<longrightarrow> isDockerAuthSecret (SecretType src)) \<and>
      secret_synced env src (f (ns, n))" if "n \<in> secret_set (Spec env)" for n
    using source_transfer [of env pull n _ c2 f ns "set (referencedSecrets env)"] f(2,3) that pull by auto
  obtain p where p: "c4 = c3\<lparr>cl_pvcs := (cl_pvcs c3)((ns, pvcName env) := p)\<rparr>"
      "Storage (Spec env) \<noteq> None \<longrightarrow> p \<noteq> None"
    using c4 unfolding claim_pass_def by blast
  obtain fd fv where w: "c5 = c4\<lparr>cl_deployments := fd, cl_services := fv\<rparr>"
      "\<forall>svc \<in> set ?svcs. rendered admit_d (mutateDeployment env svc) (fd (ns, SvcName svc)) \<and>
         rendered admit_v (mutateService env svc) (fv (ns, SvcName svc))"
      "ready = of_nat (length (filter (\<lambda>svc. service_up svc (fd (ns, SvcName svc))) ?svcs))"
    using c5 valid_spec_names [OF valid] unfolding services_pass_def by auto
  obtain gd gv where g: "c6 = c5\<lparr>cl_deployments := gd, cl_services := gv\<rparr>"
      "pruned env ns fd gd" "pruned env ns fv gv" "none_stale env ns gd" "none_stale env ns gv"
    using c6 w(1) unfolding prune_pass_def by auto
  have kept: "gd (ns, SvcName svc) = fd (ns, SvcName svc)" "gv (ns, SvcName svc) = fv (ns, SvcName svc)"
    if "svc \<in> set ?svcs" for svc
    using that w(2) valid_spec_names [OF valid]
      rendered_survives [OF _ g(2) admit(1), of "mutateDeployment env svc" svc]
      rendered_survives [OF _ g(3) admit(2), of "mutateService env svc" svc]
    by simp_all
  have "ready = ready_count env c6"
    unfolding w(3) ready_count_def using g(1) kept ns
    by (intro arg_cong [where f = of_nat] arg_cong [where f = length] filter_cong) simp_all
  moreover have "provisioned admit_d admit_v env c6"
    unfolding provisioned_def Let_def ns [symmetric] using g w(1,2) p f(1) y2 n secrets kept by simp
  ultimately show ?thesis by blast
qed

lemma count_step:
  "hoare view ((=) c) m R \<Longrightarrow>
   (\<And>n e c'. R (n, Some e) c' \<Longrightarrow> hoare view ((=) c') (f (n, Some e)) Q) \<Longrightarrow>
   (\<And>n c'. R (n, None) c' \<Longrightarrow> hoare view ((=) c') (f (n, None)) Q) \<Longrightarrow>
   hoare view ((=) c) (State_Monad.bind m f) Q"
  by (erule hoare_step_at) (metis option.exhaust prod.exhaust)

context api_server begin

lemma reconcileEnvironment_spec:
  "hoare view ((=) c) (reconcileEnvironment r env) (environment_pass admit_deploy admit_svc env c)"
proof -
  let ?ns = "TargetNamespace env" and ?pull = "set_add_all (referencedPullSecrets env) []"
  let ?Q = "environment_pass admit_deploy admit_svc env c"
  have failed: "?Q (0, Some e) c'" if "confined env c c'" for c' e
    using that by (simp add: environment_pass_def)
  have failed_later: "?Q (ready, Some e) c'" if "confined env c c'" "\<not> refused env c" for c' ready e
    using that by (simp add: environment_pass_def)
  have 1: "confined env c c1" if "namespace_pass env ?ns c res c1" for res c1
    using confined_namespace [OF that] ..
  have R: "\<not> refused env c" if "namespace_pass env ?ns c (Inr u) c1" for u c1
    using confined_namespace [OF that] by simp
  have 2: "confined env c c2"
    if "namespace_pass env ?ns c (Inr u) c1" "config_pass env ?ns c1 res c2" for u c1 res c2
    using confined_config [OF 1 R] that by blast
  have 3: "confined env c c3"
    if "namespace_pass env ?ns c (Inr u) c1" "config_pass env ?ns c1 (Inr u) c2"
      "secrets_pass env ?pull ?ns (referencedSecrets env) c2 res c3" for u c1 c2 res c3
    using confined_secrets [OF 2 R] that set_referencedSecrets by blast
  have 4: "confined env c c4"
    if "namespace_pass env ?ns c (Inr u) c1" "config_pass env ?ns c1 (Inr u) c2"
      "secrets_pass env ?pull ?ns (referencedSecrets env) c2 (Inr u) c3"
      "claim_pass admit_pvc env ?ns c3 res c4" for u c1 c2 c3 res c4
    using confined_claim [OF 3 R] that by blast
  have 5: "confined env c c5"
    if "namespace_pass env ?ns c (Inr u) c1" "config_pass env ?ns c1 (Inr u) c2"
      "secrets_pass env ?pull ?ns (referencedSecrets env) c2 (Inr u) c3"
      "claim_pass admit_pvc env ?ns c3 (Inr u) c4"
      "services_pass admit_deploy admit_svc env ?ns (Services (Spec env)) 0 c4 res c5"
    for u c1 c2 c3 c4 res c5
    using confined_services [OF 4 R] that by blast
  have 6: "confined env c c6"
    if "namespace_pass env ?ns c (Inr u) c1" "config_pass env ?ns c1 (Inr u) c2"
      "secrets_pass env ?pull ?ns (referencedSecrets env) c2 (Inr u) c3"
      "claim_pass admit_pvc env ?ns c3 (Inr u) c4"
      "services_pass admit_deploy admit_svc env ?ns (Services (Spec env)) 0 c4 (ready, None) c5"
      "prune_pass env ?ns c5 res c6"
    for u c1 c2 c3 c4 ready c5 res c6
    using confined_prune [OF 5 R] that by blast
  have final: "?Q (ready, None) c6"
    if "namespace_pass env ?ns c (Inr ()) c1" "config_pass env ?ns c1 (Inr ()) c2"
      "secrets_pass env ?pull ?ns (referencedSecrets env) c2 (Inr ()) c3"
      "claim_pass admit_pvc env ?ns c3 (Inr ()) c4"
      "services_pass admit_deploy admit_svc env ?ns (Services (Spec env)) 0 c4 (ready, None) c5"
      "prune_pass env ?ns c5 (Inr ()) c6"
    for c1 c2 c3 c4 ready c5 c6
    using 6 [OF that] R [OF that(1)] provisioned_stages [OF refl _ that _ admit_deploy_law admit_svc_law]
    by (simp add: environment_pass_def go_simps)
  show ?thesis
    unfolding reconcileEnvironment_def Let_def
    by (rule hoare_return_eq call_step [OF reconcileNamespace_spec] call_step [OF reconcileConfigMap_spec]
          call_step [OF reconcileSecrets_spec] call_step [OF reconcilePVC_spec]
          count_step [OF reconcileServices_spec] call_step [OF pruneServices_spec] |
        simp only: sum.case prod.case option.case unit_all_eq1 |
        rule failed, ((erule 1 | erule (1) 2 | erule (2) 3 | erule (3) 4); fail) |
        rule failed_later, ((erule (4) 5 | erule (5) 6); fail), erule R |
        rule final; assumption)+
qed

end

section \<open>The pruning loops on the in-memory server\<close>

interpretation mem_prune_deployments: prunable mem_view cl_deployments cl_deployments_update
    "delete_deployment (Client mem_reconciler)"
  by unfold_locales (simp, rule mem_api.delete_deployment_law)

interpretation mem_prune_services: prunable mem_view cl_services cl_services_update
    "delete_service (Client mem_reconciler)"
  by unfold_locales (simp, rule mem_api.delete_service_law)

section \<open>Properties\<close>

text \<open>
  C9. Confinement. Whatever the API server does, a pass, successful or not, changes only
  objects that are the environment's to write: its target namespace (created or relabelled,
  never one it does not own), its ConfigMap, the copies of the Secrets it references, its claim
  (created, never changed), and Deployments and Services of its services or pruned ones; if the
  target namespace belongs to something else it changes nothing at all.
\<close>

theorem reconcileEnvironment_confined:
  assumes "api_server r view admit_ns admit_pvc admit_deploy admit_svc"
    and "run_state (reconcileEnvironment r env) w = (res, w')"
  shows "confined env (view w) (view w')"
  using hoareD [OF api_server.reconcileEnvironment_spec [OF assms(1)] refl assms(2)]
  by (simp add: environment_pass_def)

definition sample_run :: "(int32 \<times> go_error option) \<times> mem" where
  "sample_run = run_state (reconcileEnvironment mem_reconciler sample_env) empty_mem"

lemma sample_run_result: "fst sample_run = (0, None)"
  by code_simp

lemma sample_run_eq:
  "run_state (reconcileEnvironment mem_reconciler sample_env) empty_mem = ((0, None), snd sample_run)"
  using sample_run_result by (simp add: sample_run_def prod_eq_iff)

theorem reconcileEnvironment_confined_witness:
  "confined sample_env (mem_view empty_mem) (mem_view (snd sample_run)) \<and>
   map Name (m_namespaces (snd sample_run)) = [''team-alpha''] \<and>
   map Name (m_config_maps (snd sample_run)) = [''team-alpha-config'']"
proof -
  have "map Name (m_namespaces (snd sample_run)) = [''team-alpha'']"
    "map Name (m_config_maps (snd sample_run)) = [''team-alpha-config'']"
    by code_simp+
  then show ?thesis using reconcileEnvironment_confined [OF mem_api_server sample_run_eq] by simp
qed

text \<open>
  C10. Convergence. A pass over a valid spec that reports no error leaves the cluster
  provisioned: the namespace carries the environment's labels, the ConfigMap holds exactly
  \<open>spec.config\<close> (or is gone), every referenced Secret has an owned copy with the type and data
  of its source, and a pull secret has a Docker type, the claim exists if storage is asked for,
  every service has its Deployment and Service as rendered from the current spec, no workload
  of a dropped service remains unless it is already being deleted, and the count that is
  returned is the number of services whose Deployment has all the replicas that were asked for.
\<close>

theorem reconcileEnvironment_provisions:
  assumes "api_server r view admit_ns admit_pvc admit_deploy admit_svc"
    and "valid_spec (Spec env)"
    and "run_state (reconcileEnvironment r env) w = ((ready, None), w')"
  shows "provisioned admit_deploy admit_svc env (view w') \<and> ready = ready_count env (view w')"
  using hoareD [OF api_server.reconcileEnvironment_spec [OF assms(1)] refl assms(3)] assms(2)
  by (simp add: environment_pass_def)

theorem reconcileEnvironment_provisions_witness:
  "provisioned admit_deployment (=) sample_env (mem_view (snd sample_run)) \<and>
   ready_count sample_env (mem_view (snd sample_run)) = 0"
proof -
  have "valid_spec (Spec sample_env)" by code_simp
  then show ?thesis
    using reconcileEnvironment_provisions [OF mem_api_server _ sample_run_eq] by simp
qed

text \<open>
  No adoption. If the target namespace exists and is not owned by the environment, the pass
  ends with an error, counts nothing ready and leaves the cluster exactly as it was.
\<close>

theorem foreign_namespace_refused:
  assumes "api_server r view admit_ns admit_pvc admit_deploy admit_svc"
    and "cl_namespaces (view w) (TargetNamespace env) = Some n" and "\<not> owns env n"
    and "run_state (reconcileEnvironment r env) w = (res, w')"
  shows "fst res = 0 \<and> snd res \<noteq> None \<and> view w' = view w"
proof -
  have "refused env (view w)" using assms(2,3) by (simp add: refused_def)
  then show ?thesis
    using hoareD [OF api_server.reconcileEnvironment_spec [OF assms(1)] refl assms(4)]
    by (simp add: environment_pass_def confined_def Let_def)
qed

definition foreign_mem :: mem where
  "foreign_mem = empty_mem\<lparr>m_namespaces := [new_meta [] ''team-alpha'']\<rparr>"

theorem foreign_namespace_refused_witness:
  "let (res, w') = run_state (reconcileEnvironment mem_reconciler sample_env) foreign_mem
   in fst res = 0 \<and> snd res \<noteq> None \<and> mem_view w' = mem_view foreign_mem"
proof -
  have "cl_namespaces (mem_view foreign_mem) (TargetNamespace sample_env) = Some (new_meta [] ''team-alpha'')"
    by (simp add: mem_view_def foreign_mem_def TargetNamespace_def sample_spec_def new_meta_def)
  moreover have "\<not> owns sample_env (new_meta [] ''team-alpha'')"
    by (simp add: owns_def new_meta_def idx_def managerName_def)
  ultimately show ?thesis
    using foreign_namespace_refused [OF mem_api_server]
    by (cases "run_state (reconcileEnvironment mem_reconciler sample_env) foreign_mem") auto
qed

text \<open>
  C19. A Secret in the target namespace that the environment does not own is never overwritten:
  if a referenced name is taken by such a Secret, copying the Secrets fails, and that Secret is
  exactly as it was. In particular it does not acquire the labels that would make the teardown
  treat it as the environment's.
\<close>

theorem foreign_secret_refused:
  assumes "api_server r view admit_ns admit_pvc admit_deploy admit_svc"
    and "n \<in> secret_set (Spec env)"
    and "cl_secrets (view w) (ns, n) = Some s" and "\<not> owns env s"
    and "run_state (reconcileSecrets r env ns) w = (res, w')"
  shows "(\<exists>e. res = Inl e) \<and> cl_secrets (view w') (ns, n) = Some s"
proof -
  have post: "secrets_pass env (set_add_all (referencedPullSecrets env) []) ns (referencedSecrets env)
      (view w) res (view w')"
    by (rule hoareD [OF secret_api.reconcileSecrets_spec [OF api_server_parts(3) [OF assms(1)]] refl assms(5)])
  then have "owned_step env (Some s) (cl_secrets (view w') (ns, n))"
    using assms(3) unfolding secrets_pass_def by (metis cluster.select_convs(4) cluster.surjective cluster.update_convs(4))
  then have kept: "cl_secrets (view w') (ns, n) = Some s" using assms(4) by (rule owned_step_foreign)
  have "res \<noteq> Inr ()"
  proof
    assume "res = Inr ()"
    then obtain src where "secret_synced env src (cl_secrets (view w') (ns, n))"
      using post assms(2) unfolding secrets_pass_def by (auto simp del: split_paired_All)
    then show False using kept assms(4) secret_synced_owned by (fastforce simp: owned_or_absent_def)
  qed
  then show ?thesis using kept by (cases res) auto
qed

definition taken_secret :: secret where
  "taken_secret = (new_secret ''team-alpha'' ''db'')\<lparr>SecretType := ''Opaque'', SecretData := [(''K'', ''theirs'')]\<rparr>"

definition secret_mem :: mem where
  "secret_mem = empty_mem\<lparr>m_secrets := [taken_secret,
     (new_secret ''default'' ''db'')\<lparr>SecretType := ''Opaque'', SecretData := [(''K'', ''ours'')]\<rparr>,
     (new_secret ''default'' ''reg'')\<lparr>SecretType := SecretTypeDockercfg\<rparr>]\<rparr>"

theorem foreign_secret_refused_witness:
  "let (res, w') = run_state (reconcileSecrets mem_reconciler two_secret_env ''team-alpha'') secret_mem
   in (\<exists>e. res = Inl e) \<and> cl_secrets (mem_view w') (''team-alpha'', ''db'') = Some taken_secret"
proof -
  have ref: "''db'' \<in> secret_set (Spec two_secret_env)"
    by (simp add: secret_set_def two_secret_env_def)
  have "lookup obj_key (m_secrets secret_mem) (''team-alpha'', ''db'') = Some taken_secret"
    by code_simp
  then have taken: "cl_secrets (mem_view secret_mem) (''team-alpha'', ''db'') = Some taken_secret"
    by (simp add: mem_view_def)
  have foreign: "\<not> owns two_secret_env taken_secret"
    by (simp add: owns_def taken_secret_def new_secret_def new_meta_def object_meta.defs secret.defs
        idx_def managerName_def)
  obtain res w' where
    run: "run_state (reconcileSecrets mem_reconciler two_secret_env ''team-alpha'') secret_mem = (res, w')"
    by (rule prod.exhaust)
  show ?thesis
    unfolding run Let_def prod.case by (rule foreign_secret_refused [OF mem_api_server ref taken foreign run])
qed

text \<open>
  C21. A service counts as ready exactly when its Deployment, as stored after the pass, has at
  least as many ready replicas as the spec asks for, where an unset count means one: as signed
  32-bit numbers, so a service scaled to zero is ready and one replica of three is not.
\<close>

theorem reconcileService_ready:
  assumes "api_server r view admit_ns admit_pvc admit_deploy admit_svc"
    and "run_state (reconcileService r env ns svc) w = (Inr up, w')"
  shows "\<exists>d. cl_deployments (view w') (ns, SvcName svc) = Some d \<and>
    (up \<longleftrightarrow> (case SvcReplicas svc of None \<Rightarrow> 1 | Some n \<Rightarrow> sint n) \<le> sint (ReadyReplicas (DeployStatus d)))"
proof -
  have one: "sint (1 :: int32) = 1" by simp
  have "service_pass admit_deploy admit_svc env ns svc (view w) (Inr up) (view w')"
    by (rule hoareD [OF workload_api.reconcileService_spec [OF api_server_parts(5) [OF assms(1)]] refl assms(2)])
  then obtain d v where "view w' = (view w)\<lparr>cl_deployments := (cl_deployments (view w))((ns, SvcName svc) := d),
        cl_services := (cl_services (view w))((ns, SvcName svc) := v)\<rparr>"
      and d: "rendered admit_deploy (mutateDeployment env svc) d" and up: "up = service_up svc d"
    unfolding service_pass_def by blast
  then have "cl_deployments (view w') (ns, SvcName svc) = d" by simp
  moreover obtain dep where "d = Some dep" using d by (auto simp: rendered_def)
  ultimately show ?thesis
    using up by (simp add: service_up_def desired_replicas_def word_sle_eq one split: option.split)
qed

theorem reconcileService_ready_witness:
  "\<exists>d. cl_deployments (mem_view (snd (run_state
        (reconcileService mem_reconciler sample_env ''team-alpha'' (sample_service\<lparr>SvcReplicas := Some 0\<rparr>)) empty_mem)))
      (''team-alpha'', ''redis'') = Some d \<and> 0 \<le> sint (ReadyReplicas (DeployStatus d))"
proof -
  let ?run = "run_state (reconcileService mem_reconciler sample_env ''team-alpha''
      (sample_service\<lparr>SvcReplicas := Some 0\<rparr>)) empty_mem"
  have "fst ?run = Inr True" by code_simp
  then have "?run = (Inr True, snd ?run)" by (simp add: prod_eq_iff)
  from reconcileService_ready [OF mem_api_server this] show ?thesis
    by (simp add: sample_service_def)
qed

text \<open>
  C22. Pruning removes what left the spec and nothing else: when it succeeds, every Deployment
  and Service in the namespace that carries the environment's labels and names an unlisted
  service is gone or being deleted; and in any case an object is removed only if it is such an
  object, so a workload of a listed service, or one without a service label, is never removed.
\<close>

theorem pruneServices_exact:
  assumes "api_server r view admit_ns admit_pvc admit_deploy admit_svc"
    and "run_state (pruneServices r env ns) w = (res, w')"
  shows "pruned env ns (cl_deployments (view w)) (cl_deployments (view w')) \<and>
    pruned env ns (cl_services (view w)) (cl_services (view w')) \<and>
    (res = Inr () \<longrightarrow> none_stale env ns (cl_deployments (view w')) \<and> none_stale env ns (cl_services (view w')))"
  using hoareD [OF workload_api.pruneServices_spec [OF api_server_parts(5) [OF assms(1)]] refl assms(2)]
  by (auto simp: prune_pass_def)

definition dropped_env :: dev_environment where
  "dropped_env = sample_env\<lparr>Spec := sample_spec\<lparr>Services := []\<rparr>\<rparr>"

theorem pruneServices_exact_witness:
  "let w' = snd (run_state (pruneServices mem_reconciler dropped_env ''team-alpha'') (snd sample_run))
   in none_stale dropped_env ''team-alpha'' (cl_deployments (mem_view w')) \<and> m_deployments w' = [] \<and>
      length (m_deployments (snd sample_run)) = 1"
proof -
  let ?run = "run_state (pruneServices mem_reconciler dropped_env ''team-alpha'') (snd sample_run)"
  have "fst ?run = Inr ()" "m_deployments (snd ?run) = []" "length (m_deployments (snd sample_run)) = 1"
    by code_simp+
  moreover from this have "?run = (Inr (), snd ?run)" by (simp add: prod_eq_iff)
  ultimately show ?thesis
    using pruneServices_exact [OF mem_api_server] by (simp add: Let_def)
qed

end
