(* ===== verification/Status_Report.thy ===== *)
theory Status_Report
  imports Diagnose Kube_Client
begin

text \<open>
  How the outcome of a pass reaches the resource, from
  \<open>internal/controller/devenvironment_controller.go\<close>: \<open>setProvisioned\<close>, \<open>setFailed\<close>,
  \<open>patchStatus\<close>, \<open>setCondition\<close>, and \<open>workloadProblems\<close> with \<open>addStalledServices\<close>, which
  feed the loops of Diagnose from the two list calls. The Go code mutates \<open>env.Status\<close> in
  place; here the changed environment is passed on.
\<close>

definition boolStatus :: "bool \<Rightarrow> condition_status" where
  "boolStatus b = (if b then ConditionTrue else ConditionFalse)"

definition reasonFor :: "bool \<Rightarrow> string \<Rightarrow> string \<Rightarrow> string" where
  "reasonFor b whenTrue whenFalse = (if b then whenTrue else whenFalse)"

definition setCondition ::
  "'w reconciler \<Rightarrow> dev_environment \<Rightarrow> string \<Rightarrow> condition_status \<Rightarrow> string \<Rightarrow> string \<Rightarrow>
   ('w, dev_environment) state" where
  "setCondition r env condType status reason message = do {
     cs \<leftarrow> set_status_condition (Helpers r) (Conditions (Status env))
       \<lparr>CondType = condType, CondStatus = status, CondReason = reason, CondMessage = message,
        CondObservedGeneration = Generation env, LastTransitionTime = 0\<rparr>;
     State_Monad.return (env\<lparr>Status := (Status env)\<lparr>Conditions := cs\<rparr>\<rparr>)
   }"

definition patchStatus :: "'w reconciler \<Rightarrow> dev_environment \<Rightarrow> ('w, unit) io" where
  "patchStatus r env = do {
     res \<leftarrow> update_env_status (Client r) env;
     case res of
       Inl err \<Rightarrow>
         if is_conflict err then State_Monad.return (Inr ())
         else State_Monad.return (Inl (Wrapf ''updating status'' err))
     | Inr _ \<Rightarrow> State_Monad.return (Inr ())
   }"

definition problem_selector :: "dev_environment \<Rightarrow> labels" where
  "problem_selector env = [(labelManagedBy, managerName), (labelEnvironment, Name env)]"

definition addStalledServices ::
  "'w reconciler \<Rightarrow> dev_environment \<Rightarrow> string \<Rightarrow> problems \<Rightarrow> bool \<Rightarrow> ('w, problems) state" where
  "addStalledServices r env ns byService podsKnown = do {
     listed \<leftarrow> list_deployments (Client r) ns (problem_selector env);
     case listed of
       Inl err \<Rightarrow> State_Monad.return byService
     | Inr deploys \<Rightarrow> State_Monad.return (stalledPass podsKnown deploys byService)
   }"

definition workloadProblems ::
  "'w reconciler \<Rightarrow> dev_environment \<Rightarrow> string \<Rightarrow> ('w, string list) state" where
  "workloadProblems r env ns = do {
     listed \<leftarrow> list_pods (reader r) ns (problem_selector env);
     let podsKnown = (case listed of Inl err \<Rightarrow> False | Inr _ \<Rightarrow> True);
     let pods = (case listed of Inl err \<Rightarrow> [] | Inr items \<Rightarrow> items);
     byService \<leftarrow> addStalledServices r env ns (podPass pods []) podsKnown;
     State_Monad.return (problemList (Services (Spec env)) byService)
   }"

definition total_services :: "dev_environment \<Rightarrow> int32" where
  "total_services env = of_nat (length (Services (Spec env)))"

definition readyMessage :: "int32 \<Rightarrow> int32 \<Rightarrow> string" where
  "readyMessage ready tot = itoa (sint ready) @ ''/'' @ itoa (sint tot) @ '' services ready''"

text \<open>
  \<open>setProvisioned\<close> in three parts: the plain status fields, the last two conditions with the
  write, and the method around them.
\<close>

definition provisionedFields :: "dev_environment \<Rightarrow> int32 \<Rightarrow> dev_environment" where
  "provisionedFields env ready =
     (let tot = total_services env;
          allReady = (ready = tot);
          phase = (if allReady then PhaseReady else PhaseProvisioning)
      in env\<lparr>Status := (Status env)\<lparr>Phase := phase, StatusNamespace := TargetNamespace env,
           ReadyServices := ready, TotalServices := tot, ObservedGeneration := Generation env\<rparr>\<rparr>)"

definition reportProblems ::
  "'w reconciler \<Rightarrow> dev_environment \<Rightarrow> bool \<Rightarrow> string \<Rightarrow> string list \<Rightarrow> ('w, unit) io" where
  "reportProblems r env allReady message problems =
     (if length problems > 0 then do {
       let detail = join problems ''; '';
       env \<leftarrow> setCondition r env ConditionProgressing ConditionFalse ''WorkloadUnhealthy'' detail;
       env \<leftarrow> setCondition r env ConditionDegraded ConditionTrue ''WorkloadUnhealthy'' detail;
       patchStatus r env
     }
     else do {
       env \<leftarrow> setCondition r env ConditionProgressing (boolStatus (\<not> allReady))
               (reasonFor (\<not> allReady) ''Provisioning'' ''Provisioned'') message;
       env \<leftarrow> setCondition r env ConditionDegraded ConditionFalse ''ReconcileSucceeded''
               ''Reconciliation completed without error'';
       patchStatus r env
     })"

definition setProvisioned :: "'w reconciler \<Rightarrow> dev_environment \<Rightarrow> int32 \<Rightarrow> ('w, unit) io" where
  "setProvisioned r env ready = do {
     let tot = total_services env;
     let allReady = (ready = tot);
     let env = provisionedFields env ready;
     let message = readyMessage ready tot;
     env \<leftarrow> setCondition r env ConditionAvailable (boolStatus allReady)
             (reasonFor allReady ''EnvironmentReady'' ''ServicesNotReady'') message;
     problems \<leftarrow> (if \<not> allReady then workloadProblems r env (TargetNamespace env)
                  else State_Monad.return []);
     reportProblems r env allReady message problems
   }"

definition setFailed :: "'w reconciler \<Rightarrow> dev_environment \<Rightarrow> go_error \<Rightarrow> ('w, unit) io" where
  "setFailed r env cause = do {
     let env = env\<lparr>Status := (Status env)\<lparr>Phase := PhaseFailed, ObservedGeneration := Generation env\<rparr>\<rparr>;
     env \<leftarrow> setCondition r env ConditionAvailable ConditionFalse ''ProvisioningFailed'' (error_text cause);
     env \<leftarrow> setCondition r env ConditionProgressing ConditionFalse ''ProvisioningFailed'' (error_text cause);
     env \<leftarrow> setCondition r env ConditionDegraded ConditionTrue ''ReconcileFailed'' (error_text cause);
     patchStatus r env
   }"

section \<open>Conditions\<close>

text \<open>The condition of a type, without its transition time: status, reason and message.\<close>

definition verdict :: "condition list \<Rightarrow> string \<Rightarrow> (condition_status \<times> string \<times> string) option" where
  "verdict cs t = map_option (\<lambda>c. (CondStatus c, CondReason c, CondMessage c))
     (find (\<lambda>c. CondType c = t) cs)"

lemma ConditionTypes_neq [simp]:
  "ConditionAvailable \<noteq> ConditionProgressing" "ConditionAvailable \<noteq> ConditionDegraded"
  "ConditionProgressing \<noteq> ConditionAvailable" "ConditionProgressing \<noteq> ConditionDegraded"
  "ConditionDegraded \<noteq> ConditionAvailable" "ConditionDegraded \<noteq> ConditionProgressing"
  by (simp_all add: ConditionAvailable_def ConditionProgressing_def ConditionDegraded_def)

lemma set_condition_at_verdict:
  "verdict (set_condition_at now cond cs) t =
     (if t = CondType cond then Some (CondStatus cond, CondReason cond, CondMessage cond)
      else verdict cs t)"
  by (induction cs) (auto simp: verdict_def)

lemma set_condition_at_types:
  "map CondType (set_condition_at now cond cs) =
     (if CondType cond \<in> CondType ` set cs then map CondType cs else map CondType cs @ [CondType cond])"
  by (induction cs) auto

lemma condition_set_verdict:
  "condition_set cs cond cs' \<Longrightarrow>
   verdict cs' = (verdict cs)(CondType cond \<mapsto> (CondStatus cond, CondReason cond, CondMessage cond))"
  by (auto simp: condition_set_def set_condition_at_verdict)

lemma condition_set_distinct:
  "condition_set cs cond cs' \<Longrightarrow> distinct (map CondType cs) \<Longrightarrow> distinct (map CondType cs')"
  by (auto simp: condition_set_def set_condition_at_types)

section \<open>What a status write reports\<close>

text \<open>
  \<open>cond_updated env t v env'\<close>: \<open>env'\<close> is \<open>env\<close> with verdict \<open>v\<close> for condition type \<open>t\<close>.
  \<open>status_written env S c c'\<close>: the only possible change is the status of the stored environment,
  to one that satisfies \<open>S\<close>, and only if nobody has written the object since it was read.
\<close>

definition cond_updated :: "dev_environment \<Rightarrow> string \<Rightarrow> condition_status \<times> string \<times> string \<Rightarrow>
    dev_environment \<Rightarrow> bool" where
  "cond_updated env t v env' \<longleftrightarrow>
     (\<exists>cs. env' = env\<lparr>Status := (Status env)\<lparr>Conditions := cs\<rparr>\<rparr> \<and>
        (distinct (map CondType (Conditions (Status env))) \<longrightarrow> distinct (map CondType cs)) \<and>
        verdict cs = (verdict (Conditions (Status env)))(t := Some v))"

definition status_written :: "dev_environment \<Rightarrow> (dev_environment_status \<Rightarrow> bool) \<Rightarrow>
    cluster \<Rightarrow> cluster \<Rightarrow> bool" where
  "status_written env S c c' \<longleftrightarrow>
     c' = c \<or> (\<exists>cur v st. S st \<and> cl_envs c (obj_key env) = Some cur \<and>
        ResourceVersion cur = ResourceVersion env \<and>
        c' = c\<lparr>cl_envs := (cl_envs c)(obj_key env \<mapsto> cur\<lparr>Status := st, ResourceVersion := v\<rparr>)\<rparr>)"

definition status_pass :: "dev_environment \<Rightarrow> (dev_environment_status \<Rightarrow> bool) \<Rightarrow>
    cluster \<Rightarrow> go_error + unit \<Rightarrow> cluster \<Rightarrow> bool" where
  "status_pass env S c res c' \<longleftrightarrow> status_written env S c c' \<and> (\<forall>e. res = Inl e \<longrightarrow> \<not> is_conflict e)"

lemma status_written_refl [simp]: "status_written env S c c"
  by (simp add: status_written_def)

lemma status_written_update:
  "update_status_effect e c obj c' \<Longrightarrow> obj_key e = obj_key env \<Longrightarrow> S (Status e) \<Longrightarrow>
   ResourceVersion e = ResourceVersion env \<Longrightarrow> status_written env S c c'"
  by (auto simp: update_status_effect_def status_written_def)

lemma is_conflict_Wrapf [simp]: "is_conflict (Wrapf p e) \<longleftrightarrow> is_conflict e"
  by (simp add: is_conflict_def)

text \<open>What \<open>workloadProblems\<close> can have seen: each of the two lists may have failed.\<close>

definition problems_seen :: "dev_environment \<Rightarrow> cluster \<Rightarrow> string list \<Rightarrow> bool" where
  "problems_seen env c ps \<longleftrightarrow> (\<exists>podsKnown pods ds.
     (if podsKnown
      then set pods = {p. cl_pods c (TargetNamespace env, Name p) = Some p \<and> selects (problem_selector env) p}
      else pods = []) \<and>
     (ds = [] \<or> set ds =
        {d. cl_deployments c (TargetNamespace env, Name d) = Some d \<and> selects (problem_selector env) d}) \<and>
     ps = problemList (Services (Spec env)) (stalledPass podsKnown ds (podPass pods [])))"

definition problem_verdicts :: "bool \<Rightarrow> string \<Rightarrow> string list \<Rightarrow>
    (string \<rightharpoonup> condition_status \<times> string \<times> string) \<Rightarrow> (string \<rightharpoonup> condition_status \<times> string \<times> string)" where
  "problem_verdicts allReady message problems m =
     (if problems \<noteq> []
      then m(ConditionProgressing \<mapsto> (ConditionFalse, ''WorkloadUnhealthy'', join problems ''; ''),
             ConditionDegraded \<mapsto> (ConditionTrue, ''WorkloadUnhealthy'', join problems ''; ''))
      else m(ConditionProgressing \<mapsto>
               (if allReady then (ConditionFalse, ''Provisioned'', message)
                else (ConditionTrue, ''Provisioning'', message)),
             ConditionDegraded \<mapsto>
               (ConditionFalse, ''ReconcileSucceeded'', ''Reconciliation completed without error'')))"

definition available_verdict :: "bool \<Rightarrow> string \<Rightarrow> condition_status \<times> string \<times> string" where
  "available_verdict allReady message =
     (if allReady then (ConditionTrue, ''EnvironmentReady'', message)
      else (ConditionFalse, ''ServicesNotReady'', message))"

definition provisioned_status ::
  "dev_environment \<Rightarrow> int32 \<Rightarrow> cluster \<Rightarrow> dev_environment_status \<Rightarrow> bool" where
  "provisioned_status env ready c st \<longleftrightarrow>
     (let n = total_services env; message = readyMessage ready n in
        Phase st = (if ready = n then PhaseReady else PhaseProvisioning) \<and>
        StatusNamespace st = TargetNamespace env \<and> ReadyServices st = ready \<and> TotalServices st = n \<and>
        ObservedGeneration st = Generation env \<and>
        (distinct (map CondType (Conditions (Status env))) \<longrightarrow> distinct (map CondType (Conditions st))) \<and>
        (\<exists>problems. (if ready = n then problems = [] else problems_seen env c problems) \<and>
           verdict (Conditions st) = problem_verdicts (ready = n) message problems
             ((verdict (Conditions (Status env)))
                (ConditionAvailable \<mapsto> available_verdict (ready = n) message))))"

definition failed_status :: "dev_environment \<Rightarrow> go_error \<Rightarrow> dev_environment_status \<Rightarrow> bool" where
  "failed_status env cause st \<longleftrightarrow>
     Phase st = PhaseFailed \<and> ObservedGeneration st = Generation env \<and>
     StatusNamespace st = StatusNamespace (Status env) \<and>
     ReadyServices st = ReadyServices (Status env) \<and> TotalServices st = TotalServices (Status env) \<and>
     (distinct (map CondType (Conditions (Status env))) \<longrightarrow> distinct (map CondType (Conditions st))) \<and>
     verdict (Conditions st) = (verdict (Conditions (Status env)))
       (ConditionAvailable \<mapsto> (ConditionFalse, ''ProvisioningFailed'', error_text cause),
        ConditionProgressing \<mapsto> (ConditionFalse, ''ProvisioningFailed'', error_text cause),
        ConditionDegraded \<mapsto> (ConditionTrue, ''ReconcileFailed'', error_text cause))"

lemma cond_updatedE:
  assumes "cond_updated env t v env'"
  obtains cs where "env' = env\<lparr>Status := (Status env)\<lparr>Conditions := cs\<rparr>\<rparr>"
    "distinct (map CondType (Conditions (Status env))) \<longrightarrow> distinct (map CondType cs)"
    "verdict cs = (verdict (Conditions (Status env)))(t \<mapsto> v)"
  using assms unfolding cond_updated_def by blast

context env_api begin

lemma setCondition_step:
  assumes "\<And>env'. cond_updated env t (st, reason, message) env' \<Longrightarrow> hoare view ((=) c) (f env') Q"
  shows "hoare view ((=) c) (State_Monad.bind (setCondition r env t st reason message) f) Q"
proof (rule hoare_step_at)
  let ?cond = "\<lparr>CondType = t, CondStatus = st, CondReason = reason, CondMessage = message,
        CondObservedGeneration = Generation env, LastTransitionTime = 0\<rparr>"
  show "hoare view ((=) c) (setCondition r env t st reason message)
      (\<lambda>env' c'. c' = c \<and> cond_updated env t (st, reason, message) env')"
    unfolding setCondition_def
  proof (rule hoare_step_at [OF set_status_condition_law])
    fix cs c'
    assume "c' = c \<and> condition_set (Conditions (Status env)) ?cond cs"
    then have "c' = c" and cs: "condition_set (Conditions (Status env)) ?cond cs" by simp_all
    have "verdict cs = (verdict (Conditions (Status env)))(t := Some (st, reason, message))"
      using condition_set_verdict [OF cs] by simp
    then have "cond_updated env t (st, reason, message) (env\<lparr>Status := (Status env)\<lparr>Conditions := cs\<rparr>\<rparr>)"
      using condition_set_distinct [OF cs] unfolding cond_updated_def by blast
    then show "hoare view ((=) c') (State_Monad.return (env\<lparr>Status := (Status env)\<lparr>Conditions := cs\<rparr>\<rparr>))
        (\<lambda>env' c'. c' = c \<and> cond_updated env t (st, reason, message) env')"
      using \<open>c' = c\<close> by (intro hoare_return_eq) simp
  qed
qed (use assms in blast)

lemma patchStatus_spec:
  assumes "obj_key e = obj_key env" "ResourceVersion e = ResourceVersion env" "S (Status e)"
  shows "hoare view ((=) c) (patchStatus r e) (status_pass env S c)"
proof -
  have written: "status_pass env S c res c'"
    if "update_status_effect e c obj c'" "\<forall>e. res = Inl e \<longrightarrow> \<not> is_conflict e" for res obj c'
    using that status_written_update [where S = S, OF that(1) assms(1,3,2)] by (simp add: status_pass_def)
  have same: "status_pass env S c res c" if "\<forall>e. res = Inl e \<longrightarrow> \<not> is_conflict e" for res
    using that by (simp add: status_pass_def)
  show ?thesis
    unfolding patchStatus_def
    by (auto intro!: write_step [OF update_env_status_law] hoare_if hoare_return_eq same elim!: written)
qed

lemma hoare_two_conditions:
  assumes "\<And>cs. (distinct (map CondType (Conditions (Status e))) \<longrightarrow> distinct (map CondType cs)) \<Longrightarrow>
      verdict cs = (verdict (Conditions (Status e)))(t1 \<mapsto> (s1, r1, m1), t2 \<mapsto> (s2, r2, m2)) \<Longrightarrow>
      S ((Status e)\<lparr>Conditions := cs\<rparr>)"
    and "obj_key e = obj_key env" "ResourceVersion e = ResourceVersion env"
  shows "hoare view ((=) c) (do {
      e1 \<leftarrow> setCondition r e t1 s1 r1 m1;
      e2 \<leftarrow> setCondition r e1 t2 s2 r2 m2;
      patchStatus r e2 }) (status_pass env S c)"
proof (rule setCondition_step, erule cond_updatedE, hypsubst)
  fix cs1
  assume cs1: "distinct (map CondType (Conditions (Status e))) \<longrightarrow> distinct (map CondType cs1)"
    "verdict cs1 = (verdict (Conditions (Status e)))(t1 \<mapsto> (s1, r1, m1))"
  let ?e1 = "e\<lparr>Status := (Status e)\<lparr>Conditions := cs1\<rparr>\<rparr>"
  show "hoare view ((=) c) (State_Monad.bind (setCondition r ?e1 t2 s2 r2 m2) (patchStatus r)) (status_pass env S c)"
  proof (rule setCondition_step, erule cond_updatedE, hypsubst)
    fix cs2
    assume cs2: "distinct (map CondType (Conditions (Status ?e1))) \<longrightarrow> distinct (map CondType cs2)"
      "verdict cs2 = (verdict (Conditions (Status ?e1)))(t2 \<mapsto> (s2, r2, m2))"
    show "hoare view ((=) c) (patchStatus r (?e1\<lparr>Status := (Status ?e1)\<lparr>Conditions := cs2\<rparr>\<rparr>)) (status_pass env S c)"
      using assms(1) [of cs2] assms(2,3) cs1 cs2
      by (intro patchStatus_spec) (simp_all add: obj_key_def)
  qed
qed

lemma hoare_end: "hoare view ((=) c) m (\<lambda>r c'. c' = c \<and> R r) \<Longrightarrow>
    (\<And>x. R x \<Longrightarrow> hoare view ((=) c) (f x) Q) \<Longrightarrow> hoare view ((=) c) (State_Monad.bind m f) Q"
  by (erule hoare_step_at) auto

end

section \<open>The report of a pass\<close>

locale status_api = env_api r view + workload_api r view admit_deploy admit_svc
  for r :: "'w reconciler" and view :: "'w \<Rightarrow> cluster" and admit_deploy admit_svc

context status_api begin

lemma workloadProblems_spec:
  "hoare view ((=) c) (workloadProblems r env (TargetNamespace env))
     (\<lambda>ps c'. c' = c \<and> problems_seen env c ps)"
proof -
  let ?ns = "TargetNamespace env"
  have stalled: "hoare view ((=) c) (addStalledServices r env ?ns byService podsKnown)
      (\<lambda>m c'. c' = c \<and> (\<exists>ds. (ds = [] \<or> set ds =
         {d. cl_deployments c (?ns, Name d) = Some d \<and> selects (problem_selector env) d}) \<and>
         m = stalledPass podsKnown ds byService))" for byService podsKnown
    unfolding addStalledServices_def
    by (rule list_step [OF list_deployments_law]; simp only: sum.case; rule hoare_return_eq)
       (auto intro: exI [of _ "[]"] simp: stalledPass_def)
  have seen: "problems_seen env c (problemList (Services (Spec env)) (stalledPass podsKnown ds (podPass pods [])))"
    if "if podsKnown
        then set pods = {p. cl_pods c (?ns, Name p) = Some p \<and> selects (problem_selector env) p} else pods = []"
      "ds = [] \<or> set ds = {d. cl_deployments c (?ns, Name d) = Some d \<and> selects (problem_selector env) d}"
    for podsKnown pods ds
    using that unfolding problems_seen_def by blast
  show ?thesis
    unfolding workloadProblems_def Let_def
  proof (rule list_step [OF list_pods_law], goal_cases)
    case (1 pods)
    then show ?case
      by (auto intro!: hoare_end [OF stalled] hoare_return_eq seen [where podsKnown = True])
  next
    case (2 e)
    show ?case
      by (auto intro!: hoare_end [OF stalled] hoare_return_eq seen [where podsKnown = False])
  qed
qed

lemma problems_seen_status: "problems_seen (env\<lparr>Status := st\<rparr>) c ps = problems_seen env c ps"
  by (simp add: problems_seen_def TargetNamespace_def problem_selector_def)

lemma reportProblems_spec:
  assumes "\<And>cs. (distinct (map CondType (Conditions (Status e))) \<longrightarrow> distinct (map CondType cs)) \<Longrightarrow>
      verdict cs = problem_verdicts allReady message problems (verdict (Conditions (Status e))) \<Longrightarrow>
      S ((Status e)\<lparr>Conditions := cs\<rparr>)"
    and "obj_key e = obj_key env" "ResourceVersion e = ResourceVersion env"
  shows "hoare view ((=) c) (reportProblems r e allReady message problems) (status_pass env S c)"
  unfolding reportProblems_def Let_def
  by (rule hoare_if; rule hoare_two_conditions [OF _ assms(2,3)])
     (use assms(1) in \<open>auto simp: problem_verdicts_def boolStatus_def reasonFor_def\<close>)

lemma setProvisioned_spec:
  "hoare view ((=) c) (setProvisioned r env ready)
    (status_pass env (provisioned_status env ready c) c)"
  unfolding setProvisioned_def Let_def
proof (rule setCondition_step, erule cond_updatedE, hypsubst)
  let ?n = "total_services env" and ?base = "provisionedFields env ready"
  let ?message = "readyMessage ready ?n"
  fix cs
  assume cs: "distinct (map CondType (Conditions (Status ?base))) \<longrightarrow> distinct (map CondType cs)"
    "verdict cs = (verdict (Conditions (Status ?base)))(ConditionAvailable \<mapsto>
       (boolStatus (ready = ?n), reasonFor (ready = ?n) ''EnvironmentReady'' ''ServicesNotReady'', ?message))"
  let ?e = "?base\<lparr>Status := (Status ?base)\<lparr>Conditions := cs\<rparr>\<rparr>"
  have e: "TargetNamespace ?e = TargetNamespace env" "workloadProblems r ?e = workloadProblems r env"
    "obj_key ?e = obj_key env" "ResourceVersion ?e = ResourceVersion env"
    by (simp_all add: provisionedFields_def Let_def TargetNamespace_def obj_key_def fun_eq_iff
        workloadProblems_def addStalledServices_def problem_selector_def)
  have report: "hoare view ((=) c) (reportProblems r ?e (ready = ?n) ?message problems)
      (status_pass env (provisioned_status env ready c) c)"
    if "if ready = ?n then problems = [] else problems_seen env c problems" for problems
  proof (rule reportProblems_spec [OF _ e(3,4)])
    fix cs'
    assume cs': "distinct (map CondType (Conditions (Status ?e))) \<longrightarrow> distinct (map CondType cs')"
      "verdict cs' = problem_verdicts (ready = ?n) ?message problems (verdict (Conditions (Status ?e)))"
    have "verdict cs' = problem_verdicts (ready = ?n) ?message problems ((verdict (Conditions (Status env)))
        (ConditionAvailable \<mapsto> available_verdict (ready = ?n) ?message))"
      using cs(2) cs'(2)
      by (simp add: provisionedFields_def Let_def available_verdict_def boolStatus_def reasonFor_def
          split: if_splits)
    then show "provisioned_status env ready c ((Status ?e)\<lparr>Conditions := cs'\<rparr>)"
      unfolding provisioned_status_def Let_def using cs'(1) cs(1)
      by (intro conjI exI [of _ problems] that) (simp_all add: provisionedFields_def Let_def)
  qed
  show "hoare view ((=) c) (State_Monad.bind
        (if ready \<noteq> ?n then workloadProblems r ?e (TargetNamespace ?e) else State_Monad.return [])
        (reportProblems r ?e (ready = ?n) ?message)) (status_pass env (provisioned_status env ready c) c)"
  proof (cases "ready = ?n")
    case True
    then show ?thesis using report [of "[]"] by simp
  next
    case False
    then show ?thesis
      unfolding e if_P [OF False] by (intro hoare_end [OF workloadProblems_spec] report) simp
  qed
qed

end

context env_api begin

lemma setFailed_spec:
  "hoare view ((=) c) (setFailed r env cause) (status_pass env (failed_status env cause) c)"
  unfolding setFailed_def Let_def
proof (rule setCondition_step, erule cond_updatedE, hypsubst,
    rule hoare_two_conditions)
qed (auto simp: failed_status_def obj_key_def)

end

end
