(* ===== verification/Reconcile.thy ===== *)
theory Reconcile
  imports Provision Status_Report
begin

text \<open>
  The entry point \<open>Reconcile\<close> and the teardown \<open>reconcileDelete\<close>, from
  \<open>internal/controller/devenvironment_controller.go\<close>. A call returns a result and possibly an
  error; a \<open>time.Duration\<close> is a count of nanoseconds.
\<close>

record ctrl_result =
  RequeueAfter :: int

definition no_result :: ctrl_result where
  "no_result = \<lparr>RequeueAfter = 0\<rparr>"

definition second :: int where "second = 1000000000"

definition notReadyRequeue :: int where "notReadyRequeue = 30 * second"

definition reconcileDelete ::
  "'w reconciler \<Rightarrow> dev_environment \<Rightarrow> ('w, ctrl_result \<times> go_error option) state" where
  "reconcileDelete r env =
     (if \<not> contains_finalizer (Helpers r) env finalizerName
      then State_Monad.return (no_result, None)
      else do {
        let release = do {
          updated \<leftarrow> update_env (Client r) (remove_finalizer (Helpers r) env finalizerName);
          case updated of
            Inl err \<Rightarrow> State_Monad.return (no_result, Some (Wrapf ''removing finalizer'' err))
          | Inr _ \<Rightarrow> State_Monad.return (no_result, None)
        };
        got \<leftarrow> get_namespace (Client r) (TargetNamespace env);
        case got of
          Inr ns \<Rightarrow>
            if owns env ns then
              if DeletionTimestamp ns = None then do {
                deleted \<leftarrow> delete_namespace (Client r) ns;
                case deleted of
                  Inl err \<Rightarrow>
                    if \<not> is_not_found err
                    then State_Monad.return (no_result,
                      Some (Wrapf (''deleting namespace '' @ quote (Name ns)) err))
                    else State_Monad.return (no_result, None)
                | Inr _ \<Rightarrow> State_Monad.return (no_result, None)
              }
              else State_Monad.return (no_result, None)
            else release
        | Inl err \<Rightarrow>
            if \<not> is_not_found err
            then State_Monad.return (no_result, Some (Wrapf ''getting namespace during delete'' err))
            else release
      })"

definition reconcileLive ::
  "'w reconciler \<Rightarrow> dev_environment \<Rightarrow> ('w, ctrl_result \<times> go_error option) state" where
  "reconcileLive r env = do {
     (ready, failed) \<leftarrow> reconcileEnvironment r env;
     case failed of
       Some err \<Rightarrow> do {
         reported \<leftarrow> setFailed r env err;
         case reported of
           Inl statusErr \<Rightarrow> State_Monad.return (no_result, Some statusErr)
         | Inr _ \<Rightarrow> State_Monad.return (no_result, Some err)
       }
     | None \<Rightarrow> do {
         reported \<leftarrow> setProvisioned r env ready;
         case reported of
           Inl err \<Rightarrow> State_Monad.return (no_result, Some err)
         | Inr _ \<Rightarrow>
             if ready <s total_services env
             then State_Monad.return (\<lparr>RequeueAfter = notReadyRequeue\<rparr>, None)
             else State_Monad.return (no_result, None)
       }
   }"

definition Reconcile ::
  "'w reconciler \<Rightarrow> request \<Rightarrow> ('w, ctrl_result \<times> go_error option) state" where
  "Reconcile r req = do {
     got \<leftarrow> get_env (Client r) (ReqNamespace req, ReqName req);
     case got of
       Inl err \<Rightarrow> State_Monad.return (no_result, ignore_not_found err)
     | Inr env \<Rightarrow>
         if DeletionTimestamp env \<noteq> None then reconcileDelete r env
         else if \<not> contains_finalizer (Helpers r) env finalizerName then do {
           updated \<leftarrow> update_env (Client r) (add_finalizer (Helpers r) env finalizerName);
           case updated of
             Inl err \<Rightarrow> State_Monad.return (no_result, Some (Wrapf ''adding finalizer'' err))
           | Inr env \<Rightarrow> reconcileLive r env
         }
         else reconcileLive r env
   }"

section \<open>Teardown\<close>

definition torn_down :: "dev_environment \<Rightarrow> cluster \<Rightarrow> bool" where
  "torn_down env c \<longleftrightarrow> (case cl_namespaces c (TargetNamespace env) of
     None \<Rightarrow> True | Some ns \<Rightarrow> \<not> owns env ns)"

definition without_finalizer :: "dev_environment \<Rightarrow> dev_environment" where
  "without_finalizer env = env\<lparr>Finalizers := filter (\<lambda>g. g \<noteq> finalizerName) (Finalizers env)\<rparr>"

definition delete_pass :: "dev_environment \<Rightarrow> cluster \<Rightarrow>
    ctrl_result \<times> go_error option \<Rightarrow> cluster \<Rightarrow> bool" where
  "delete_pass env c res c' \<longleftrightarrow> fst res = no_result \<and>
     (c' = c \<or>
      finalizerName \<in> set (Finalizers env) \<and> \<not> torn_down env c \<and>
        (\<exists>y. c' = c\<lparr>cl_namespaces := (cl_namespaces c)(TargetNamespace env := y)\<rparr> \<and> gone y \<and>
          (\<forall>ns. y = Some ns \<longrightarrow> owns env ns)) \<or>
      finalizerName \<in> set (Finalizers env) \<and> torn_down env c \<and>
        (\<exists>obj. update_env_effect (without_finalizer env) c obj c')) \<and>
     (snd res = None \<longrightarrow> finalizerName \<in> set (Finalizers env) \<longrightarrow>
        (if torn_down env c then \<exists>obj. update_env_effect (without_finalizer env) c obj c'
         else gone (cl_namespaces c' (TargetNamespace env))))"

lemma owns_relabel: "Labels x = Labels y \<Longrightarrow> owns env x = owns env y"
  by (simp add: owns_def)

lemma delete_pass_unchanged:
  "fst res = no_result \<Longrightarrow> snd res \<noteq> None \<or> finalizerName \<notin> set (Finalizers env) \<or>
     (\<exists>ns. cl_namespaces c (TargetNamespace env) = Some ns \<and> owns env ns \<and> DeletionTimestamp ns \<noteq> None) \<Longrightarrow>
   delete_pass env c res c"
  by (auto simp: delete_pass_def torn_down_def gone_def)

lemma delete_pass_deleted:
  assumes "delete_effect cl_namespaces cl_namespaces_update (TargetNamespace env) c u c'"
    and "cl_namespaces c (TargetNamespace env) = Some ns" "owns env ns"
    and "finalizerName \<in> set (Finalizers env)" and "fst res = no_result"
  shows "delete_pass env c res c'"
proof -
  have nt: "\<not> torn_down env c" using assms(2,3) by (simp add: torn_down_def)
  obtain y where y: "c' = c\<lparr>cl_namespaces := (cl_namespaces c)(TargetNamespace env := y)\<rparr>" "gone y"
      "\<forall>obj. y = Some obj \<longrightarrow> map_option Labels (cl_namespaces c (TargetNamespace env)) = Some (Labels obj)"
    using delete_effectD [OF assms(1)] by auto
  have "\<forall>n. y = Some n \<longrightarrow> owns env n" using y(3) assms(2,3) owns_relabel by fastforce
  then show ?thesis using nt y(1,2) assms(4,5) unfolding delete_pass_def by auto
qed

lemma delete_pass_released:
  "update_env_effect (without_finalizer env) c obj c' \<Longrightarrow> torn_down env c \<Longrightarrow>
   finalizerName \<in> set (Finalizers env) \<Longrightarrow> fst res = no_result \<Longrightarrow> delete_pass env c res c'"
  unfolding delete_pass_def by auto

context api_server begin

lemma reconcileDelete_spec:
  "hoare view ((=) c) (reconcileDelete r env) (delete_pass env c)"
proof (rule hoare_wf)
  assume wf: "wf_cluster c"
  have name: "Name ns = TargetNamespace env" if "cl_namespaces c (TargetNamespace env) = Some ns" for ns
    using wf that by (simp add: wf_cluster_def)
  have remove: "remove_finalizer (Helpers r) env finalizerName = without_finalizer env"
    by (simp add: remove_finalizer_law without_finalizer_def)
  have td: "torn_down env c"
    if "cl_namespaces c (TargetNamespace env) = None \<or>
        (\<exists>ns. cl_namespaces c (TargetNamespace env) = Some ns \<and> \<not> owns env ns)"
    using that by (auto simp: torn_down_def)
  have deleted: "delete_pass env c res c'"
    if "delete_effect cl_namespaces cl_namespaces_update (Name ns) c u c'"
      "cl_namespaces c (TargetNamespace env) = Some ns" "owns env ns"
      "finalizerName \<in> set (Finalizers env)" "fst res = no_result" for ns u c' res
    using that(1) unfolding name [OF that(2)] by (rule delete_pass_deleted) (rule that)+
  show ?thesis
    unfolding reconcileDelete_def Let_def contains_finalizer_law remove
    by (auto intro!: read_step [OF get_namespace_law] write_step [OF delete_namespace_law]
          write_step [OF update_env_law] hoare_if hoare_return_eq)
       ((erule deleted; simp; fail) | (erule delete_pass_released; (rule td)?; simp; fail) |
        (rule delete_pass_unchanged; simp; fail) | (simp add: name; fail))+
qed

end

section \<open>One pass\<close>

definition with_finalizer :: "dev_environment \<Rightarrow> dev_environment" where
  "with_finalizer env = env\<lparr>Finalizers := Finalizers env @ [finalizerName]\<rparr>"

definition live_pass :: "(deployment \<Rightarrow> deployment \<Rightarrow> bool) \<Rightarrow> (service \<Rightarrow> service \<Rightarrow> bool) \<Rightarrow>
    dev_environment \<Rightarrow> cluster \<Rightarrow> ctrl_result \<times> go_error option \<Rightarrow> cluster \<Rightarrow> bool" where
  "live_pass admit_d admit_v env c res c' \<longleftrightarrow>
     (\<exists>ready failed c1. environment_pass admit_d admit_v env c (ready, failed) c1 \<and>
       (case failed of
          Some e \<Rightarrow> status_written env (failed_status env e) c1 c' \<and> snd res \<noteq> None \<and> fst res = no_result
        | None \<Rightarrow> status_written env (provisioned_status env ready c1) c1 c' \<and>
            fst res = (if snd res = None \<and> ready <s total_services env
                       then \<lparr>RequeueAfter = notReadyRequeue\<rparr> else no_result)))"

definition reconcile_pass :: "(deployment \<Rightarrow> deployment \<Rightarrow> bool) \<Rightarrow> (service \<Rightarrow> service \<Rightarrow> bool) \<Rightarrow>
    request \<Rightarrow> cluster \<Rightarrow> ctrl_result \<times> go_error option \<Rightarrow> cluster \<Rightarrow> bool" where
  "reconcile_pass admit_d admit_v req c res c' \<longleftrightarrow>
     (case cl_envs c (ReqNamespace req, ReqName req) of
        None \<Rightarrow> c' = c \<and> fst res = no_result
      | Some env \<Rightarrow>
          c' = c \<and> fst res = no_result \<and> snd res \<noteq> None \<or>
          (if DeletionTimestamp env \<noteq> None then delete_pass env c res c'
           else if finalizerName \<in> set (Finalizers env) then live_pass admit_d admit_v env c res c'
           else (\<exists>obj c1. update_env_effect (with_finalizer env) c obj c1 \<and>
                   (c' = c1 \<and> fst res = no_result \<and> snd res \<noteq> None \<or>
                    live_pass admit_d admit_v obj c1 res c'))))"

context api_server begin

sublocale status_api r view admit_deploy admit_svc ..

lemma reconcileLive_spec:
  "hoare view ((=) c) (reconcileLive r env) (live_pass admit_deploy admit_svc env c)"
  unfolding reconcileLive_def
proof (rule count_step [OF reconcileEnvironment_spec]; simp only: prod.case option.case)
  fix ready err c1
  assume pass: "environment_pass admit_deploy admit_svc env c (ready, Some err) c1"
  have live: "live_pass admit_deploy admit_svc env c (no_result, Some e) c'"
    if "status_pass env (failed_status env err) c1 res c'" for res e c'
    using that pass unfolding live_pass_def status_pass_def by fastforce
  show "hoare view ((=) c1) (setFailed r env err \<bind>
      case_sum (\<lambda>statusErr. State_Monad.return (no_result, Some statusErr))
        (\<lambda>x. State_Monad.return (no_result, Some err))) (live_pass admit_deploy admit_svc env c)"
    by (rule call_step [OF setFailed_spec]; simp only: sum.case; rule hoare_return_eq; erule live)
next
  fix ready c1
  assume pass: "environment_pass admit_deploy admit_svc env c (ready, None) c1"
  have live: "live_pass admit_deploy admit_svc env c (rs, e) c'"
    if "status_pass env (provisioned_status env ready c1) c1 res c'"
      "rs = (if e = None \<and> ready <s total_services env then \<lparr>RequeueAfter = notReadyRequeue\<rparr> else no_result)"
    for res rs e c'
    using that pass unfolding live_pass_def status_pass_def by fastforce
  show "hoare view ((=) c1) (setProvisioned r env ready \<bind>
      case_sum (\<lambda>err. State_Monad.return (no_result, Some err))
        (\<lambda>x. if ready <s total_services env
             then State_Monad.return (\<lparr>RequeueAfter = notReadyRequeue\<rparr>, None)
             else State_Monad.return (no_result, None))) (live_pass admit_deploy admit_svc env c)"
    by (rule call_step [OF setProvisioned_spec]; simp only: sum.case; (rule hoare_if)?;
        rule hoare_return_eq; erule live; simp)
qed

lemma Reconcile_spec:
  "hoare view ((=) c) (Reconcile r req) (reconcile_pass admit_deploy admit_svc req c)"
proof (rule hoare_wf)
  let ?k = "(ReqNamespace req, ReqName req)"
  assume wf: "wf_cluster c"
  show ?thesis
    unfolding Reconcile_def contains_finalizer_law add_finalizer_law
  proof (rule read_step [OF get_env_law]; simp only: sum.case)
    fix env
    assume env: "cl_envs c ?k = Some env"
    then have key: "obj_key env = ?k" using wf unfolding wf_cluster_def keyed_def by blast
    have delete: "hoare view ((=) c) (reconcileDelete r env) (reconcile_pass admit_deploy admit_svc req c)"
      if "DeletionTimestamp env \<noteq> None"
      by (rule hoare_weaken [OF reconcileDelete_spec]) (auto simp: reconcile_pass_def env that)
    have live: "hoare view ((=) c) (reconcileLive r env) (reconcile_pass admit_deploy admit_svc req c)"
      if "\<not> DeletionTimestamp env \<noteq> None" "\<not> finalizerName \<notin> set (Finalizers env)"
      by (rule hoare_weaken [OF reconcileLive_spec]) (use that in \<open>auto simp: reconcile_pass_def env\<close>)
    have live_added: "hoare view ((=) c1) (reconcileLive r obj) (reconcile_pass admit_deploy admit_svc req c)"
      if "\<not> DeletionTimestamp env \<noteq> None" "finalizerName \<notin> set (Finalizers env)"
        "update_env_effect (with_finalizer env) c obj c1" for obj c1
      by (rule hoare_weaken [OF reconcileLive_spec]) (use that in \<open>auto simp: reconcile_pass_def env\<close>)
    have failed: "reconcile_pass admit_deploy admit_svc req c (no_result, Some e) c1"
      if "c1 = c \<or> \<not> DeletionTimestamp env \<noteq> None \<and> finalizerName \<notin> set (Finalizers env) \<and>
        (\<exists>obj. update_env_effect (with_finalizer env) c obj c1)" for e c1
      using that by (auto simp: reconcile_pass_def env)
    have added: "(if finalizerName \<in> set (Finalizers env) then env
        else env\<lparr>Finalizers := Finalizers env @ [finalizerName]\<rparr>) = with_finalizer env"
      if "finalizerName \<notin> set (Finalizers env)"
      using that by (simp add: with_finalizer_def)
    show "hoare view ((=) c)
      (if DeletionTimestamp env \<noteq> None then reconcileDelete r env
       else if finalizerName \<notin> set (Finalizers env)
       then update_env (Client r) (if finalizerName \<in> set (Finalizers env) then env
           else env\<lparr>Finalizers := Finalizers env @ [finalizerName]\<rparr>) \<bind>
         case_sum (\<lambda>err. State_Monad.return (no_result, Some (Wrapf ''adding finalizer'' err))) (reconcileLive r)
       else reconcileLive r env) (reconcile_pass admit_deploy admit_svc req c)"
    proof (intro hoare_if delete live)
      assume d: "\<not> DeletionTimestamp env \<noteq> None" and f: "finalizerName \<notin> set (Finalizers env)"
      show "hoare view ((=) c) (update_env (Client r) (if finalizerName \<in> set (Finalizers env) then env
           else env\<lparr>Finalizers := Finalizers env @ [finalizerName]\<rparr>) \<bind>
         case_sum (\<lambda>err. State_Monad.return (no_result, Some (Wrapf ''adding finalizer'' err))) (reconcileLive r))
         (reconcile_pass admit_deploy admit_svc req c)"
        unfolding added [OF f]
        by (rule write_step [OF update_env_law]; simp only: sum.case)
          (erule live_added [OF d f] | rule hoare_return_eq, rule failed, use d f in blast)+
    qed
  next
    fix e
    show "hoare view ((=) c) (State_Monad.return (no_result, ignore_not_found e))
        (reconcile_pass admit_deploy admit_svc req c)"
      if "is_not_found e \<Longrightarrow> cl_envs c ?k = None"
      using that
      by (intro hoare_return_eq) (auto simp: reconcile_pass_def ignore_not_found_def split: option.splits)
  qed
qed

end

interpretation mem_status: status_api mem_reconciler mem_view admit_deployment "(=)"
  by unfold_locales

section \<open>The environment records across a pass\<close>

text \<open>\<open>record_kept x y\<close>: at most the status of the record has changed.\<close>

definition record_kept :: "dev_environment option \<Rightarrow> dev_environment option \<Rightarrow> bool" where
  "record_kept x y \<longleftrightarrow> (case x of None \<Rightarrow> y = None
     | Some e \<Rightarrow> (\<exists>v st. y = Some (e\<lparr>Status := st, ResourceVersion := v\<rparr>)))"

lemma record_kept_refl [simp]: "record_kept x x"
proof (cases x)
  case (Some e)
  have "e = e\<lparr>Status := Status e, ResourceVersion := ResourceVersion e\<rparr>" by simp
  then show ?thesis unfolding record_kept_def Some option.case by blast
qed (simp add: record_kept_def)

lemma record_kept_finalizers:
  "record_kept (Some e) y \<Longrightarrow> \<exists>e'. y = Some e' \<and> Finalizers e' = Finalizers e"
  by (auto simp: record_kept_def)

text \<open>\<open>env_frame k c c'\<close>: apart from what happened to the record \<open>k\<close>, the records are untouched.\<close>

lemma status_written_records:
  "status_written env S c c' \<Longrightarrow> c' = c\<lparr>cl_envs := cl_envs c'\<rparr> \<and>
     (\<forall>k. record_kept (cl_envs c k) (cl_envs c' k)) \<and>
     (\<forall>k. k \<noteq> obj_key env \<longrightarrow> cl_envs c' k = cl_envs c k)"
  unfolding status_written_def
proof (elim disjE exE conjE)
  fix cur v st
  assume cur: "cl_envs c (obj_key env) = Some cur"
    and c': "c' = c\<lparr>cl_envs := (cl_envs c)(obj_key env \<mapsto> cur\<lparr>Status := st, ResourceVersion := v\<rparr>)\<rparr>"
  have "record_kept (cl_envs c k) (cl_envs c' k)" for k
  proof (cases "k = obj_key env")
    case True
    then show ?thesis using cur c' unfolding record_kept_def by auto
  qed (simp add: c')
  then show ?thesis using c' by simp
qed simp

lemma confined_envs: "confined env c c' \<Longrightarrow> cl_envs c' = cl_envs c"
  by (simp add: confined_def Let_def)

lemma live_passE:
  assumes "live_pass admit_d admit_v env c res c'"
  obtains ready failed c1 S where "environment_pass admit_d admit_v env c (ready, failed) c1"
    "status_written env S c1 c'"
    "if failed = None then fst res = (if snd res = None \<and> ready <s total_services env
       then \<lparr>RequeueAfter = notReadyRequeue\<rparr> else no_result)
     else snd res \<noteq> None \<and> fst res = no_result"
  using assms unfolding live_pass_def by (fastforce split: option.splits)

lemma live_pass_records:
  assumes "live_pass admit_d admit_v env c res c'"
  shows "(\<forall>k. record_kept (cl_envs c k) (cl_envs c' k)) \<and>
    (\<forall>k. k \<noteq> obj_key env \<longrightarrow> cl_envs c' k = cl_envs c k) \<and>
    (\<exists>c1. confined env c c1 \<and> c' = c1\<lparr>cl_envs := cl_envs c'\<rparr>)"
  using assms
proof (rule live_passE)
  fix ready failed c1 S
  assume pass: "environment_pass admit_d admit_v env c (ready, failed) c1"
    and st: "status_written env S c1 c'"
  then have "confined env c c1" by (simp add: environment_pass_def)
  then show ?thesis using status_written_records [OF st] confined_envs by metis
qed

lemma update_env_records:
  "update_env_effect e c obj c' \<Longrightarrow> c' = c\<lparr>cl_envs := cl_envs c'\<rparr> \<and>
     (\<forall>k. k \<noteq> obj_key e \<longrightarrow> cl_envs c' k = cl_envs c k)"
  by (auto simp: update_env_effect_def)

lemma without_finalizer_key [simp]: "obj_key (without_finalizer env) = obj_key env"
  by (simp add: without_finalizer_def obj_key_def)

lemma with_finalizer_key [simp]: "obj_key (with_finalizer env) = obj_key env"
  by (simp add: with_finalizer_def obj_key_def)

text \<open>The finalizer is stored with an otherwise unchanged record.\<close>

lemma finalizer_added:
  assumes "update_env_effect (with_finalizer env) c obj c'"
    and "cl_envs c (obj_key env) = Some env" "DeletionTimestamp env = None"
  shows "cl_envs c' (obj_key env) = Some obj \<and> finalizerName \<in> set (Finalizers obj) \<and>
    obj_key obj = obj_key env \<and> Name obj = Name env \<and> Namespace obj = Namespace env \<and>
    Spec obj = Spec env \<and> DeletionTimestamp obj = None"
  using assms by (auto simp: update_env_effect_def with_finalizer_def obj_key_def)

text \<open>What a pass does, by the state of the requested record.\<close>

lemma reconcile_pass_cases:
  assumes pass: "reconcile_pass admit_d admit_v req c res c'" and wf: "wf_cluster c"
  obtains (idle) "c' = c" "fst res = no_result"
      "cl_envs c (ReqNamespace req, ReqName req) = None \<or> snd res \<noteq> None"
    | (teardown) env where "cl_envs c (ReqNamespace req, ReqName req) = Some env"
        "obj_key env = (ReqNamespace req, ReqName req)" "DeletionTimestamp env \<noteq> None" "delete_pass env c res c'"
    | (live) env obj c1 where "cl_envs c (ReqNamespace req, ReqName req) = Some env"
        "obj_key env = (ReqNamespace req, ReqName req)" "DeletionTimestamp env = None"
        "c1 = c\<lparr>cl_envs := cl_envs c1\<rparr>" "\<And>k. k \<noteq> obj_key env \<Longrightarrow> cl_envs c1 k = cl_envs c k"
        "cl_envs c1 (obj_key env) = Some obj" "finalizerName \<in> set (Finalizers obj)"
        "obj_key obj = obj_key env" "Name obj = Name env" "Namespace obj = Namespace env"
        "Spec obj = Spec env" "DeletionTimestamp obj = None"
        "c' = c1 \<and> fst res = no_result \<and> snd res \<noteq> None \<or> live_pass admit_d admit_v obj c1 res c'"
proof (cases "cl_envs c (ReqNamespace req, ReqName req)")
  case None
  then show ?thesis using pass idle by (simp add: reconcile_pass_def)
next
  case (Some env)
  then have key: "obj_key env = (ReqNamespace req, ReqName req)"
    using wf unfolding wf_cluster_def keyed_def by blast
  show ?thesis
  proof (cases "c' = c \<and> fst res = no_result \<and> snd res \<noteq> None")
    case True
    then show ?thesis using idle by blast
  next
    case busy: False
    show ?thesis
    proof (cases "DeletionTimestamp env = None")
      case False
      then show ?thesis using pass busy Some key teardown unfolding reconcile_pass_def by auto
    next
      case d: True
      show ?thesis
      proof (cases "finalizerName \<in> set (Finalizers env)")
        case True
        have "live_pass admit_d admit_v env c res c'"
          using pass busy Some d True unfolding reconcile_pass_def by auto
        then show ?thesis by (intro live [of env c env]) (use Some key d True in simp_all)
      next
        case False
        then obtain obj c1 where c1: "update_env_effect (with_finalizer env) c obj c1"
          and rest: "c' = c1 \<and> fst res = no_result \<and> snd res \<noteq> None \<or> live_pass admit_d admit_v obj c1 res c'"
          using pass busy Some d unfolding reconcile_pass_def by auto
        have "cl_envs c (obj_key env) = Some env" using Some key by simp
        note obj = finalizer_added [OF c1 this d]
        show ?thesis
          by (rule live [OF Some key d, of c1 obj])
            (use obj rest update_env_records [OF c1] in \<open>simp_all del: split_paired_All\<close>)
      qed
    qed
  qed
qed

lemma owns_env_cong: "Name e = Name env \<Longrightarrow> Namespace e = Namespace env \<Longrightarrow> owns e x = owns env x"
  by (simp add: owns_def)

lemma target_cong: "Name e = Name env \<Longrightarrow> Spec e = Spec env \<Longrightarrow> TargetNamespace e = TargetNamespace env"
  by (simp add: TargetNamespace_def)

lemma wf_view_server:
  "api_server r view admit_ns admit_pvc admit_deploy admit_svc \<Longrightarrow> wf_cluster (view w)"
  by (drule api_server_parts(6)) (simp add: env_api_def cluster_api_def)

lemma Reconcile_cases:
  assumes "api_server r view admit_ns admit_pvc admit_deploy admit_svc"
    and "run_state (Reconcile r req) w = (res, w')"
  shows "reconcile_pass admit_deploy admit_svc req (view w) res (view w')" "wf_cluster (view w)"
  using hoareD [OF api_server.Reconcile_spec [OF assms(1)] refl assms(2)] wf_view_server [OF assms(1)]
  by simp_all

lemma update_released:
  assumes "update_env_effect (without_finalizer env) c obj c'" "torn_down env c"
  shows "torn_down env c'"
  using assms update_env_records [OF assms(1)] unfolding torn_down_def
  by (metis (no_types, lifting) cluster.select_convs(2) cluster.surjective cluster.update_convs(1))

lemma namespaces_frame: "c' = c\<lparr>cl_envs := f\<rparr> \<Longrightarrow> cl_namespaces c' = cl_namespaces c"
  by simp

lemma update_env_namespaces:
  "update_env_effect e c obj c' \<Longrightarrow> cl_namespaces c' = cl_namespaces c"
  by (drule update_env_records, elim conjE) (rule namespaces_frame)

text \<open>The three things a teardown pass can do.\<close>

lemma delete_pass_cases:
  assumes "delete_pass env c res c'"
  obtains (unchanged) "c' = c"
    | (deleted) y where "c' = c\<lparr>cl_namespaces := (cl_namespaces c)(TargetNamespace env := y)\<rparr>"
        "gone y" "\<not> torn_down env c" "\<And>ns. y = Some ns \<Longrightarrow> owns env ns"
    | (released) obj where "update_env_effect (without_finalizer env) c obj c'" "torn_down env c"
        "finalizerName \<in> set (Finalizers env)"
  using assms unfolding delete_pass_def by blast

section \<open>Properties\<close>

text \<open>
  C3. The finalizer lands before anything is created. After any pass, successful or not, either
  nothing but DevEnvironment records has changed, or the requested record is stored and carries
  the finalizer; so a crash at any point cannot leave a namespace behind with no record that
  holds it.
\<close>

theorem finalizer_before_effects:
  assumes "api_server r view admit_ns admit_pvc admit_deploy admit_svc"
    and "run_state (Reconcile r req) w = (res, w')"
  shows "view w' = (view w)\<lparr>cl_envs := cl_envs (view w')\<rparr> \<or>
    (\<exists>e. cl_envs (view w') (ReqNamespace req, ReqName req) = Some e \<and> finalizerName \<in> set (Finalizers e))"
  using Reconcile_cases [OF assms]
proof (rule reconcile_pass_cases)
  assume "view w' = view w"
  then show ?thesis by simp
next
  fix env
  assume env: "cl_envs (view w) (ReqNamespace req, ReqName req) = Some env"
    and "delete_pass env (view w) res (view w')"
  then show ?thesis
    unfolding delete_pass_def using update_env_records [of "without_finalizer env"] by auto
next
  fix env obj c1
  assume key: "obj_key env = (ReqNamespace req, ReqName req)"
    and obj: "cl_envs c1 (obj_key env) = Some obj" "finalizerName \<in> set (Finalizers obj)"
    and c1: "c1 = (view w)\<lparr>cl_envs := cl_envs c1\<rparr>"
    and "view w' = c1 \<and> fst res = no_result \<and> snd res \<noteq> None \<or>
      live_pass admit_deploy admit_svc obj c1 res (view w')"
  then consider "view w' = c1" | "live_pass admit_deploy admit_svc obj c1 res (view w')" by blast
  then show ?thesis
  proof cases
    case 1
    then show ?thesis using c1 by simp
  next
    case 2
    then have "record_kept (Some obj) (cl_envs (view w') (ReqNamespace req, ReqName req))"
      using live_pass_records [OF 2] obj key by metis
    then show ?thesis using obj(2) record_kept_finalizers by fastforce
  qed
qed

definition sample_request :: request where
  "sample_request = \<lparr>ReqNamespace = ''default'', ReqName = ''team-alpha''\<rparr>"

definition start_mem :: mem where
  "start_mem = empty_mem\<lparr>m_envs := [sample_env]\<rparr>"

definition first_pass :: "(ctrl_result \<times> go_error option) \<times> mem" where
  "first_pass = run_state (Reconcile mem_reconciler sample_request) start_mem"

text \<open>A run whose provisioning breaks after the namespace was created.\<close>

definition broken_pass :: "(ctrl_result \<times> go_error option) \<times> mem" where
  "broken_pass = run_state (Reconcile mem_reconciler sample_request)
     (start_mem\<lparr>m_faults := [Served, Served, Served, Served, Broken]\<rparr>)"

lemma mem_run: "run_state m w = (fst (run_state m w), snd (run_state m w))"
  by simp

theorem finalizer_before_effects_witness:
  "map Name (m_namespaces (snd broken_pass)) = [''team-alpha''] \<and> snd (fst broken_pass) \<noteq> None \<and>
   (\<exists>e. cl_envs (mem_view (snd broken_pass)) (''default'', ''team-alpha'') = Some e \<and>
      finalizerName \<in> set (Finalizers e))"
proof -
  have names: "map Name (m_namespaces (snd broken_pass)) = [''team-alpha'']" by code_simp
  have err: "snd (fst broken_pass) \<noteq> None" by code_simp
  let ?w = "start_mem\<lparr>m_faults := [Served, Served, Served, Served, Broken]\<rparr>"
  have "cl_namespaces (mem_view (snd broken_pass)) \<noteq> cl_namespaces (mem_view ?w)"
  proof
    assume eq: "cl_namespaces (mem_view (snd broken_pass)) = cl_namespaces (mem_view ?w)"
    have "lookup Name (m_namespaces (snd broken_pass)) ''team-alpha'' \<noteq> None"
      using names by (cases "m_namespaces (snd broken_pass)") auto
    then show False using fun_cong [OF eq, of "''team-alpha''"]
      by (simp add: mem_view_def start_mem_def empty_mem_def)
  qed
  then have "mem_view (snd broken_pass) \<noteq> (mem_view ?w)\<lparr>cl_envs := cl_envs (mem_view (snd broken_pass))\<rparr>"
    by (metis cluster.select_convs(2) cluster.surjective cluster.update_convs(1))
  then show ?thesis
    using finalizer_before_effects [OF mem_api_server mem_run, of sample_request ?w] names err
    by (simp add: broken_pass_def sample_request_def)
qed

text \<open>
  C4. The finalizer is released last. If a record carries the finalizer before a pass and is
  gone, or no longer carries it, afterwards, then it was under deletion and its target namespace
  no longer exists or is not the environment's.
\<close>

theorem finalizer_released_last:
  assumes "api_server r view admit_ns admit_pvc admit_deploy admit_svc"
    and "run_state (Reconcile r req) w = (res, w')"
    and "cl_envs (view w) k = Some e" and "finalizerName \<in> set (Finalizers e)"
    and "\<nexists>e'. cl_envs (view w') k = Some e' \<and> finalizerName \<in> set (Finalizers e')"
  shows "DeletionTimestamp e \<noteq> None \<and> torn_down e (view w')"
  using Reconcile_cases [OF assms(1,2)]
proof (rule reconcile_pass_cases)
  assume "view w' = view w"
  then show ?thesis using assms(3-5) by simp
next
  fix env
  assume env: "cl_envs (view w) (ReqNamespace req, ReqName req) = Some env"
      "obj_key env = (ReqNamespace req, ReqName req)" "DeletionTimestamp env \<noteq> None"
    and pass: "delete_pass env (view w) res (view w')"
  have changed: "cl_envs (view w') k \<noteq> cl_envs (view w) k" using assms(3-5) by auto
  then obtain obj where upd: "update_env_effect (without_finalizer env) (view w) obj (view w')"
    and td: "torn_down env (view w)"
    using pass unfolding delete_pass_def by auto
  have "k = obj_key env" using changed update_env_records [OF upd] by (metis without_finalizer_key)
  then have "e = env" using assms(3) env(1,2) by simp
  then show ?thesis using env(3) update_released [OF upd td] by simp
next
  fix env obj c1
  assume c1: "\<And>k. k \<noteq> obj_key env \<Longrightarrow> cl_envs c1 k = cl_envs (view w) k"
    and obj: "cl_envs c1 (obj_key env) = Some obj" "finalizerName \<in> set (Finalizers obj)"
    and rest: "view w' = c1 \<and> fst res = no_result \<and> snd res \<noteq> None \<or>
      live_pass admit_deploy admit_svc obj c1 res (view w')"
  have "\<exists>e'. cl_envs c1 k = Some e' \<and> finalizerName \<in> set (Finalizers e')"
    using c1 [of k] obj assms(3,4) by (cases "k = obj_key env") auto
  moreover have "record_kept (cl_envs c1 k) (cl_envs (view w') k)"
    using rest live_pass_records by (metis record_kept_refl)
  ultimately have "\<exists>e'. cl_envs (view w') k = Some e' \<and> finalizerName \<in> set (Finalizers e')"
    using record_kept_finalizers by fastforce
  then show ?thesis using assms(5) by blast
qed

text \<open>A record under deletion whose namespace is already gone: the pass releases it.\<close>

definition deleting_mem :: mem where
  "deleting_mem = empty_mem\<lparr>m_envs := [sample_env\<lparr>DeletionTimestamp := Some 1, Finalizers := [finalizerName]\<rparr>]\<rparr>"

definition release_pass :: "(ctrl_result \<times> go_error option) \<times> mem" where
  "release_pass = run_state (Reconcile mem_reconciler sample_request) deleting_mem"

theorem finalizer_released_last_witness:
  "m_envs (snd release_pass) = [] \<and>
   torn_down (sample_env\<lparr>DeletionTimestamp := Some 1, Finalizers := [finalizerName]\<rparr>) (mem_view (snd release_pass))"
proof -
  let ?e = "sample_env\<lparr>DeletionTimestamp := Some 1, Finalizers := [finalizerName]\<rparr>"
  have gone: "m_envs (snd release_pass) = []" by code_simp
  have "cl_envs (mem_view deleting_mem) (''default'', ''team-alpha'') = Some ?e"
    by (simp add: mem_view_def deleting_mem_def obj_key_def)
  moreover have "\<nexists>e'. cl_envs (mem_view (snd release_pass)) (''default'', ''team-alpha'') = Some e' \<and>
      finalizerName \<in> set (Finalizers e')"
    using gone by (simp add: mem_view_def)
  ultimately show ?thesis
    using finalizer_released_last [OF mem_api_server mem_run, of deleting_mem "(''default'', ''team-alpha'')" ?e
        sample_request] gone
    by (simp add: release_pass_def)
qed

text \<open>
  C5. Foreign namespaces are safe. A namespace that is not owned by the requested environment,
  by its manager, environment and owner-namespace labels, comes out of every pass unchanged:
  neither relabelled nor deleted, also while the environment is torn down.
\<close>

theorem foreign_namespaces_untouched:
  assumes "api_server r view admit_ns admit_pvc admit_deploy admit_svc"
    and "run_state (Reconcile r req) w = (res, w')"
    and "cl_namespaces (view w) n = Some obj"
    and "\<And>e. cl_envs (view w) (ReqNamespace req, ReqName req) = Some e \<Longrightarrow> \<not> owns e obj"
  shows "cl_namespaces (view w') n = Some obj"
  using Reconcile_cases [OF assms(1,2)]
proof (rule reconcile_pass_cases)
  assume "view w' = view w"
  then show ?thesis using assms(3) by simp
next
  fix env
  assume env: "cl_envs (view w) (ReqNamespace req, ReqName req) = Some env"
    and pass: "delete_pass env (view w) res (view w')"
  have foreign: "\<not> owns env obj" using assms(4) env by blast
  show ?thesis using pass
  proof (cases rule: delete_pass_cases)
    case (deleted y)
    then show ?thesis using foreign assms(3) by (auto simp: torn_down_def)
  qed (use assms(3) update_env_namespaces in simp_all)
next
  fix env e c1
  assume env: "cl_envs (view w) (ReqNamespace req, ReqName req) = Some env"
    and same: "Name e = Name env" "Namespace e = Namespace env"
    and c1: "c1 = (view w)\<lparr>cl_envs := cl_envs c1\<rparr>"
    and rest: "view w' = c1 \<and> fst res = no_result \<and> snd res \<noteq> None \<or>
      live_pass admit_deploy admit_svc e c1 res (view w')"
  have foreign: "\<not> owns e obj" using assms(4) env owns_env_cong [OF same] by blast
  have n: "cl_namespaces c1 n = Some obj" using c1 assms(3) by (metis cluster.select_convs(2) cluster.surjective cluster.update_convs(1))
  show ?thesis
  proof (cases "live_pass admit_deploy admit_svc e c1 res (view w')")
    case True
    then obtain c2 where c2: "confined e c1 c2" "view w' = c2\<lparr>cl_envs := cl_envs (view w')\<rparr>"
      using live_pass_records by blast
    have "cl_namespaces c2 n = Some obj"
      using c2(1) n foreign by (cases "n = TargetNamespace e") (auto simp: confined_def Let_def namespace_step_def)
    then show ?thesis using c2(2) by (metis cluster.select_convs(2) cluster.surjective cluster.update_convs(1))
  next
    case False
    then show ?thesis using rest n by simp
  qed
qed

definition foreign_teardown_mem :: mem where
  "foreign_teardown_mem = deleting_mem\<lparr>m_namespaces := [new_meta [] ''team-alpha'']\<rparr>"

theorem foreign_namespaces_untouched_witness:
  "let w' = snd (run_state (Reconcile mem_reconciler sample_request) foreign_teardown_mem)
   in cl_namespaces (mem_view w') ''team-alpha'' = Some (new_meta [] ''team-alpha'') \<and> m_envs w' = []"
proof -
  let ?run = "run_state (Reconcile mem_reconciler sample_request) foreign_teardown_mem"
  have gone: "m_envs (snd ?run) = []" by code_simp
  have ns: "cl_namespaces (mem_view foreign_teardown_mem) ''team-alpha'' = Some (new_meta [] ''team-alpha'')"
    by (simp add: mem_view_def foreign_teardown_mem_def deleting_mem_def new_meta_def)
  have foreign: "\<not> owns e (new_meta [] ''team-alpha'')" for e
    by (simp add: owns_def new_meta_def idx_def managerName_def)
  show ?thesis
    unfolding Let_def using foreign_namespaces_untouched [OF mem_api_server mem_run ns foreign] gone by blast
qed

text \<open>
  C15. Teardown only tears down. A pass over a record under deletion creates nothing and touches
  no workload, Secret, ConfigMap or claim: outside the records themselves it can at most delete
  the environment's own namespace, and it never asks for a requeue.
\<close>

theorem teardown_only_deletes:
  assumes "api_server r view admit_ns admit_pvc admit_deploy admit_svc"
    and "run_state (Reconcile r req) w = (res, w')"
    and "cl_envs (view w) (ReqNamespace req, ReqName req) = Some e" and "DeletionTimestamp e \<noteq> None"
  shows "fst res = no_result \<and>
    (\<exists>y. view w' = (view w)\<lparr>cl_envs := cl_envs (view w'),
         cl_namespaces := (cl_namespaces (view w))(TargetNamespace e := y)\<rparr> \<and>
       (y = cl_namespaces (view w) (TargetNamespace e) \<or> gone y \<and> \<not> torn_down e (view w)))"
  using Reconcile_cases [OF assms(1,2)]
proof (rule reconcile_pass_cases)
  assume "view w' = view w" "fst res = no_result"
  then show ?thesis by (simp add: exI [of _ "cl_namespaces (view w) (TargetNamespace e)"])
next
  fix env
  assume env: "cl_envs (view w) (ReqNamespace req, ReqName req) = Some env"
    and pass: "delete_pass env (view w) res (view w')"
  have e: "env = e" using env assms(3) by simp
  have "fst res = no_result" using pass by (simp add: delete_pass_def)
  moreover from pass have "\<exists>y. view w' = (view w)\<lparr>cl_envs := cl_envs (view w'),
         cl_namespaces := (cl_namespaces (view w))(TargetNamespace e := y)\<rparr> \<and>
       (y = cl_namespaces (view w) (TargetNamespace e) \<or> gone y \<and> \<not> torn_down e (view w))"
    unfolding e
  proof (cases rule: delete_pass_cases)
    case unchanged
    then show ?thesis by (intro exI [of _ "cl_namespaces (view w) (TargetNamespace e)"]) simp
  next
    case (deleted y)
    then show ?thesis by (intro exI [of _ y]) simp
  next
    case (released obj)
    obtain f where "view w' = (view w)\<lparr>cl_envs := f\<rparr>" using update_env_records [OF released(1)] by blast
    then show ?thesis by (intro exI [of _ "cl_namespaces (view w) (TargetNamespace e)"]) simp
  qed
  ultimately show ?thesis by blast
next
  fix env
  assume "cl_envs (view w) (ReqNamespace req, ReqName req) = Some env" "DeletionTimestamp env = None"
  then show ?thesis using assms(3,4) by simp
qed

definition teardown_mem :: mem where
  "teardown_mem = (snd first_pass)\<lparr>m_envs := [sample_env\<lparr>DeletionTimestamp := Some 1, Finalizers := [finalizerName]\<rparr>]\<rparr>"

theorem teardown_only_deletes_witness:
  "let (res, w') = run_state (Reconcile mem_reconciler sample_request) teardown_mem
   in fst res = no_result \<and> m_namespaces w' = [] \<and> length (m_namespaces teardown_mem) = 1"
proof -
  let ?run = "run_state (Reconcile mem_reconciler sample_request) teardown_mem"
  let ?e = "sample_env\<lparr>DeletionTimestamp := Some 1, Finalizers := [finalizerName]\<rparr>"
  have ns: "m_namespaces (snd ?run) = []" "length (m_namespaces teardown_mem) = 1" by code_simp+
  have "cl_envs (mem_view teardown_mem) (ReqNamespace sample_request, ReqName sample_request) = Some ?e"
    by (simp add: mem_view_def teardown_mem_def obj_key_def sample_request_def)
  from teardown_only_deletes [OF mem_api_server mem_run this] have "fst (fst ?run) = no_result" by simp
  then show ?thesis using ns by (simp add: case_prod_beta)
qed

end
