(* ===== verification/Readiness.thy ===== *)
theory Readiness
  imports Reconcile
begin

text \<open>
  What the outcome of a pass of \<open>Reconcile\<close> says about the cluster it leaves behind: when
  the operator goes quiet, when it asks to be called again, and what the status it writes
  means. The theorems rest on the specification \<open>reconcile_pass\<close> of the previous theory.
\<close>

section \<open>Only name, namespace and spec of a record matter\<close>

definition same_request :: "dev_environment \<Rightarrow> dev_environment \<Rightarrow> bool" where
  "same_request e env \<longleftrightarrow> Name e = Name env \<and> Namespace e = Namespace env \<and> Spec e = Spec env"

lemma same_requestD:
  assumes "same_request e env"
  shows "TargetNamespace e = TargetNamespace env" "labels e = labels env"
    "configMapName e = configMapName env" "pvcName e = pvcName env" "Namespace e = Namespace env"
    "Spec e = Spec env" "prune_selector e = prune_selector env" "total_services e = total_services env"
  using assms
  by (simp_all add: same_request_def TargetNamespace_def labels_def Let_def configMapName_def pvcName_def
      prune_selector_def total_services_def fun_eq_iff)

lemma same_request_render:
  assumes "same_request e env"
  shows "mutateDeployment e svc = mutateDeployment env svc" "mutateService e svc = mutateService env svc"
proof -
  have "container e svc = container env svc" "volumes e svc = volumes env svc"
    "pullSecretRefs e svc = pullSecretRefs env svc" "applyFSGroup e svc = applyFSGroup env svc"
    "selector e svc = selector env svc"
    using assms same_requestD [OF assms]
    by (simp_all add: same_request_def container_def volumes_def pullSecretRefs_def pullSecrets_def
        applyFSGroup_def selector_def imageRef_def fun_eq_iff Let_def)
  then show "mutateDeployment e svc = mutateDeployment env svc" "mutateService e svc = mutateService env svc"
    by (simp_all add: mutateDeployment_def mutateService_def same_requestD [OF assms] fun_eq_iff Let_def)
qed

lemma same_request_provisioned:
  assumes "same_request e env"
  shows "provisioned admit_d admit_v e c = provisioned admit_d admit_v env c"
  by (simp add: provisioned_def Let_def same_requestD [OF assms] same_request_render [OF assms]
      labels_current_def config_synced_def secret_synced_def none_stale_def stale_def)

lemma provisioned_envs:
  "provisioned admit_d admit_v env (c\<lparr>cl_envs := f\<rparr>) = provisioned admit_d admit_v env c"
  by (simp add: provisioned_def Let_def)

section \<open>Counting\<close>

text \<open>Every service of \<open>env\<close> has its Deployment with all the replicas asked for.\<close>

definition all_up :: "dev_environment \<Rightarrow> cluster \<Rightarrow> bool" where
  "all_up env c \<longleftrightarrow> (\<forall>svc \<in> set (Services (Spec env)).
     service_up svc (cl_deployments c (TargetNamespace env, SvcName svc)))"

text \<open>The service list is counted with a 32-bit integer; no API server stores more entries.\<close>

definition countable :: "dev_environment \<Rightarrow> bool" where
  "countable env \<longleftrightarrow> length (Services (Spec env)) < 2 ^ 31"

lemma sint_of_nat_small: "n < 2 ^ 31 \<Longrightarrow> sint (of_nat n :: int32) = int n"
  by (simp add: signed_of_nat signed_take_bit_int_eq_self)

lemma length_filter_full: "length (filter P xs) = length xs \<longleftrightarrow> (\<forall>x \<in> set xs. P x)"
  by (induction xs) (auto, metis Suc_n_not_le_n length_filter_le)

lemma ready_count_sint:
  assumes "countable env"
  shows "sint (ready_count env c) = int (length (filter
      (\<lambda>svc. service_up svc (cl_deployments c (TargetNamespace env, SvcName svc))) (Services (Spec env))))"
    and "sint (total_services env) = int (length (Services (Spec env)))"
  using assms le_less_trans [OF length_filter_le] unfolding countable_def ready_count_def total_services_def
  by (blast intro: sint_of_nat_small)+

lemma ready_count_full:
  assumes "countable env"
  shows "ready_count env c = total_services env \<longleftrightarrow> all_up env c"
    and "ready_count env c <s total_services env \<longleftrightarrow> \<not> all_up env c"
proof -
  have "ready_count env c = total_services env \<longleftrightarrow>
      sint (ready_count env c) = sint (total_services env)"
    by (auto intro: signed_word_eqI)
  then show full: "ready_count env c = total_services env \<longleftrightarrow> all_up env c"
    by (simp add: ready_count_sint [OF assms] length_filter_full all_up_def)
  show "ready_count env c <s total_services env \<longleftrightarrow> \<not> all_up env c"
    using full length_filter_le [of _ "Services (Spec env)"]
    by (auto simp: word_sless_alt ready_count_sint [OF assms] length_filter_full all_up_def le_less)
qed

section \<open>Live passes\<close>

text \<open>A record that a pass provisions: it is stored under the request and not under deletion.\<close>

definition requested :: "request \<Rightarrow> cluster \<Rightarrow> dev_environment \<Rightarrow> bool" where
  "requested req c e \<longleftrightarrow>
     cl_envs c (ReqNamespace req, ReqName req) = Some e \<and> DeletionTimestamp e = None"

lemma live_pass_outcome:
  assumes "live_pass admit_d admit_v env c res c'"
  obtains (failed) cause c1 where "snd res \<noteq> None" "fst res = no_result"
      "status_written env (failed_status env cause) c1 c'" "cl_envs c1 = cl_envs c"
    | (provisioned) ready c1 where "status_written env (provisioned_status env ready c1) c1 c'"
      "cl_envs c1 = cl_envs c" "c' = c1\<lparr>cl_envs := cl_envs c'\<rparr>"
      "fst res = (if snd res = None \<and> ready <s total_services env
         then \<lparr>RequeueAfter = notReadyRequeue\<rparr> else no_result)"
      "valid_spec (Spec env) \<longrightarrow> provisioned admit_d admit_v env c1 \<and> ready = ready_count env c1"
proof -
  obtain ready cause c1 where pass: "environment_pass admit_d admit_v env c (ready, cause) c1"
    and rest: "case cause of
          Some e \<Rightarrow> status_written env (failed_status env e) c1 c' \<and> snd res \<noteq> None \<and> fst res = no_result
        | None \<Rightarrow> status_written env (provisioned_status env ready c1) c1 c' \<and>
            fst res = (if snd res = None \<and> ready <s total_services env
                       then \<lparr>RequeueAfter = notReadyRequeue\<rparr> else no_result)"
    using assms unfolding live_pass_def by blast
  have envs: "cl_envs c1 = cl_envs c" using pass confined_envs [of env c c1] by (simp add: environment_pass_def)
  show ?thesis
  proof (cases cause)
    case None
    then have st: "status_written env (provisioned_status env ready c1) c1 c'" using rest by simp
    show ?thesis
      using provisioned [OF st envs] status_written_records [OF st] rest pass None
      by (simp add: environment_pass_def)
  next
    case (Some e)
    then show ?thesis using failed [of e c1] rest envs by simp
  qed
qed

text \<open>What a pass over a record that is not under deletion does.\<close>

lemma requested_pass:
  assumes pass: "reconcile_pass admit_d admit_v req c res c'" and wf: "wf_cluster c" and e: "requested req c e"
  obtains (stopped) "fst res = no_result" "snd res \<noteq> None"
      "\<And>e'. cl_envs c' (obj_key e) = Some e' \<Longrightarrow> Status e' = Status e"
    | (live) env c1 where "same_request env e" "live_pass admit_d admit_v env c1 res c'"
      "cl_envs c1 (obj_key e) = Some env" "Status env = Status e" "obj_key env = obj_key e"
proof -
  let ?k = "(ReqNamespace req, ReqName req)"
  have stored: "cl_envs c ?k = Some e" "DeletionTimestamp e = None" using e by (simp_all add: requested_def)
  then have key: "obj_key e = ?k" using wf unfolding wf_cluster_def keyed_def by blast
  consider (idle) "c' = c" "fst res = no_result" "snd res \<noteq> None"
    | (ready) "finalizerName \<in> set (Finalizers e)" "live_pass admit_d admit_v e c res c'"
    | (added) obj c1 where "update_env_effect (with_finalizer e) c obj c1"
        "c' = c1 \<and> fst res = no_result \<and> snd res \<noteq> None \<or> live_pass admit_d admit_v obj c1 res c'"
    using pass stored unfolding reconcile_pass_def by (auto split: if_splits)
  then show ?thesis
  proof cases
    case idle
    then show ?thesis using stopped stored key by simp
  next
    case ready
    then show ?thesis using live [of e c] stored key by (simp add: same_request_def)
  next
    case (added obj c1)
    have obj: "cl_envs c1 (obj_key e) = Some obj" "same_request obj e" "obj_key obj = obj_key e"
      "Status obj = Status e"
      using added(1) stored key
      by (auto simp: update_env_effect_def with_finalizer_def same_request_def obj_key_def)
    from added(2) show ?thesis
    proof
      assume "c' = c1 \<and> fst res = no_result \<and> snd res \<noteq> None"
      then show ?thesis using stopped obj by simp
    qed (use live obj in blast)
  qed
qed

section \<open>Environments side by side\<close>

text \<open>\<open>provisioned\<close> reads only the target namespace and the source Secrets.\<close>

definition same_inside :: "string set \<Rightarrow> cluster \<Rightarrow> cluster \<Rightarrow> bool" where
  "same_inside N c c' \<longleftrightarrow> (\<forall>n \<in> N. cl_namespaces c' n = cl_namespaces c n \<and>
     (\<forall>x. cl_config_maps c' (n, x) = cl_config_maps c (n, x) \<and> cl_secrets c' (n, x) = cl_secrets c (n, x) \<and>
        cl_pvcs c' (n, x) = cl_pvcs c (n, x) \<and> cl_deployments c' (n, x) = cl_deployments c (n, x) \<and>
        cl_services c' (n, x) = cl_services c (n, x)))"

lemma provisioned_inside:
  "same_inside {TargetNamespace env, Namespace env} c c' \<Longrightarrow>
   provisioned admit_d admit_v env c' = provisioned admit_d admit_v env c"
  by (simp add: same_inside_def provisioned_def Let_def none_stale_def)

lemma confined_inside:
  assumes "confined e c c'" and "TargetNamespace e \<notin> N"
  shows "same_inside N c c'"
  unfolding same_inside_def
proof (intro ballI conjI allI)
  fix n x
  assume "n \<in> N"
  then have n: "n \<noteq> TargetNamespace e" using assms(2) by blast
  note c = assms(1) [unfolded confined_def Let_def]
  show "cl_namespaces c' n = cl_namespaces c n" "cl_config_maps c' (n, x) = cl_config_maps c (n, x)"
    "cl_secrets c' (n, x) = cl_secrets c (n, x)" "cl_pvcs c' (n, x) = cl_pvcs c (n, x)"
    using c n by auto
  show "cl_deployments c' (n, x) = cl_deployments c (n, x)" "cl_services c' (n, x) = cl_services c (n, x)"
    using c n unfolding workload_frame_def by (metis fst_conv)+
qed

lemma delete_pass_inside:
  assumes "delete_pass e c res c'" and "TargetNamespace e \<notin> N"
  shows "same_inside N c c'"
  using assms(1)
proof (cases rule: delete_pass_cases)
  case (released obj)
  then obtain f where "c' = c\<lparr>cl_envs := f\<rparr>" using update_env_records by blast
  then show ?thesis by (simp add: same_inside_def)
qed (use assms(2) in \<open>auto simp: same_inside_def\<close>)

lemma reconcile_pass_inside:
  assumes "reconcile_pass admit_d admit_v req c res c'" and "wf_cluster c"
    and "\<And>e. cl_envs c (ReqNamespace req, ReqName req) = Some e \<Longrightarrow> TargetNamespace e \<notin> N"
  shows "same_inside N c c'"
  using assms(1,2)
proof (rule reconcile_pass_cases)
  assume "c' = c"
  then show ?thesis by (simp add: same_inside_def)
next
  fix e
  assume "cl_envs c (ReqNamespace req, ReqName req) = Some e" "delete_pass e c res c'"
  then show ?thesis using delete_pass_inside assms(3) by blast
next
  fix e obj c1
  assume "cl_envs c (ReqNamespace req, ReqName req) = Some e"
    and c1: "c1 = c\<lparr>cl_envs := cl_envs c1\<rparr>" and obj: "Name obj = Name e" "Spec obj = Spec e"
    and rest: "c' = c1 \<and> fst res = no_result \<and> snd res \<noteq> None \<or> live_pass admit_d admit_v obj c1 res c'"
  then have target: "TargetNamespace obj \<notin> N" using assms(3) target_cong [OF obj] by simp
  obtain f where f: "c1 = c\<lparr>cl_envs := f\<rparr>" using c1 by blast
  show ?thesis
  proof (cases "live_pass admit_d admit_v obj c1 res c'")
    case True
    then obtain c2 g where "confined obj c1 c2" and g: "c' = c2\<lparr>cl_envs := g\<rparr>" using live_pass_records by blast
    then have "same_inside N c1 c2" using confined_inside [OF _ target] by blast
    then show ?thesis by (simp add: same_inside_def f g)
  next
    case False
    then show ?thesis using rest f by (simp add: same_inside_def)
  qed
qed

section \<open>Properties\<close>

text \<open>
  C6. The end of a good pass. If a pass over a live record with a valid spec reports no error,
  the environment is fully provisioned in the cluster it leaves, and the pass asks to be called
  again in thirty seconds exactly when some service does not have all the replicas it asked for;
  if every service is up the operator goes quiet.
\<close>

theorem successful_pass_exact:
  assumes "api_server r view admit_ns admit_pvc admit_deploy admit_svc"
    and "run_state (Reconcile r req) w = ((res, None), w')"
    and "requested req (view w) e" and "valid_spec (Spec e)" and "countable e"
  shows "provisioned admit_deploy admit_svc e (view w') \<and>
    res = (if all_up e (view w') then no_result else \<lparr>RequeueAfter = notReadyRequeue\<rparr>)"
  using Reconcile_cases [OF assms(1,2)] assms(3)
proof (rule requested_pass)
  fix env c1
  assume same: "same_request env e" and pass: "live_pass admit_deploy admit_svc env c1 (res, None) (view w')"
  note eqs = same_requestD [OF same]
  have "countable env" using assms(5) by (simp add: countable_def eqs)
  note full = ready_count_full(2) [OF this]
  from pass show ?thesis
  proof (cases rule: live_pass_outcome)
    case (provisioned ready c2)
    then have c2: "Provision.provisioned admit_deploy admit_svc env c2" "ready = ready_count env c2"
      using assms(4) eqs by simp_all
    obtain f where c': "view w' = c2\<lparr>cl_envs := f\<rparr>" using provisioned(3) by blast
    have "all_up env c2 = all_up e (view w')" by (simp add: all_up_def c' eqs)
    then show ?thesis
      using c2 provisioned(4) full same_request_provisioned [OF same] by (simp add: c' provisioned_envs)
  qed simp
qed simp

text \<open>
  C11. Environments do not disturb each other. A pass for one environment, be it provisioning or
  teardown, successful or not, leaves every other environment provisioned as it was, provided
  that its target is neither the target namespace of the other nor the place of the other's
  source Secrets.
\<close>

theorem environments_independent:
  assumes "api_server r view admit_ns admit_pvc admit_deploy admit_svc"
    and "run_state (Reconcile r req) w = (res, w')"
    and "\<And>e. cl_envs (view w) (ReqNamespace req, ReqName req) = Some e \<Longrightarrow>
      TargetNamespace e \<noteq> TargetNamespace env \<and> TargetNamespace e \<noteq> Namespace env"
    and "provisioned admit_deploy admit_svc env (view w)"
  shows "provisioned admit_deploy admit_svc env (view w')"
proof -
  have "same_inside {TargetNamespace env, Namespace env} (view w) (view w')"
    by (rule reconcile_pass_inside [OF Reconcile_cases [OF assms(1,2)]]) (use assms(3) in blast)
  then show ?thesis using provisioned_inside assms(4) by blast
qed

definition idle_service :: service_spec where
  "idle_service = sample_service\<lparr>SvcReplicas := Some 0\<rparr>"

definition idle_env :: dev_environment where
  "idle_env = sample_env\<lparr>Spec := sample_spec\<lparr>Services := [idle_service]\<rparr>\<rparr>"

definition idle_mem :: mem where
  "idle_mem = empty_mem\<lparr>m_envs := [idle_env]\<rparr>"

lemma start_requested: "requested sample_request (mem_view start_mem) sample_env"
  by (simp add: requested_def mem_view_def start_mem_def sample_request_def obj_key_def)

lemma first_pass_result:
  "run_state (Reconcile mem_reconciler sample_request) start_mem =
     ((\<lparr>RequeueAfter = notReadyRequeue\<rparr>, None), snd first_pass)"
proof -
  have "fst first_pass = (\<lparr>RequeueAfter = notReadyRequeue\<rparr>, None)" by code_simp
  then show ?thesis by (simp add: first_pass_def prod_eq_iff)
qed

theorem successful_pass_exact_witness:
  "provisioned admit_deployment (=) sample_env (mem_view (snd first_pass)) \<and>
   \<not> all_up sample_env (mem_view (snd first_pass))"
proof -
  have "valid_spec (Spec sample_env)" by code_simp
  moreover have "countable sample_env" by (simp add: countable_def sample_spec_def)
  moreover have "(\<lparr>RequeueAfter = notReadyRequeue\<rparr> :: ctrl_result) \<noteq> no_result" by code_simp
  ultimately show ?thesis
    using successful_pass_exact [OF mem_api_server first_pass_result start_requested] by (auto split: if_splits)
qed

definition beta_env :: dev_environment where
  "beta_env = sample_env\<lparr>Name := ''team-beta''\<rparr>"

definition beta_request :: request where
  "beta_request = \<lparr>ReqNamespace = ''default'', ReqName = ''team-beta''\<rparr>"

text \<open>The sample environment provisioned, and another one for which a pass is run.\<close>

definition both_mem :: mem where
  "both_mem = (snd sample_run)\<lparr>m_envs := [beta_env]\<rparr>"

definition beta_pass :: "(ctrl_result \<times> go_error option) \<times> mem" where
  "beta_pass = run_state (Reconcile mem_reconciler beta_request) both_mem"

lemma both_provisioned: "provisioned admit_deployment (=) sample_env (mem_view both_mem)"
proof -
  have valid: "valid_spec (Spec sample_env)" by code_simp
  have "environment_pass admit_deployment (=) sample_env (mem_view empty_mem) (0, None) (mem_view (snd sample_run))"
    by (rule hoareD [OF api_server.reconcileEnvironment_spec [OF mem_api_server] refl sample_run_eq])
  then have "provisioned admit_deployment (=) sample_env (mem_view (snd sample_run))"
    using valid by (simp add: environment_pass_def)
  moreover have "mem_view both_mem = (mem_view (snd sample_run))\<lparr>cl_envs := cl_envs (mem_view both_mem)\<rparr>"
    by (simp add: mem_view_def both_mem_def)
  ultimately show ?thesis using provisioned_envs by metis
qed

theorem environments_independent_witness:
  "provisioned admit_deployment (=) sample_env (mem_view (snd beta_pass)) \<and>
   map Name (m_namespaces (snd beta_pass)) = [''team-beta'', ''team-alpha'']"
proof -
  have names: "map Name (m_namespaces (snd beta_pass)) = [''team-beta'', ''team-alpha'']" by code_simp
  have target: "TargetNamespace beta_env = ''team-beta''" "TargetNamespace sample_env = ''team-alpha''"
    by code_simp+
  have "TargetNamespace e \<noteq> TargetNamespace sample_env \<and> TargetNamespace e \<noteq> Namespace sample_env"
    if "cl_envs (mem_view both_mem) (ReqNamespace beta_request, ReqName beta_request) = Some e" for e
  proof -
    have "e = beta_env" using that by (simp add: mem_view_def both_mem_def split: if_splits)
    then show ?thesis by (simp add: target)
  qed
  from environments_independent [OF mem_api_server mem_run this both_provisioned] names show ?thesis
    by (simp add: beta_pass_def)
qed

text \<open>
  C16. Requeues. A pass asks for no requeue or for one in thirty seconds, and for the latter only
  if it reports no error and its record is stored and not under deletion: errors are left to the
  backoff of the work queue, and deleted or missing records are not polled.
\<close>

theorem requeue_exact:
  assumes "api_server r view admit_ns admit_pvc admit_deploy admit_svc"
    and "run_state (Reconcile r req) w = (res, w')"
  shows "if fst res = no_result then True
    else fst res = \<lparr>RequeueAfter = 30000000000\<rparr> \<and> snd res = None \<and> (\<exists>e. requested req (view w) e)"
proof -
  have live: ?thesis if "live_pass admit_deploy admit_svc env c res (view w')" "requested req (view w) e" for env c e
    using that(1) by (cases rule: live_pass_outcome)
      (use that(2) in \<open>auto simp: notReadyRequeue_def second_def\<close>)
  from Reconcile_cases [OF assms] show ?thesis
  proof (rule reconcile_pass_cases)
    fix env
    assume "delete_pass env (view w) res (view w')"
    then show ?thesis by (simp add: delete_pass_def)
  next
    fix env obj c1
    assume "cl_envs (view w) (ReqNamespace req, ReqName req) = Some env" "DeletionTimestamp env = None"
      and rest: "view w' = c1 \<and> fst res = no_result \<and> snd res \<noteq> None \<or>
        live_pass admit_deploy admit_svc obj c1 res (view w')"
    then have "requested req (view w) env" by (simp add: requested_def)
    then show ?thesis using rest live by auto
  qed simp
qed

theorem requeue_exact_witness:
  "fst (fst first_pass) = \<lparr>RequeueAfter = 30000000000\<rparr> \<and> (\<exists>e. requested sample_request (mem_view start_mem) e)"
proof -
  have "fst (fst first_pass) \<noteq> no_result" by code_simp
  then show ?thesis
    using requeue_exact [OF mem_api_server mem_run, of sample_request start_mem] by (simp add: first_pass_def)
qed

text \<open>
  \<open>status_truthful admit_d admit_v e st failed c\<close>: what the phase \<open>st\<close> reports for
  \<open>e\<close> holds in the cluster \<open>c\<close>, and the conditions agree with the phase.
\<close>

definition status_truthful :: "(deployment \<Rightarrow> deployment \<Rightarrow> bool) \<Rightarrow> (service \<Rightarrow> service \<Rightarrow> bool) \<Rightarrow>
    dev_environment \<Rightarrow> dev_environment_status \<Rightarrow> bool \<Rightarrow> cluster \<Rightarrow> bool" where
  "status_truthful admit_d admit_v e st failed c \<longleftrightarrow>
     (case Phase st of
        PhaseReady \<Rightarrow> provisioned admit_d admit_v e c \<and> all_up e c \<and>
          sint (ReadyServices st) = int (length (Services (Spec e))) \<and>
          verdict (Conditions st) ConditionAvailable =
            Some (ConditionTrue, ''EnvironmentReady'', readyMessage (ReadyServices st) (TotalServices st)) \<and>
          (\<exists>m. verdict (Conditions st) ConditionDegraded = Some (ConditionFalse, ''ReconcileSucceeded'', m))
      | PhaseProvisioning \<Rightarrow> provisioned admit_d admit_v e c \<and> \<not> all_up e c \<and>
          sint (ReadyServices st) = int (length (filter
            (\<lambda>svc. service_up svc (cl_deployments c (TargetNamespace e, SvcName svc))) (Services (Spec e)))) \<and>
          verdict (Conditions st) ConditionAvailable =
            Some (ConditionFalse, ''ServicesNotReady'', readyMessage (ReadyServices st) (TotalServices st))
      | PhaseFailed \<Rightarrow> failed \<and>
          (\<exists>m. verdict (Conditions st) ConditionAvailable = Some (ConditionFalse, ''ProvisioningFailed'', m) \<and>
             verdict (Conditions st) ConditionProgressing = Some (ConditionFalse, ''ProvisioningFailed'', m) \<and>
             verdict (Conditions st) ConditionDegraded = Some (ConditionTrue, ''ReconcileFailed'', m))
      | _ \<Rightarrow> False)"

lemma failed_status_truthful:
  "failed_status env cause st \<Longrightarrow> failed \<Longrightarrow> status_truthful admit_d admit_v e st failed c"
  by (simp add: failed_status_def status_truthful_def)

lemma provisioned_status_truthful:
  assumes st: "provisioned_status env (ready_count env c) c' st"
    and "provisioned admit_d admit_v env c" and "countable env"
  shows "status_truthful admit_d admit_v env st failed c"
proof -
  let ?n = "total_services env" and ?ready = "ready_count env c"
  have fields: "ReadyServices st = ?ready" "TotalServices st = ?n"
    "Phase st = (if ?ready = ?n then PhaseReady else PhaseProvisioning)"
    using st by (simp_all add: provisioned_status_def Let_def)
  obtain problems where ps: "if ?ready = ?n then problems = [] else problems_seen env c' problems"
    and vs: "verdict (Conditions st) = problem_verdicts (?ready = ?n) (readyMessage ?ready ?n) problems
      ((verdict (Conditions (Status env)))(ConditionAvailable \<mapsto> available_verdict (?ready = ?n) (readyMessage ?ready ?n)))"
    using st unfolding provisioned_status_def Let_def by blast
  show ?thesis
  proof (cases "?ready = ?n")
    case True
    then have "all_up env c" using ready_count_full(1) [OF assms(3)] by simp
    then show ?thesis
      using True ps vs fields assms(2) ready_count_sint(2) [OF assms(3)]
      by (simp add: status_truthful_def problem_verdicts_def available_verdict_def)
  next
    case False
    then have "\<not> all_up env c" using ready_count_full(1) [OF assms(3)] by simp
    then show ?thesis
      using False vs fields assms(2) ready_count_sint(1) [OF assms(3)]
      by (simp add: status_truthful_def problem_verdicts_def available_verdict_def)
  qed
qed

lemma status_truthful_cong:
  assumes "same_request env e"
  shows "status_truthful admit_d admit_v env st failed c = status_truthful admit_d admit_v e st failed c"
  by (simp add: status_truthful_def same_request_provisioned [OF assms] all_up_def same_requestD [OF assms]
      split: dev_environment_phase.split)

lemma status_truthful_envs:
  "status_truthful admit_d admit_v e st failed (c\<lparr>cl_envs := f\<rparr>) = status_truthful admit_d admit_v e st failed c"
  by (simp add: status_truthful_def provisioned_envs all_up_def split: dev_environment_phase.split)

text \<open>A status write that changes the stored status went to the record as it was read.\<close>

lemma status_written_changed:
  assumes "status_written env S c1 c'" and "cl_envs c1 (obj_key env) = Some env"
    and "cl_envs c' (obj_key env) = Some e'" and "Status e' \<noteq> Status env"
  shows "S (Status e') \<and> Generation e' = Generation env \<and> (\<exists>f. c' = c1\<lparr>cl_envs := f\<rparr>)"
  using assms unfolding status_written_def by auto

text \<open>
  C7. The status is true. If a pass changes the status of a live record with a valid spec, the
  status describes the generation it is stored with, and its phase says what happened: Ready
  only if the environment is provisioned and every service is up, Provisioning only if it is
  provisioned and some service is not, and Failed only if the pass returned an error, which
  Degraded then reports. The count of ready services is exact in the first two cases.
\<close>

theorem status_report_truthful:
  assumes "api_server r view admit_ns admit_pvc admit_deploy admit_svc"
    and "run_state (Reconcile r req) w = (res, w')"
    and "requested req (view w) e" and "valid_spec (Spec e)" and "countable e"
    and "cl_envs (view w') (ReqNamespace req, ReqName req) = Some e'" and "Status e' \<noteq> Status e"
  shows "status_truthful admit_deploy admit_svc e (Status e') (snd res \<noteq> None) (view w') \<and>
    ObservedGeneration (Status e') = Generation e'"
proof -
  have key: "obj_key e = (ReqNamespace req, ReqName req)"
    using assms(3) Reconcile_cases(2) [OF assms(1,2)] unfolding requested_def wf_cluster_def keyed_def by blast
  note e' = assms(6) [folded key]
  from Reconcile_cases [OF assms(1,2)] assms(3) show ?thesis
  proof (rule requested_pass)
    assume "\<And>e'. cl_envs (view w') (obj_key e) = Some e' \<Longrightarrow> Status e' = Status e"
    then show ?thesis using e' assms(7) by blast
  next
    fix env c1
    assume same: "same_request env e" and pass: "live_pass admit_deploy admit_svc env c1 res (view w')"
      and env: "cl_envs c1 (obj_key e) = Some env" "Status env = Status e" "obj_key env = obj_key e"
    note eqs = same_requestD [OF same]
    have changed: "S (Status e') \<and> Generation e' = Generation env \<and> (\<exists>f. view w' = c2\<lparr>cl_envs := f\<rparr>)"
      if "status_written env S c2 (view w')" "cl_envs c2 = cl_envs c1" for S c2
      using status_written_changed [OF that(1)] that(2) env e' assms(7) by simp
    from pass show ?thesis
    proof (cases rule: live_pass_outcome)
      case (failed cause c2)
      then have st: "failed_status env cause (Status e')" "Generation e' = Generation env"
        using changed [OF failed(3,4)] by simp_all
      show ?thesis
        using failed_status_truthful [OF st(1) failed(1)] st by (simp add: failed_status_def)
    next
      case (provisioned ready c2)
      obtain f where st: "provisioned_status env ready c2 (Status e')" "Generation e' = Generation env"
        and w': "view w' = c2\<lparr>cl_envs := f\<rparr>"
        using changed [OF provisioned(1,2)] by blast
      have "countable env" using assms(5) by (simp add: countable_def eqs)
      then have "status_truthful admit_deploy admit_svc env (Status e') (snd res \<noteq> None) c2"
        using provisioned_status_truthful provisioned(5) st(1) assms(4) eqs by auto
      then show ?thesis
        using st by (simp add: w' status_truthful_envs status_truthful_cong [OF same] provisioned_status_def Let_def)
    qed
  qed
qed

definition idle_pass :: "(ctrl_result \<times> go_error option) \<times> mem" where
  "idle_pass = run_state (Reconcile mem_reconciler sample_request) idle_mem"

theorem status_report_truthful_witness:
  "\<exists>e'. m_envs (snd idle_pass) = [e'] \<and> Phase (Status e') = PhaseReady \<and>
     all_up idle_env (mem_view (snd idle_pass))"
proof -
  have len: "length (m_envs (snd idle_pass)) = 1" by code_simp
  then obtain e' where e': "m_envs (snd idle_pass) = [e']" by (cases "m_envs (snd idle_pass)") auto
  have "obj_key (hd (m_envs (snd idle_pass))) = (''default'', ''team-alpha'')"
    "Phase (Status (hd (m_envs (snd idle_pass)))) = PhaseReady" by code_simp+
  then have key: "obj_key e' = (''default'', ''team-alpha'')" and phase: "Phase (Status e') = PhaseReady"
    by (simp_all add: e')
  have stored: "cl_envs (mem_view (snd idle_pass)) (ReqNamespace sample_request, ReqName sample_request) = Some e'"
    by (simp add: mem_view_def e' key sample_request_def)
  have req: "requested sample_request (mem_view idle_mem) idle_env"
    by (simp add: requested_def mem_view_def idle_mem_def sample_request_def obj_key_def idle_env_def)
  have "valid_spec (Spec idle_env)" by code_simp
  moreover have "countable idle_env" by (simp add: countable_def idle_env_def)
  moreover have "Status e' \<noteq> Status idle_env" using phase by (auto simp: idle_env_def empty_status_def)
  ultimately show ?thesis
    using status_report_truthful [OF mem_api_server mem_run req _ _ stored [unfolded idle_pass_def]] e' phase
    by (simp add: status_truthful_def idle_pass_def)
qed

text \<open>
  C23. The success report. \<open>setProvisioned\<close> writes nothing but the status of its record, and
  only if nobody has written the record since it was read; what it writes has the phase, the
  counts and the three conditions that the counted services and the problems found in pods and
  Deployments call for, with one condition per type, and a conflict is not an error.
\<close>

theorem setProvisioned_report:
  assumes "api_server r view admit_ns admit_pvc admit_deploy admit_svc"
    and "run_state (setProvisioned r env ready) w = (res, w')"
  shows "status_pass env (provisioned_status env ready (view w)) (view w) res (view w')"
proof -
  have "status_api r view admit_deploy admit_svc"
    using api_server_parts(5,6) [OF assms(1)] by (simp add: status_api_def)
  from hoareD [OF status_api.setProvisioned_spec [OF this] refl assms(2)] show ?thesis .
qed

theorem setProvisioned_report_witness:
  "let w' = snd (run_state (setProvisioned mem_reconciler sample_env 0) start_mem)
   in status_pass sample_env (provisioned_status sample_env 0 (mem_view start_mem)) (mem_view start_mem)
        (Inr ()) (mem_view w') \<and>
      map (\<lambda>e. (Phase (Status e), TotalServices (Status e))) (m_envs w') = [(PhaseProvisioning, 1)] \<and>
      map (\<lambda>e. verdict (Conditions (Status e)) ConditionProgressing) (m_envs w') =
        [Some (ConditionTrue, ''Provisioning'', ''0/1 services ready'')]"
proof -
  let ?run = "run_state (setProvisioned mem_reconciler sample_env 0) start_mem"
  have "fst ?run = Inr ()" by code_simp
  then have "?run = (Inr (), snd ?run)" by (simp add: prod_eq_iff)
  from setProvisioned_report [OF mem_api_server this]
  have "status_pass sample_env (provisioned_status sample_env 0 (mem_view start_mem)) (mem_view start_mem)
      (Inr ()) (mem_view (snd ?run))" .
  moreover have "map (\<lambda>e. (Phase (Status e), TotalServices (Status e))) (m_envs (snd ?run)) =
      [(PhaseProvisioning, 1)]" by code_simp
  moreover have "map (\<lambda>e. verdict (Conditions (Status e)) ConditionProgressing) (m_envs (snd ?run)) =
      [Some (ConditionTrue, ''Provisioning'', ''0/1 services ready'')]" by code_simp
  ultimately show ?thesis by (simp add: Let_def)
qed

end
