(* ===== verification/Startup.thy ===== *)
theory Startup
  imports Naming Kube_Client
begin

text \<open>
  The process: \<open>cmd/main.go\<close>, \<open>SetupWithManager\<close> of the controller, the registration of the
  API types and \<open>environmentFromLabels\<close>. The command line is parsed as the package \<open>flag\<close> of
  the standard library does it, with the flags that \<open>zap\<close> adds as a parameter; the operations of
  the controller-runtime manager are parameters as well.
\<close>

section \<open>Flags\<close>

record flags =
  MetricsAddr :: string
  ProbeAddr :: string
  EnableLeaderElection :: bool
  SecureMetrics :: bool
  WebhookCertPath :: string
  WebhookCertName :: string
  WebhookCertKey :: string
  MetricsCertPath :: string
  MetricsCertName :: string
  MetricsCertKey :: string
  EnableHTTP2 :: bool

definition default_flags :: flags where
  "default_flags = \<lparr>MetricsAddr = ''0'', ProbeAddr = '':8081'', EnableLeaderElection = False,
     SecureMetrics = True, WebhookCertPath = [], WebhookCertName = ''tls.crt'',
     WebhookCertKey = ''tls.key'', MetricsCertPath = [], MetricsCertName = ''tls.crt'',
     MetricsCertKey = ''tls.key'', EnableHTTP2 = False\<rparr>"

text \<open>The declarations \<open>flag.StringVar\<close> and \<open>flag.BoolVar\<close>: the name and the variable it sets.\<close>

definition string_vars :: "(string \<times> (string \<Rightarrow> flags \<Rightarrow> flags)) list" where
  "string_vars =
     [(''metrics-bind-address'', \<lambda>v. MetricsAddr_update (\<lambda>_. v)),
      (''health-probe-bind-address'', \<lambda>v. ProbeAddr_update (\<lambda>_. v)),
      (''webhook-cert-path'', \<lambda>v. WebhookCertPath_update (\<lambda>_. v)),
      (''webhook-cert-name'', \<lambda>v. WebhookCertName_update (\<lambda>_. v)),
      (''webhook-cert-key'', \<lambda>v. WebhookCertKey_update (\<lambda>_. v)),
      (''metrics-cert-path'', \<lambda>v. MetricsCertPath_update (\<lambda>_. v)),
      (''metrics-cert-name'', \<lambda>v. MetricsCertName_update (\<lambda>_. v)),
      (''metrics-cert-key'', \<lambda>v. MetricsCertKey_update (\<lambda>_. v))]"

definition bool_vars :: "(string \<times> (bool \<Rightarrow> flags \<Rightarrow> flags)) list" where
  "bool_vars =
     [(''leader-elect'', \<lambda>b. EnableLeaderElection_update (\<lambda>_. b)),
      (''metrics-secure'', \<lambda>b. SecureMetrics_update (\<lambda>_. b)),
      (''enable-http2'', \<lambda>b. EnableHTTP2_update (\<lambda>_. b))]"

text \<open>
  The flags of \<open>opts.BindFlags\<close>: whether a name is one of them and is boolean, and whether it
  accepts a value. They only configure the logger.
\<close>

record zap_flags =
  ZapBool :: "string \<Rightarrow> bool option"
  ZapAccepts :: "string \<Rightarrow> string \<Rightarrow> bool"

section \<open>The package \<open>flag\<close>\<close>

text \<open>\<open>strconv.ParseBool\<close>\<close>

definition parse_bool :: "string \<Rightarrow> bool option" where
  "parse_bool s =
     (if s \<in> set [''1'', ''t'', ''T'', ''true'', ''TRUE'', ''True''] then Some True
      else if s \<in> set [''0'', ''f'', ''F'', ''false'', ''FALSE'', ''False''] then Some False
      else None)"

definition is_bool_flag :: "zap_flags \<Rightarrow> string \<Rightarrow> bool option" where
  "is_bool_flag zap name =
     (if name \<in> fst ` set string_vars then Some False
      else if name \<in> fst ` set bool_vars then Some True
      else ZapBool zap name)"

definition set_flag :: "zap_flags \<Rightarrow> string \<Rightarrow> string \<Rightarrow> flags \<Rightarrow> flags option" where
  "set_flag zap name value f =
     (case map_of string_vars name of
        Some g \<Rightarrow> Some (g value f)
      | None \<Rightarrow>
          (case map_of bool_vars name of
             Some g \<Rightarrow> map_option (\<lambda>b. g b f) (parse_bool value)
           | None \<Rightarrow> if ZapAccepts zap name value then Some f else None))"

text \<open>One argument, split as \<open>parseOne\<close> splits it; the first character of a name is no \<open>=\<close>.\<close>

datatype arg_token = NoFlag | EndOfFlags | BadSyntax | Flag string "string option"

definition split_name :: "string \<Rightarrow> arg_token" where
  "split_name n =
     (if n = [] \<or> hd n = CHR ''-'' \<or> hd n = CHR ''='' then BadSyntax
      else (case cut n (CHR ''='') of
        (name, value, found) \<Rightarrow> Flag name (if found then Some value else None)))"

definition split_arg :: "string \<Rightarrow> arg_token" where
  "split_arg s =
     (if length s < 2 \<or> hd s \<noteq> CHR ''-'' then NoFlag
      else if s ! 1 = CHR ''-'' then if length s = 2 then EndOfFlags else split_name (drop 2 s)
      else split_name (drop 1 s))"

text \<open>
  \<open>flag.Parse\<close> on the command line's flag set, which exits: with 0 when help is asked for,
  with 2 on a bad flag.
\<close>

fun parse_args :: "zap_flags \<Rightarrow> string list \<Rightarrow> flags \<Rightarrow> nat + flags" where
  "parse_args zap [] f = Inr f"
| "parse_args zap (s # args) f =
     (case split_arg s of
        NoFlag \<Rightarrow> Inr f
      | EndOfFlags \<Rightarrow> Inr f
      | BadSyntax \<Rightarrow> Inl 2
      | Flag name given \<Rightarrow>
          (case is_bool_flag zap name of
             None \<Rightarrow> if name = ''help'' \<or> name = ''h'' then Inl 0 else Inl 2
           | Some True \<Rightarrow>
               (case set_flag zap name (case given of None \<Rightarrow> ''true'' | Some v \<Rightarrow> v) f of
                  None \<Rightarrow> Inl 2 | Some g \<Rightarrow> parse_args zap args g)
           | Some False \<Rightarrow>
               (case given of
                  Some v \<Rightarrow>
                    (case set_flag zap name v f of None \<Rightarrow> Inl 2 | Some g \<Rightarrow> parse_args zap args g)
                | None \<Rightarrow>
                    (case args of
                       [] \<Rightarrow> Inl 2
                     | v # rest \<Rightarrow>
                         (case set_flag zap name v f of None \<Rightarrow> Inl 2 | Some g \<Rightarrow> parse_args zap rest g)))))"

declare parse_args.simps(2) [simp del]

section \<open>Server options\<close>

record tls_config =
  NextProtos :: "string list"
  MinVersion :: "16 word"

definition disableHTTP2 :: "tls_config \<Rightarrow> tls_config" where
  "disableHTTP2 c = c\<lparr>NextProtos := [''http/1.1'']\<rparr>"

definition tlsOpts :: "flags \<Rightarrow> (tls_config \<Rightarrow> tls_config) list" where
  "tlsOpts f = (if \<not> EnableHTTP2 f then [] @ [disableHTTP2] else [])"

record webhook_options =
  WhTLSOpts :: "(tls_config \<Rightarrow> tls_config) list"
  WhCertDir :: string
  WhCertName :: string
  WhKeyName :: string

definition webhookServerOptions :: "flags \<Rightarrow> webhook_options" where
  "webhookServerOptions f =
     (let opts = \<lparr>WhTLSOpts = tlsOpts f, WhCertDir = [], WhCertName = [], WhKeyName = []\<rparr>
      in if length (WebhookCertPath f) > 0
         then opts\<lparr>WhCertDir := WebhookCertPath f, WhCertName := WebhookCertName f, WhKeyName := WebhookCertKey f\<rparr>
         else opts)"

datatype filter_provider = WithAuthenticationAndAuthorization

record metrics_options =
  BindAddress :: string
  SecureServing :: bool
  TLSOpts :: "(tls_config \<Rightarrow> tls_config) list"
  FilterProvider :: "filter_provider option"
  CertDir :: string
  CertName :: string
  KeyName :: string

definition metricsServerOptions :: "flags \<Rightarrow> metrics_options" where
  "metricsServerOptions f =
     (let opts = \<lparr>BindAddress = MetricsAddr f, SecureServing = SecureMetrics f, TLSOpts = tlsOpts f,
            FilterProvider = None, CertDir = [], CertName = [], KeyName = []\<rparr>;
          opts = (if SecureMetrics f
                  then opts\<lparr>FilterProvider := Some WithAuthenticationAndAuthorization\<rparr> else opts)
      in if length (MetricsCertPath f) > 0
         then opts\<lparr>CertDir := MetricsCertPath f, CertName := MetricsCertName f, KeyName := MetricsCertKey f\<rparr>
         else opts)"

section \<open>Registered types\<close>

record group_version =
  Group :: string
  Version :: string

definition GroupVersion :: group_version where
  "GroupVersion = \<lparr>Group = ''devenv.aviture.dev'', Version = ''v1alpha1''\<rparr>"

type_synonym scheme = "(group_version \<times> string) list"

definition AddToScheme :: "scheme \<Rightarrow> scheme" where
  "AddToScheme s = s @ map (Pair GroupVersion) [''DevEnvironment'', ''DevEnvironmentList'']"

text \<open>\<open>init\<close>: the types of client-go, a parameter, then the operator's own.\<close>

definition init_scheme :: "(scheme \<Rightarrow> scheme) \<Rightarrow> scheme" where
  "init_scheme clientgo = AddToScheme (clientgo [])"

record manager_options =
  MgrScheme :: scheme
  Metrics :: metrics_options
  WebhookServer :: webhook_options
  HealthProbeBindAddress :: string
  LeaderElection :: bool
  LeaderElectionID :: string

definition managerOptions :: "scheme \<Rightarrow> flags \<Rightarrow> manager_options" where
  "managerOptions s f = \<lparr>MgrScheme = s, Metrics = metricsServerOptions f,
     WebhookServer = webhookServerOptions f, HealthProbeBindAddress = ProbeAddr f,
     LeaderElection = EnableLeaderElection f, LeaderElectionID = ''7446cafd.aviture.dev''\<rparr>"

section \<open>The controller's watches\<close>

datatype event = EnvironmentEvent dev_environment | DeploymentEvent deployment | NamespaceEvent namespace

datatype watched = WatchedDeployment | WatchedNamespace

record controller_config =
  ControllerName :: string
  Watches :: "watched list"

definition environmentController :: controller_config where
  "environmentController = \<lparr>ControllerName = ''devenvironment'', Watches = [WatchedDeployment, WatchedNamespace]\<rparr>"

text \<open>
  The requests an event puts on the work queue: \<open>For\<close> enqueues the object itself, \<open>Watches\<close>
  what \<open>environmentFromLabels\<close> maps the object to.
\<close>

fun enqueues :: "controller_config \<Rightarrow> event \<Rightarrow> request list" where
  "enqueues cc (EnvironmentEvent e) = [\<lparr>ReqNamespace = Namespace e, ReqName = Name e\<rparr>]"
| "enqueues cc (DeploymentEvent d) = (if WatchedDeployment \<in> set (Watches cc) then mapToEnvironment d else [])"
| "enqueues cc (NamespaceEvent n) = (if WatchedNamespace \<in> set (Watches cc) then mapToEnvironment n else [])"

section \<open>The main function\<close>

text \<open>
  What \<open>main\<close> calls: \<open>get_config\<close> exits the process itself when there is no configuration
  (\<open>None\<close>); \<open>start\<close> returns when the manager stops.
\<close>

record ('w, 'c, 'm) runtime =
  get_config :: "('w, 'c option) state"
  new_manager :: "'c \<Rightarrow> manager_options \<Rightarrow> ('w, 'm) io"
  get_client :: "'m \<Rightarrow> 'w client"
  get_api_reader :: "'m \<Rightarrow> 'w api_reader"
  complete :: "'m \<Rightarrow> controller_config \<Rightarrow> 'w reconciler \<Rightarrow> ('w, unit) io"
  add_healthz :: "'m \<Rightarrow> ('w, unit) io"
  add_readyz :: "'m \<Rightarrow> ('w, unit) io"
  start :: "'m \<Rightarrow> ('w, unit) io"

definition SetupWithManager ::
  "('w, 'c, 'm) runtime \<Rightarrow> 'w reconciler \<Rightarrow> 'm \<Rightarrow> ('w, unit) io" where
  "SetupWithManager rt r mgr = complete rt mgr environmentController r"

definition wired_reconciler :: "('w, 'c, 'm) runtime \<Rightarrow> 'w helpers \<Rightarrow> 'm \<Rightarrow> 'w reconciler" where
  "wired_reconciler rt h mgr =
     \<lparr>Client = get_client rt mgr, APIReader = Some (get_api_reader rt mgr), Helpers = h\<rparr>"

text \<open>The value is the exit status of the process.\<close>

definition main :: "('w, 'c, 'm) runtime \<Rightarrow> 'w helpers \<Rightarrow> zap_flags \<Rightarrow> (scheme \<Rightarrow> scheme) \<Rightarrow>
    string list \<Rightarrow> ('w, nat) state" where
  "main rt h zap clientgo args =
     (case parse_args zap args default_flags of
        Inl code \<Rightarrow> State_Monad.return code
      | Inr f \<Rightarrow> do {
          cfg \<leftarrow> get_config rt;
          case cfg of None \<Rightarrow> State_Monad.return 1 | Some cfg \<Rightarrow> do {
          made \<leftarrow> new_manager rt cfg (managerOptions (init_scheme clientgo) f);
          case made of Inl err \<Rightarrow> State_Monad.return 1 | Inr mgr \<Rightarrow> do {
          res \<leftarrow> SetupWithManager rt (wired_reconciler rt h mgr) mgr;
          case res of Inl err \<Rightarrow> State_Monad.return 1 | Inr _ \<Rightarrow> do {
          res \<leftarrow> add_healthz rt mgr;
          case res of Inl err \<Rightarrow> State_Monad.return 1 | Inr _ \<Rightarrow> do {
          res \<leftarrow> add_readyz rt mgr;
          case res of Inl err \<Rightarrow> State_Monad.return 1 | Inr _ \<Rightarrow> do {
          res \<leftarrow> start rt mgr;
          case res of Inl err \<Rightarrow> State_Monad.return 1 | Inr _ \<Rightarrow> State_Monad.return 0
        }}}}}})"

section \<open>Facts about the command line\<close>

text \<open>The tables name every flag once.\<close>

lemma flag_names:
  "fst ` set string_vars \<inter> fst ` set bool_vars = {}"
  by (simp add: string_vars_def bool_vars_def)

text \<open>An argument \<open>--name=value\<close> is read as such, whatever the value.\<close>

definition flag_arg :: "string \<times> string \<Rightarrow> string" where
  "flag_arg p = ''--'' @ fst p @ ''='' @ snd p"

lemma split_flag_arg:
  assumes "n \<noteq> []" and "CHR ''='' \<notin> set n" and "hd n \<noteq> CHR ''-''"
  shows "split_arg (flag_arg (n, v)) = Flag n (Some v)"
proof -
  have "hd n \<noteq> CHR ''=''" using assms(1,2) by (metis list.set_sel(1))
  then show ?thesis
    using assms cut_append [OF assms(2), of v]
    by (simp add: split_arg_def flag_arg_def split_name_def numeral_2_eq_2)
qed

lemma parse_flag_arg:
  assumes "n \<noteq> []" "CHR ''='' \<notin> set n" "hd n \<noteq> CHR ''-''"
    and "is_bool_flag zap n \<noteq> None" and "set_flag zap n v f \<noteq> None"
  shows "parse_args zap (flag_arg (n, v) # args) f = parse_args zap args (the (set_flag zap n v f))"
  using assms(4,5) by (auto simp: parse_args.simps(2) split_flag_arg [OF assms(1-3)] split: bool.split)

definition bool_text :: "bool \<Rightarrow> string" where
  "bool_text b = (if b then ''true'' else ''false'')"

lemma parse_bool_text [simp]: "parse_bool (bool_text b) = Some b"
  by (simp add: parse_bool_def bool_text_def)

text \<open>A command line that sets every flag.\<close>

definition command_line :: "flags \<Rightarrow> string list" where
  "command_line f = map flag_arg
     [(''metrics-bind-address'', MetricsAddr f), (''health-probe-bind-address'', ProbeAddr f),
      (''leader-elect'', bool_text (EnableLeaderElection f)), (''metrics-secure'', bool_text (SecureMetrics f)),
      (''webhook-cert-path'', WebhookCertPath f), (''webhook-cert-name'', WebhookCertName f),
      (''webhook-cert-key'', WebhookCertKey f), (''metrics-cert-path'', MetricsCertPath f),
      (''metrics-cert-name'', MetricsCertName f), (''metrics-cert-key'', MetricsCertKey f),
      (''enable-http2'', bool_text (EnableHTTP2 f))]"

lemma parse_command_line: "parse_args zap (command_line f) g = Inr f"
  unfolding command_line_def list.map
  by (simp add: parse_flag_arg is_bool_flag_def set_flag_def string_vars_def bool_vars_def)

section \<open>A runtime that records its calls\<close>

text \<open>
  Every call is logged with what it is given, and succeeds or fails as \<open>ok\<close> says. The log shows
  which calls \<open>main\<close> makes, in which order and with which options.
\<close>

datatype startup_step = LoadConfig | NewManager manager_options | Complete controller_config
  | AddHealthz | AddReadyz | Start

definition recorded :: "(startup_step \<Rightarrow> bool) \<Rightarrow> startup_step \<Rightarrow> (startup_step list, unit) io" where
  "recorded ok s = State (\<lambda>log.
     (if ok s then Inr () else Inl (Errorf ''failed''), log @ [s]))"

definition recording :: "(startup_step \<Rightarrow> bool) \<Rightarrow> startup_step list client \<Rightarrow> startup_step list api_reader \<Rightarrow>
    (startup_step list, unit, unit) runtime" where
  "recording ok cl rd = \<lparr>
     get_config = State (\<lambda>log. (if ok LoadConfig then Some () else None, log @ [LoadConfig])),
     new_manager = (\<lambda>cfg opts. recorded ok (NewManager opts)),
     get_client = (\<lambda>m. cl), get_api_reader = (\<lambda>m. rd),
     complete = (\<lambda>m cc r. recorded ok (Complete cc)),
     add_healthz = (\<lambda>m. recorded ok AddHealthz), add_readyz = (\<lambda>m. recorded ok AddReadyz),
     start = (\<lambda>m. recorded ok Start)\<rparr>"

definition startup_steps :: "(scheme \<Rightarrow> scheme) \<Rightarrow> flags \<Rightarrow> startup_step list" where
  "startup_steps clientgo f = [LoadConfig, NewManager (managerOptions (init_scheme clientgo) f),
     Complete environmentController, AddHealthz, AddReadyz, Start]"

text \<open>The steps up to and including the first that fails.\<close>

fun until_failure :: "('a \<Rightarrow> bool) \<Rightarrow> 'a list \<Rightarrow> 'a list" where
  "until_failure ok [] = []"
| "until_failure ok (s # ss) = s # (if ok s then until_failure ok ss else [])"

section \<open>Properties\<close>

text \<open>
  C37. The command line round trip. Whatever flag values are written out as \<open>--name=value\<close>
  arguments, and whatever the variables held before, \<open>flag.Parse\<close> reads them back: every flag
  is declared under its name and sets its own variable and no other. Without arguments the
  defaults stand.
\<close>

theorem command_line_roundtrip:
  "parse_args zap (command_line f) g = Inr f \<and> parse_args zap [] default_flags = Inr default_flags"
  by (simp add: parse_command_line)

text \<open>
  HTTP/2 is off unless asked for. Whatever TLS configuration the metrics and webhook servers
  start from, the options leave it alone if \<open>--enable-http2\<close> is given, and otherwise restrict
  the protocols to HTTP/1.1 and change nothing else; the default is the latter.
\<close>

theorem http2_off_by_default:
  "fold (\<lambda>g. g) (TLSOpts (metricsServerOptions f)) c =
     (if EnableHTTP2 f then c else c\<lparr>NextProtos := [''http/1.1'']\<rparr>) \<and>
   fold (\<lambda>g. g) (WhTLSOpts (webhookServerOptions f)) c =
     (if EnableHTTP2 f then c else c\<lparr>NextProtos := [''http/1.1'']\<rparr>) \<and>
   EnableHTTP2 default_flags = False"
  by (simp add: metricsServerOptions_def webhookServerOptions_def Let_def tlsOpts_def disableHTTP2_def
      default_flags_def)

text \<open>
  C36. Start-up order. \<open>main\<close> parses the command line, then loads the configuration, builds the
  manager with the options the flags give, completes the controller, adds the two health checks
  and starts the manager, in this order; it stops at the first failure with exit status 1, so
  the manager runs only when everything before it succeeded, and the status is 0 only if the
  manager stopped without error. A bad command line ends it before any call.
\<close>

theorem main_order:
  "run_state (main (recording ok cl rd) h zap clientgo args) [] =
     (case parse_args zap args default_flags of
        Inl code \<Rightarrow> (code, [])
      | Inr f \<Rightarrow> (if list_all ok (startup_steps clientgo f) then 0 else 1,
                  until_failure ok (startup_steps clientgo f)))"
proof (cases "parse_args zap args default_flags")
  case (Inr f)
  then show ?thesis
    by (simp add: main_def recording_def recorded_def startup_steps_def SetupWithManager_def)
qed (simp add: main_def)

end
