(* ===== verification/Lifecycle.thy ===== *)
theory Lifecycle
  imports Readiness Startup
begin

text \<open>
  Many passes in a cluster that other actors change: the operator's passes interleaved with
  users who create, edit and delete DevEnvironments, with the namespace controller and with
  everything else that lives in the cluster. A pass is one step, as the work queue never runs
  two passes for the same request at a time; the interference of other actors inside a pass is
  part of the API server's laws only as failed writes.
\<close>

section \<open>What the other actors may do\<close>

text \<open>A namespace that carries the operator's manager label.\<close>

definition managed :: "namespace \<Rightarrow> bool" where
  "managed ns \<longleftrightarrow> idx (Labels ns) labelManagedBy = managerName"

definition owner_key :: "namespace \<Rightarrow> obj_key" where
  "owner_key ns = (idx (Labels ns) labelOwnerNamespace, idx (Labels ns) labelEnvironment)"

text \<open>
  An edit of a record that keeps its target namespace and the operator's finalizer. The
  transition rule of the custom resource is one premise; that \<open>namespaceName\<close> is not added or
  removed, which the rule does not check, is another (see \<open>retargeting_strands_namespace\<close>).
\<close>

definition faithful_edit :: "dev_environment \<Rightarrow> dev_environment \<Rightarrow> bool" where
  "faithful_edit old e \<longleftrightarrow> obj_key e = obj_key old \<and> DeletionTimestamp e = DeletionTimestamp old \<and>
     valid_transition (Spec old) (Spec e) \<and>
     (NamespaceName (Spec old) = [] \<longleftrightarrow> NamespaceName (Spec e) = []) \<and>
     (finalizerName \<in> set (Finalizers old) \<longrightarrow> finalizerName \<in> set (Finalizers e))"

inductive others :: "cluster \<Rightarrow> cluster \<Rightarrow> bool" where
  user_creates: "cl_envs c (obj_key e) = None \<Longrightarrow> DeletionTimestamp e = None \<Longrightarrow>
    others c (c\<lparr>cl_envs := (cl_envs c)(obj_key e \<mapsto> e)\<rparr>)"
| user_edits: "cl_envs c k = Some old \<Longrightarrow> faithful_edit old e \<Longrightarrow>
    others c (c\<lparr>cl_envs := (cl_envs c)(k \<mapsto> e)\<rparr>)"
| user_deletes: "cl_envs c k = Some old \<Longrightarrow> Finalizers old \<noteq> [] \<Longrightarrow>
    others c (c\<lparr>cl_envs := (cl_envs c)(k \<mapsto> old\<lparr>DeletionTimestamp := Some t, ResourceVersion := v\<rparr>)\<rparr>)"
| record_removed: "cl_envs c k = Some old \<Longrightarrow> Finalizers old = [] \<Longrightarrow>
    others c (c\<lparr>cl_envs := (cl_envs c)(k := None)\<rparr>)"
| namespaces: "(\<And>n ns. f n = Some ns \<Longrightarrow> managed ns \<Longrightarrow>
      \<exists>ns0. cl_namespaces c n = Some ns0 \<and> managed ns0 \<and> owner_key ns0 = owner_key ns) \<Longrightarrow>
    others c (c\<lparr>cl_namespaces := f\<rparr>)"
| contents: "cl_envs c' = cl_envs c \<Longrightarrow> cl_namespaces c' = cl_namespaces c \<Longrightarrow> others c c'"

text \<open>The worlds that can come about from one in which nothing is managed yet.\<close>

inductive reachable :: "'w reconciler \<Rightarrow> ('w \<Rightarrow> cluster) \<Rightarrow> 'w \<Rightarrow> bool" for r view where
  start: "(\<And>n ns. cl_namespaces (view w) n = Some ns \<Longrightarrow> \<not> managed ns) \<Longrightarrow> reachable r view w"
| pass: "reachable r view w \<Longrightarrow> run_state (Reconcile r req) w = (res, w') \<Longrightarrow> reachable r view w'"
| other: "reachable r view w \<Longrightarrow> others (view w) (view w') \<Longrightarrow> reachable r view w'"

section \<open>Every managed namespace has a record that holds it\<close>

definition holds :: "dev_environment option \<Rightarrow> string \<Rightarrow> bool" where
  "holds x n \<longleftrightarrow> (\<exists>e. x = Some e \<and> TargetNamespace e = n \<and> finalizerName \<in> set (Finalizers e))"

definition none_stranded :: "cluster \<Rightarrow> bool" where
  "none_stranded c \<longleftrightarrow> (\<forall>n ns. cl_namespaces c n = Some ns \<longrightarrow> managed ns \<longrightarrow>
     holds (cl_envs c (owner_key ns)) n)"

lemma none_strandedD:
  "none_stranded c \<Longrightarrow> cl_namespaces c n = Some ns \<Longrightarrow> managed ns \<Longrightarrow> holds (cl_envs c (owner_key ns)) n"
  by (simp add: none_stranded_def)

lemma holds_Some [simp]:
  "holds (Some e) n \<longleftrightarrow> TargetNamespace e = n \<and> finalizerName \<in> set (Finalizers e)"
  "holds None n \<longleftrightarrow> False"
  by (auto simp: holds_def)

lemma owns_managed: "owns e ns \<longleftrightarrow> managed ns \<and> owner_key ns = obj_key e"
  by (auto simp: owns_def managed_def owner_key_def obj_key_def Let_def)

text \<open>The invariant survives when no namespace gains an owner and no record stops holding.\<close>

lemma none_stranded_mono:
  assumes "none_stranded c"
    and "\<And>n ns. cl_namespaces c' n = Some ns \<Longrightarrow> managed ns \<Longrightarrow>
      (\<exists>ns0. cl_namespaces c n = Some ns0 \<and> managed ns0 \<and> owner_key ns0 = owner_key ns)"
    and "\<And>k n. holds (cl_envs c k) n \<Longrightarrow> holds (cl_envs c' k) n"
  shows "none_stranded c'"
  using assms unfolding none_stranded_def by metis

lemma none_stranded_frame:
  assumes "none_stranded c" and "cl_namespaces c' = cl_namespaces c"
    and "\<And>k n. holds (cl_envs c k) n \<Longrightarrow> holds (cl_envs c' k) n"
  shows "none_stranded c'"
  using assms unfolding none_stranded_def by simp

lemma faithful_edit_holds:
  "faithful_edit old e \<Longrightarrow> holds (Some old) n \<Longrightarrow> holds (Some e) n"
  by (auto simp: faithful_edit_def valid_transition_def TargetNamespace_def obj_key_def)

lemma others_none_stranded:
  assumes "others c c'" and "none_stranded c"
  shows "none_stranded c'"
  using assms
proof induction
  case (user_edits c k old e)
  then have "holds (Some old) n \<Longrightarrow> holds (Some e) n" for n using faithful_edit_holds by blast
  then show ?case
    using user_edits.hyps by (intro none_stranded_mono [OF user_edits.prems]) (auto split: if_splits)
next
  case (user_deletes c k old t v)
  then show ?case
    by (intro none_stranded_mono [OF user_deletes.prems]) (auto simp: TargetNamespace_def)
next
  case (record_removed c k old)
  then show ?case
    by (intro none_stranded_mono [OF record_removed.prems]) (auto split: if_splits)
next
  case (user_creates c e)
  then show ?case
    by (intro none_stranded_mono [OF user_creates.prems]) auto
next
  case (namespaces f c)
  then show ?case
    by (intro none_stranded_mono [OF namespaces.prems]) auto
qed (simp add: none_stranded_def)

lemma record_kept_holds: "record_kept x y \<Longrightarrow> holds x n \<Longrightarrow> holds y n"
  by (auto simp: record_kept_def holds_def TargetNamespace_def split: option.splits)

text \<open>A pass creates or relabels at most the target namespace, for a record that holds it.\<close>

lemma confined_none_stranded:
  assumes "confined e c c'" and "none_stranded c" and "holds (cl_envs c (obj_key e)) (TargetNamespace e)"
  shows "none_stranded c'"
  unfolding none_stranded_def
proof (intro allI impI)
  fix n ns
  assume ns: "cl_namespaces c' n = Some ns" "managed ns"
  have envs: "cl_envs c' = cl_envs c" using assms(1) by (rule confined_envs)
  show "holds (cl_envs c' (owner_key ns)) n"
  proof (cases "cl_namespaces c' n = cl_namespaces c n")
    case True
    then show ?thesis using none_strandedD [OF assms(2)] ns envs by simp
  next
    case False
    have frame: "m \<noteq> TargetNamespace e \<Longrightarrow> cl_namespaces c' m = cl_namespaces c m"
      and "namespace_step e (cl_namespaces c (TargetNamespace e)) (cl_namespaces c' (TargetNamespace e))" for m
      using assms(1) by (simp_all add: confined_def Let_def)
    with False have "n = TargetNamespace e" by blast
    then have "owns e ns"
      using False ns \<open>namespace_step e _ _\<close> by (auto simp: namespace_step_def)
    then show ?thesis using assms(3) envs \<open>n = _\<close> by (simp add: owns_managed)
  qed
qed

lemma delete_pass_none_stranded:
  assumes "delete_pass env c res c'" and "none_stranded c" and "cl_envs c (obj_key env) = Some env"
  shows "none_stranded c'"
  using assms(1)
proof (cases rule: delete_pass_cases)
  case unchanged
  then show ?thesis using assms(2) by simp
next
  case (deleted y)
  then obtain ns0 where "cl_namespaces c (TargetNamespace env) = Some ns0" "owns env ns0"
    unfolding torn_down_def by (auto split: option.splits)
  then show ?thesis
    using deleted by (intro none_stranded_mono [OF assms(2)]) (auto simp: owns_managed split: if_splits)
next
  case (released obj)
  have same: "cl_namespaces c' = cl_namespaces c" "k \<noteq> obj_key env \<Longrightarrow> cl_envs c' k = cl_envs c k" for k
    using update_env_namespaces [OF released(1)] update_env_records [OF released(1)] without_finalizer_key
    by metis+
  show ?thesis
    unfolding none_stranded_def
  proof (intro allI impI)
    fix n ns
    assume ns: "cl_namespaces c' n = Some ns" "managed ns"
    then have held: "holds (cl_envs c (owner_key ns)) n" using none_strandedD [OF assms(2)] same by simp
    have "owner_key ns \<noteq> obj_key env"
    proof
      assume key: "owner_key ns = obj_key env"
      then have "n = TargetNamespace env" "owns env ns" using held assms(3) ns by (simp_all add: owns_managed)
      then show False using released(2) ns(1) same by (simp add: torn_down_def)
    qed
    then show "holds (cl_envs c' (owner_key ns)) n" using held same by simp
  qed
qed

lemma reconcile_pass_none_stranded:
  assumes "reconcile_pass admit_d admit_v req c res c'" and "wf_cluster c" and "none_stranded c"
  shows "none_stranded c'"
  using assms(1,2)
proof (rule reconcile_pass_cases)
  assume "c' = c"
  then show ?thesis using assms(3) by simp
next
  fix env
  assume "cl_envs c (ReqNamespace req, ReqName req) = Some env" "obj_key env = (ReqNamespace req, ReqName req)"
    "delete_pass env c res c'"
  then show ?thesis using delete_pass_none_stranded assms(3) by simp
next
  fix env obj c1
  assume env: "cl_envs c (ReqNamespace req, ReqName req) = Some env" "obj_key env = (ReqNamespace req, ReqName req)"
    and c1: "c1 = c\<lparr>cl_envs := cl_envs c1\<rparr>" "\<And>k. k \<noteq> obj_key env \<Longrightarrow> cl_envs c1 k = cl_envs c k"
    and obj: "cl_envs c1 (obj_key env) = Some obj" "finalizerName \<in> set (Finalizers obj)" "obj_key obj = obj_key env"
      "Name obj = Name env" "Spec obj = Spec env"
    and rest: "c' = c1 \<and> fst res = no_result \<and> snd res \<noteq> None \<or> live_pass admit_d admit_v obj c1 res c'"
  have target: "TargetNamespace obj = TargetNamespace env" using obj by (simp add: TargetNamespace_def)
  have "cl_namespaces c1 = cl_namespaces c" using c1(1) by (rule namespaces_frame)
  moreover have "holds (cl_envs c1 k) n" if "holds (cl_envs c k) n" for k n
    using that c1(2) [of k] obj env target by (cases "k = obj_key env") auto
  ultimately have inv: "none_stranded c1" by (rule none_stranded_frame [OF assms(3)])
  show ?thesis
  proof (cases "live_pass admit_d admit_v obj c1 res c'")
    case True
    then obtain c2 where kept: "\<And>k. record_kept (cl_envs c1 k) (cl_envs c' k)"
      and c2: "confined obj c1 c2" "c' = c2\<lparr>cl_envs := cl_envs c'\<rparr>"
      using live_pass_records by blast
    have "none_stranded c2"
      using confined_none_stranded [OF c2(1) inv] obj by simp
    moreover have "cl_namespaces c' = cl_namespaces c2" using c2(2) by (rule namespaces_frame)
    moreover have "holds (cl_envs c2 k) n \<Longrightarrow> holds (cl_envs c' k) n" for k n
      using record_kept_holds [OF kept] confined_envs [OF c2(1)] by simp
    ultimately show ?thesis by (rule none_stranded_frame)
  next
    case False
    then show ?thesis using rest inv by simp
  qed
qed

section \<open>The invariant holds\<close>

lemma managed_namespace_held:
  assumes "api_server r view admit_ns admit_pvc admit_deploy admit_svc"
    and "reachable r view w" and "cl_namespaces (view w) n = Some ns" and "managed ns"
  shows "\<exists>e. cl_envs (view w) (owner_key ns) = Some e \<and> owns e ns \<and>
    TargetNamespace e = n \<and> finalizerName \<in> set (Finalizers e)"
proof -
  have "none_stranded (view w)"
    using assms(2)
  proof induction
    case (start w)
    then show ?case by (auto simp: none_stranded_def)
  next
    case (pass w req res w')
    then show ?case using reconcile_pass_none_stranded Reconcile_cases [OF assms(1) pass.hyps(2)] by blast
  next
    case (other w w')
    then show ?case using others_none_stranded by blast
  qed
  then obtain e where e: "cl_envs (view w) (owner_key ns) = Some e" "TargetNamespace e = n"
      "finalizerName \<in> set (Finalizers e)"
    using none_strandedD assms(3,4) unfolding holds_def by blast
  have "wf_cluster (view w)" by (rule wf_view_server [OF assms(1)])
  then have "obj_key e = owner_key ns" using e(1) unfolding wf_cluster_def keyed_def by blast
  then show ?thesis using e assms(4) by (auto simp: owns_managed)
qed

section \<open>Properties\<close>

text \<open>
  C1. No namespace is stranded. In every cluster the operator and the other actors can reach,
  whatever fails and in whatever order they act, a namespace that carries the manager label has
  a DevEnvironment record under the name and namespace its labels give, which still has the
  operator's finalizer and still targets this namespace.
\<close>

theorem no_stranded_namespace:
  assumes "api_server r view admit_ns admit_pvc admit_deploy admit_svc"
    and "reachable r view w" and "cl_namespaces (view w) n = Some ns" and "managed ns"
  shows "\<exists>e. cl_envs (view w) (owner_key ns) = Some e \<and> owns e ns \<and>
    TargetNamespace e = n \<and> finalizerName \<in> set (Finalizers e)"
  by (rule managed_namespace_held [OF assms])

lemma start_reachable: "reachable mem_reconciler mem_view start_mem"
proof -
  have "reachable mem_reconciler mem_view empty_mem"
    by (rule reachable.start) (simp add: mem_view_def empty_mem_def)
  moreover have "others (mem_view empty_mem) (mem_view start_mem)"
  proof -
    have "mem_view start_mem = (mem_view empty_mem)\<lparr>cl_envs :=
        (cl_envs (mem_view empty_mem))(obj_key sample_env \<mapsto> sample_env)\<rparr>"
      by (simp add: mem_view_def start_mem_def empty_mem_def fun_eq_iff)
    then show ?thesis
      using others.user_creates [of "mem_view empty_mem" sample_env]
      by (simp add: mem_view_def empty_mem_def)
  qed
  ultimately show ?thesis by (rule reachable.other)
qed

lemma first_pass_reachable: "reachable mem_reconciler mem_view (snd first_pass)"
  using reachable.pass [OF start_reachable first_pass_result] .

lemma first_pass_namespace:
  obtains ns where "cl_namespaces (mem_view (snd first_pass)) ''team-alpha'' = Some ns" "managed ns"
    "owner_key ns = (''default'', ''team-alpha'')"
proof -
  have "length (m_namespaces (snd first_pass)) = 1" by code_simp
  then obtain ns where one: "m_namespaces (snd first_pass) = [ns]"
    by (cases "m_namespaces (snd first_pass)") auto
  have "Name (hd (m_namespaces (snd first_pass))) = ''team-alpha''"
    "managed (hd (m_namespaces (snd first_pass)))"
    "owner_key (hd (m_namespaces (snd first_pass))) = (''default'', ''team-alpha'')" by code_simp+
  then show ?thesis by (intro that [of ns]) (simp_all add: one mem_view_def)
qed

theorem no_stranded_namespace_witness:
  "\<exists>ns e. cl_namespaces (mem_view (snd first_pass)) ''team-alpha'' = Some ns \<and>
     cl_envs (mem_view (snd first_pass)) (''default'', ''team-alpha'') = Some e \<and> owns e ns \<and>
     finalizerName \<in> set (Finalizers e)"
proof -
  obtain ns where ns: "cl_namespaces (mem_view (snd first_pass)) ''team-alpha'' = Some ns" "managed ns"
    "owner_key ns = (''default'', ''team-alpha'')" by (rule first_pass_namespace)
  show ?thesis
    using no_stranded_namespace [OF mem_api_server first_pass_reachable ns(1,2)] ns by auto
qed

text \<open>
  C14. A namespace event reaches its environment. In every reachable state, an event on a managed
  namespace, its final removal included, puts exactly one request on the work queue, and it is
  for the record that holds the namespace; so the operator learns that a namespace has finished
  terminating and does not keep its finalizer for ever.
\<close>

theorem namespace_event_wakes_holder:
  assumes "api_server r view admit_ns admit_pvc admit_deploy admit_svc"
    and "reachable r view w" and "cl_namespaces (view w) n = Some ns" and "managed ns"
    and "fst (owner_key ns) \<noteq> []" and "snd (owner_key ns) \<noteq> []"
  shows "\<exists>req e. enqueues environmentController (NamespaceEvent ns) = [req] \<and>
    cl_envs (view w) (ReqNamespace req, ReqName req) = Some e \<and> TargetNamespace e = n \<and>
    finalizerName \<in> set (Finalizers e)"
proof -
  obtain e where "cl_envs (view w) (owner_key ns) = Some e" "TargetNamespace e = n"
      "finalizerName \<in> set (Finalizers e)"
    using managed_namespace_held [OF assms(1-4)] by blast
  moreover have "enqueues environmentController (NamespaceEvent ns) =
      [\<lparr>ReqNamespace = fst (owner_key ns), ReqName = snd (owner_key ns)\<rparr>]"
    using assms(4-6)
    by (simp add: environmentController_def mapToEnvironment_def managed_def owner_key_def Let_def)
  ultimately show ?thesis by simp
qed

theorem namespace_event_wakes_holder_witness:
  "\<exists>ns req. cl_namespaces (mem_view (snd first_pass)) ''team-alpha'' = Some ns \<and>
     enqueues environmentController (NamespaceEvent ns) = [req]"
proof -
  obtain ns where ns: "cl_namespaces (mem_view (snd first_pass)) ''team-alpha'' = Some ns" "managed ns"
    "owner_key ns = (''default'', ''team-alpha'')" by (rule first_pass_namespace)
  show ?thesis
    using namespace_event_wakes_holder [OF mem_api_server first_pass_reachable ns(1,2)] ns
    by (auto simp del: enqueues.simps)
qed

text \<open>
  What one pass without error does to a record under deletion that only the operator holds: it
  is gone, because its namespace was, or it is unchanged and its namespace is on the way out.
\<close>

lemma teardown_pass:
  assumes "reconcile_pass admit_d admit_v req c (res, None) c'" and "wf_cluster c"
    and "cl_envs c (ReqNamespace req, ReqName req) = Some e"
    and "DeletionTimestamp e \<noteq> None" and "Finalizers e = [finalizerName]"
  shows "if torn_down e c then cl_envs c' (ReqNamespace req, ReqName req) = None
    else cl_envs c' = cl_envs c \<and> gone (cl_namespaces c' (TargetNamespace e))"
proof -
  have key: "obj_key e = (ReqNamespace req, ReqName req)"
    using assms(2,3) unfolding wf_cluster_def keyed_def by blast
  have pass: "delete_pass e c (res, None) c'" using assms(1,3,4) by (simp add: reconcile_pass_def)
  show ?thesis
  proof (cases "torn_down e c")
    case True
    then obtain obj where "update_env_effect (without_finalizer e) c obj c'"
      using pass assms(5) by (auto simp: delete_pass_def)
    then have "cl_envs c' (obj_key e) = None"
      using assms(3,4,5) key by (auto simp: update_env_effect_def without_finalizer_def obj_key_def)
    then show ?thesis using True key by simp
  next
    case False
    have "gone (cl_namespaces c' (TargetNamespace e))" using pass False assms(5) by (simp add: delete_pass_def)
    moreover have "cl_envs c' = cl_envs c" using pass by (cases rule: delete_pass_cases) (use False in simp_all)
    ultimately show ?thesis using False by simp
  qed
qed

text \<open>
  C13. Teardown completes. Take a record under deletion whose only finalizer is the operator's.
  After one pass without error its namespace is deleted or terminating, or was never the
  environment's; once the namespace controller has removed the namespace, one more pass without
  error removes the record.
\<close>

theorem teardown_completes:
  assumes "api_server r view admit_ns admit_pvc admit_deploy admit_svc"
    and "cl_envs (view w) (ReqNamespace req, ReqName req) = Some e"
    and "DeletionTimestamp e \<noteq> None" and "Finalizers e = [finalizerName]"
    and "run_state (Reconcile r req) w = ((res1, None), w1)"
    and "view w2 = (view w1)\<lparr>cl_namespaces := (cl_namespaces (view w1))(TargetNamespace e := None)\<rparr>"
    and "run_state (Reconcile r req) w2 = ((res2, None), w3)"
  shows "(torn_down e (view w) \<or> gone (cl_namespaces (view w1) (TargetNamespace e))) \<and>
    cl_envs (view w3) (ReqNamespace req, ReqName req) = None"
proof -
  note first = teardown_pass [OF Reconcile_cases [OF assms(1,5)] assms(2-4)]
  note second = Reconcile_cases [OF assms(1,7)]
  show ?thesis
  proof (cases "torn_down e (view w)")
    case True
    then have "cl_envs (view w2) (ReqNamespace req, ReqName req) = None" using first assms(6) by simp
    then have "view w3 = view w2" using second(1) by (simp add: reconcile_pass_def)
    then show ?thesis using True \<open>cl_envs (view w2) _ = None\<close> by simp
  next
    case False
    then have kept: "cl_envs (view w2) (ReqNamespace req, ReqName req) = Some e"
      and gone: "gone (cl_namespaces (view w1) (TargetNamespace e))" using first assms(2,6) by simp_all
    have "torn_down e (view w2)" by (simp add: torn_down_def assms(6))
    then show ?thesis using teardown_pass [OF second kept assms(3,4)] gone by simp
  qed
qed

text \<open>The two passes on the sample environment: its namespace goes, then its record.\<close>

definition second_teardown :: "(ctrl_result \<times> go_error option) \<times> mem" where
  "second_teardown = run_state (Reconcile mem_reconciler sample_request)
     ((snd (run_state (Reconcile mem_reconciler sample_request) teardown_mem))\<lparr>m_namespaces := []\<rparr>)"

theorem teardown_completes_witness:
  "length (m_namespaces teardown_mem) = 1 \<and> m_namespaces (snd second_teardown) = [] \<and>
   cl_envs (mem_view (snd second_teardown)) (''default'', ''team-alpha'') = None"
proof -
  let ?e = "sample_env\<lparr>DeletionTimestamp := Some 1, Finalizers := [finalizerName]\<rparr>"
  let ?run = "run_state (Reconcile mem_reconciler sample_request) teardown_mem"
  let ?w2 = "(snd ?run)\<lparr>m_namespaces := []\<rparr>"
  have env: "cl_envs (mem_view teardown_mem) (ReqNamespace sample_request, ReqName sample_request) = Some ?e"
    by (simp add: mem_view_def teardown_mem_def obj_key_def sample_request_def)
  have "fst ?run = (no_result, None)" "fst second_teardown = (no_result, None)"
    "length (m_namespaces teardown_mem) = 1" "m_namespaces (snd ?run) = []" "m_namespaces (snd second_teardown) = []"
    by code_simp+
  moreover from this have "?run = ((no_result, None), snd ?run)"
    "run_state (Reconcile mem_reconciler sample_request) ?w2 = ((no_result, None), snd second_teardown)"
    by (simp_all add: prod_eq_iff second_teardown_def)
  moreover have "mem_view ?w2 = (mem_view (snd ?run))\<lparr>cl_namespaces :=
      (cl_namespaces (mem_view (snd ?run)))(TargetNamespace ?e := None)\<rparr>"
    using \<open>m_namespaces (snd ?run) = []\<close> by (simp add: mem_view_def fun_eq_iff)
  ultimately show ?thesis
    using teardown_completes [OF mem_api_server env] by (simp add: sample_request_def)
qed

end
