(* ===== verification/Shared_Api.thy ===== *)
theory Shared_Api
  imports Lifecycle
begin

text \<open>
  The same client, seen by an operator that is not alone: before and after the server carries
  out a call, other actors take any number of steps of \<open>others\<close>. The laws here are weaker than
  those of \<open>api_server\<close>, which are the case where nobody else acts. Two more
  locales count the requests a program sends and list what they need permission for.
\<close>

section \<open>Calls in the middle of interference\<close>

definition meanwhile :: "cluster \<Rightarrow> cluster \<Rightarrow> bool" where
  "meanwhile c c' \<longleftrightarrow> others\<^sup>*\<^sup>* c c'"

lemma meanwhile_refl [simp]: "meanwhile c c"
  by (simp add: meanwhile_def)

lemma meanwhile_trans: "meanwhile c c1 \<Longrightarrow> meanwhile c1 c2 \<Longrightarrow> meanwhile c c2"
  by (simp add: meanwhile_def)

lemma meanwhile_step: "others c c' \<Longrightarrow> meanwhile c c'"
  by (simp add: meanwhile_def)

lemma meanwhile_contents:
  "cl_envs c' = cl_envs c \<Longrightarrow> cl_namespaces c' = cl_namespaces c \<Longrightarrow> meanwhile c c'"
  by (intro meanwhile_step others.contents)

text \<open>\<open>shared view eff m\<close>: the call \<open>m\<close> has the effect \<open>eff\<close> at some moment of its run.\<close>

definition shared :: "('w \<Rightarrow> cluster) \<Rightarrow> (cluster \<Rightarrow> 'a \<Rightarrow> cluster \<Rightarrow> bool) \<Rightarrow> ('w, 'a) state \<Rightarrow> bool" where
  "shared view eff m \<longleftrightarrow> (\<forall>w res w'. run_state m w = (res, w') \<longrightarrow>
     (\<exists>c1 c2. meanwhile (view w) c1 \<and> eff c1 res c2 \<and> meanwhile c2 (view w')))"

definition reading :: "(cluster \<Rightarrow> 'o option) \<Rightarrow> cluster \<Rightarrow> go_error + 'o \<Rightarrow> cluster \<Rightarrow> bool" where
  "reading look c res c' \<longleftrightarrow> c' = c \<and>
     (case res of Inr obj \<Rightarrow> look c = Some obj | Inl e \<Rightarrow> is_not_found e \<longrightarrow> look c = None)"

definition writing :: "(cluster \<Rightarrow> 'o \<Rightarrow> cluster \<Rightarrow> bool) \<Rightarrow> cluster \<Rightarrow> go_error + 'o \<Rightarrow> cluster \<Rightarrow> bool" where
  "writing eff c res c' \<longleftrightarrow>
     (case res of Inr obj \<Rightarrow> eff c obj c' | Inl e \<Rightarrow> c' = c \<or> (\<exists>obj. eff c obj c'))"

text \<open>A program that touches neither records nor namespaces itself.\<close>

definition uninvolved :: "('w \<Rightarrow> cluster) \<Rightarrow> ('w, 'a) state \<Rightarrow> bool" where
  "uninvolved view m \<longleftrightarrow> (\<forall>w. meanwhile (view w) (view (snd (run_state m w))))"

definition steady :: "(cluster \<Rightarrow> bool) \<Rightarrow> bool" where
  "steady P \<longleftrightarrow> (\<forall>c c'. P c \<longrightarrow> others c c' \<longrightarrow> P c')"

lemma steady_meanwhile:
  assumes "steady P" and "meanwhile c c'" and "P c"
  shows "P c'"
  using assms(2) unfolding meanwhile_def
proof (induction rule: rtranclp_induct)
  case (step c1 c2)
  then show ?case using assms(1) unfolding steady_def by blast
qed (rule assms(3))

named_theorems steady_rules

lemma steady_conj [steady_rules]: "steady P \<Longrightarrow> steady Q \<Longrightarrow> steady (\<lambda>c. P c \<and> Q c)"
  unfolding steady_def by blast

lemma steady_fact [steady_rules]: "steady (\<lambda>c. b)"
  by (simp add: steady_def)

lemma steady_if [steady_rules]: "steady P \<Longrightarrow> steady Q \<Longrightarrow> steady (\<lambda>c. if b then P c else Q c)"
  by (cases b) simp_all

lemma steady_sum [steady_rules]:
  "(\<And>e. steady (P e)) \<Longrightarrow> (\<And>x. steady (Q x)) \<Longrightarrow> steady (\<lambda>c. case r of Inl e \<Rightarrow> P e c | Inr x \<Rightarrow> Q x c)"
  by (cases r) auto

text \<open>The rule for a call: its effect takes one steady assertion to another.\<close>

lemma shared_step:
  assumes "shared view eff m" and "steady P"
    and "\<And>c res c'. P c \<Longrightarrow> eff c res c' \<Longrightarrow> R res c'" and "\<And>res. steady (R res)"
    and "\<And>res. hoare view (R res) (f res) Q"
  shows "hoare view P (State_Monad.bind m f) Q"
proof (rule hoare_bind [OF _ assms(5)])
  show "hoare view P m R"
    unfolding hoare_def
  proof (rule tripleI)
    fix w res w'
    assume "P (view w)" and "run_state m w = (res, w')"
    then obtain c1 c2 where "meanwhile (view w) c1" "eff c1 res c2" "meanwhile c2 (view w')"
      using assms(1) unfolding shared_def by blast
    then show "R res (view w')" using assms(2,3,4) \<open>P (view w)\<close> steady_meanwhile by metis
  qed
qed

lemma hoare_fact:
  assumes "b \<Longrightarrow> hoare view P m Q" and "\<And>c. P c \<Longrightarrow> b"
  shows "hoare view P m Q"
proof (cases b)
  case False
  then have "\<not> P c" for c using assms(2) by blast
  then show ?thesis by (simp add: hoare_def triple_def)
qed (rule assms(1))

lemma uninvolved_hoare: "uninvolved view m \<Longrightarrow> steady P \<Longrightarrow> hoare view P m (\<lambda>_. P)"
  unfolding hoare_def
  by (intro tripleI) (metis uninvolved_def snd_conv steady_meanwhile)

lemma uninvolved_step:
  "uninvolved view m \<Longrightarrow> steady P \<Longrightarrow> (\<And>res. hoare view P (f res) Q) \<Longrightarrow> hoare view P (State_Monad.bind m f) Q"
  by (rule hoare_bind [OF uninvolved_hoare])

text \<open>How programs are uninvolved because their calls are.\<close>

named_theorems uninvolved_rules

lemma uninvolved_return [uninvolved_rules]: "uninvolved view (State_Monad.return x)"
  by (simp add: uninvolved_def)

lemma uninvolved_bind [uninvolved_rules]:
  "uninvolved view m \<Longrightarrow> (\<And>x. uninvolved view (f x)) \<Longrightarrow> uninvolved view (State_Monad.bind m f)"
  unfolding uninvolved_def by (auto simp: case_prod_beta intro: meanwhile_trans)

lemma uninvolved_if [uninvolved_rules]:
  "(b \<Longrightarrow> uninvolved view m) \<Longrightarrow> (\<not> b \<Longrightarrow> uninvolved view n) \<Longrightarrow> uninvolved view (if b then m else n)"
  by simp

lemma uninvolved_sum [uninvolved_rules]:
  "(\<And>e. uninvolved view (f e)) \<Longrightarrow> (\<And>x. uninvolved view (g x)) \<Longrightarrow> uninvolved view (case r of Inl e \<Rightarrow> f e | Inr x \<Rightarrow> g x)"
  by (cases r) auto

lemma uninvolved_option [uninvolved_rules]:
  "uninvolved view f \<Longrightarrow> (\<And>x. uninvolved view (g x)) \<Longrightarrow> uninvolved view (case r of None \<Rightarrow> f | Some x \<Rightarrow> g x)"
  by (cases r) auto

lemma uninvolved_prod [uninvolved_rules]:
  "(\<And>x y. uninvolved view (f x y)) \<Longrightarrow> uninvolved view (case r of (x, y) \<Rightarrow> f x y)"
  by (cases r) auto

lemma uninvolved_shared: "shared view eff m \<Longrightarrow> (\<And>c res c'. eff c res c' \<Longrightarrow> meanwhile c c') \<Longrightarrow> uninvolved view m"
  unfolding shared_def uninvolved_def by (metis meanwhile_trans prod.collapse)

section \<open>The laws\<close>

text \<open>
  A record is returned under the key it was asked for. Everything outside records and namespaces
  may behave in any way.
\<close>

locale shared_api =
  fixes r :: "'w reconciler" and view :: "'w \<Rightarrow> cluster" and admit_ns :: "namespace \<Rightarrow> namespace \<Rightarrow> bool"
  assumes admit_ns_shared: "admission admit_ns"
    and get_env_shared: "shared view (\<lambda>c res c'. reading (\<lambda>c. cl_envs c k) c res c' \<and>
        (\<forall>e. res = Inr e \<longrightarrow> obj_key e = k)) (get_env (Client r) k)"
    and update_env_shared: "shared view (writing (update_env_effect e)) (update_env (Client r) e)"
    and update_env_status_shared:
      "shared view (writing (update_status_effect e)) (update_env_status (Client r) e)"
    and get_namespace_shared:
      "shared view (reading (\<lambda>c. cl_namespaces c n)) (get_namespace (Client r) n)"
    and create_namespace_shared:
      "shared view (writing (create_effect admit_ns cl_namespaces cl_namespaces_update (Name ns) ns))
         (create_namespace (Client r) ns)"
    and patch_namespace_shared:
      "Name modified = Name base \<Longrightarrow>
       shared view (writing (patch_effect base modified)) (patch_namespace (Client r) base modified)"
    and delete_namespace_shared:
      "shared view (writing (delete_effect cl_namespaces cl_namespaces_update (Name ns))) (delete_namespace (Client r) ns)"
    and contents_shared:
      "keeps_meta f_cm \<Longrightarrow> uninvolved view (create_or_update_config_map (Client r) cm f_cm)"
      "uninvolved view (delete_config_map (Client r) cm)"
      "uninvolved view (get_secret (Client r) ks)" "uninvolved view (get_secret (reader r) ks)"
      "uninvolved view (create_secret (Client r) s)"
      "keeps_meta f_s \<Longrightarrow> uninvolved view (create_or_update_secret (Client r) s f_s)"
      "uninvolved view (delete_secret (Client r) s uid)"
      "uninvolved view (get_pvc (Client r) kp)" "uninvolved view (create_pvc (Client r) p)"
      "keeps_meta f_d \<Longrightarrow> (\<And>x. DeployStatus (f_d x) = DeployStatus x) \<Longrightarrow>
         uninvolved view (create_or_update_deployment (Client r) d f_d)"
      "uninvolved view (list_deployments (Client r) l ls)" "uninvolved view (delete_deployment (Client r) d)"
      "keeps_meta f_v \<Longrightarrow> uninvolved view (create_or_update_service (Client r) v f_v)"
      "uninvolved view (list_services (Client r) l ls)" "uninvolved view (delete_service (Client r) v)"
      "uninvolved view (list_pods (reader r) l ls)"
      "uninvolved view (set_status_condition (Helpers r) cs cond)"
    and contains_finalizer_shared: "contains_finalizer (Helpers r) e f \<longleftrightarrow> f \<in> set (Finalizers e)"
    and add_finalizer_shared: "add_finalizer (Helpers r) e f =
         (if f \<in> set (Finalizers e) then e else e\<lparr>Finalizers := Finalizers e @ [f]\<rparr>)"
    and remove_finalizer_shared:
      "remove_finalizer (Helpers r) e f = e\<lparr>Finalizers := filter (\<lambda>g. g \<noteq> f) (Finalizers e)\<rparr>"

text \<open>
  Counting: \<open>calls\<close> are the requests sent so far and \<open>listed\<close> the objects received in lists.
  A lookup, a create, an update, a patch or a delete is one request; \<open>CreateOrUpdate\<close> is at most
  two, a read and a write.
\<close>

definition costs :: "('w \<Rightarrow> nat) \<Rightarrow> ('w \<Rightarrow> nat) \<Rightarrow> nat \<Rightarrow> ('w, 'a) state \<Rightarrow> bool" where
  "costs calls listed n m \<longleftrightarrow> (\<forall>w res w'. run_state m w = (res, w') \<longrightarrow>
     calls w' + listed w \<le> calls w + listed w' + n)"

definition lists_costs :: "('w \<Rightarrow> nat) \<Rightarrow> ('w \<Rightarrow> nat) \<Rightarrow> ('w, 'a list) io \<Rightarrow> bool" where
  "lists_costs calls listed m \<longleftrightarrow> (\<forall>w res w'. run_state m w = (res, w') \<longrightarrow>
     calls w' \<le> calls w + 1 \<and>
     listed w' = listed w + (case res of Inl e \<Rightarrow> 0 | Inr objs \<Rightarrow> length objs))"

locale metered_api =
  fixes r :: "'w reconciler" and calls :: "'w \<Rightarrow> nat" and listed :: "'w \<Rightarrow> nat"
  assumes one_request:
      "costs calls listed 1 (get_env (Client r) k)" "costs calls listed 1 (update_env (Client r) e)"
      "costs calls listed 1 (update_env_status (Client r) e)"
      "costs calls listed 1 (get_namespace (Client r) n)" "costs calls listed 1 (create_namespace (Client r) ns)"
      "costs calls listed 1 (patch_namespace (Client r) base modified)"
      "costs calls listed 1 (delete_namespace (Client r) ns)"
      "costs calls listed 1 (delete_config_map (Client r) cm)"
      "costs calls listed 1 (get_secret (Client r) ks)" "costs calls listed 1 (get_secret (reader r) ks)"
      "costs calls listed 1 (create_secret (Client r) s)" "costs calls listed 1 (delete_secret (Client r) s uid)"
      "costs calls listed 1 (get_pvc (Client r) kp)" "costs calls listed 1 (create_pvc (Client r) p)"
      "costs calls listed 1 (delete_deployment (Client r) d)" "costs calls listed 1 (delete_service (Client r) v)"
    and two_requests:
      "costs calls listed 2 (create_or_update_config_map (Client r) cm f_cm)"
      "costs calls listed 2 (create_or_update_secret (Client r) s f_s)"
      "costs calls listed 2 (create_or_update_deployment (Client r) d f_d)"
      "costs calls listed 2 (create_or_update_service (Client r) v f_v)"
    and list_requests:
      "lists_costs calls listed (list_deployments (Client r) l ls)"
      "lists_costs calls listed (list_services (Client r) l ls)"
      "lists_costs calls listed (list_pods (reader r) l ls)"
    and no_request: "costs calls listed 0 (set_status_condition (Helpers r) cs cond)"
    and update_keeps_spec: "run_state (update_env (Client r) e) w = (Inr obj, w') \<Longrightarrow> Spec obj = Spec e"
    and add_finalizer_keeps_spec: "Spec (add_finalizer (Helpers r) e f) = Spec e"

text \<open>
  Permissions: a request is an API group, a resource and a verb. The client of the manager reads
  through a cache, which lists and watches what is read; the uncached reader does not. The
  uncached reader must be wired, else \<open>reader\<close> falls back to the cached client.
\<close>

type_synonym api_request = "string \<times> string \<times> string"

definition cached :: "string \<Rightarrow> string \<Rightarrow> api_request list" where
  "cached g res = [(g, res, ''get''), (g, res, ''list''), (g, res, ''watch'')]"

definition upsert :: "string \<Rightarrow> string \<Rightarrow> api_request list" where
  "upsert g res = cached g res @ [(g, res, ''create''), (g, res, ''update'')]"

definition env_group :: string where "env_group = ''devenv.aviture.dev''"

definition sends :: "('w \<Rightarrow> api_request list) \<Rightarrow> api_request set \<Rightarrow> ('w, 'a) state \<Rightarrow> bool" where
  "sends sent reqs m \<longleftrightarrow> (\<forall>w res w'. run_state m w = (res, w') \<longrightarrow> set (sent w') \<subseteq> set (sent w) \<union> reqs)"

locale audited_api =
  fixes r :: "'w reconciler" and rd :: "'w api_reader" and sent :: "'w \<Rightarrow> api_request list"
  assumes reader_wired: "APIReader r = Some rd"
    and env_requests:
      "sends sent (set (cached env_group ''devenvironments'')) (get_env (Client r) k)"
      "sends sent {(env_group, ''devenvironments'', ''update'')} (update_env (Client r) e)"
      "sends sent {(env_group, ''devenvironments/status'', ''update'')} (update_env_status (Client r) e)"
    and namespace_requests:
      "sends sent (set (cached [] ''namespaces'')) (get_namespace (Client r) n)"
      "sends sent {([], ''namespaces'', ''create'')} (create_namespace (Client r) ns)"
      "sends sent {([], ''namespaces'', ''patch'')} (patch_namespace (Client r) base modified)"
      "sends sent {([], ''namespaces'', ''delete'')} (delete_namespace (Client r) ns)"
    and content_requests:
      "sends sent (set (upsert [] ''configmaps'')) (create_or_update_config_map (Client r) cm f_cm)"
      "sends sent {([], ''configmaps'', ''delete'')} (delete_config_map (Client r) cm)"
      "sends sent (set (cached [] ''secrets'')) (get_secret (Client r) ks)"
      "sends sent {([], ''secrets'', ''get'')} (get_secret rd ks)"
      "sends sent {([], ''secrets'', ''create'')} (create_secret (Client r) s)"
      "sends sent (set (upsert [] ''secrets'')) (create_or_update_secret (Client r) s f_s)"
      "sends sent {([], ''secrets'', ''delete'')} (delete_secret (Client r) s uid)"
      "sends sent (set (cached [] ''persistentvolumeclaims'')) (get_pvc (Client r) kp)"
      "sends sent {([], ''persistentvolumeclaims'', ''create'')} (create_pvc (Client r) p)"
    and workload_requests:
      "sends sent (set (upsert ''apps'' ''deployments'')) (create_or_update_deployment (Client r) d f_d)"
      "sends sent (set (cached ''apps'' ''deployments'')) (list_deployments (Client r) l ls)"
      "sends sent {(''apps'', ''deployments'', ''delete'')} (delete_deployment (Client r) d)"
      "sends sent (set (upsert [] ''services'')) (create_or_update_service (Client r) v f_v)"
      "sends sent (set (cached [] ''services'')) (list_services (Client r) l ls)"
      "sends sent {([], ''services'', ''delete'')} (delete_service (Client r) v)"
      "sends sent {([], ''pods'', ''list'')} (list_pods rd l ls)"
    and local_request: "sends sent {} (set_status_condition (Helpers r) cs cond)"

section \<open>Without interference\<close>

text \<open>The laws of \<open>api_server\<close> are a special case of the shared ones.\<close>

lemma shared_calm:
  assumes "\<And>c. hoare view ((=) c) m (\<lambda>res c'. eff c res c')"
  shows "shared view eff m"
  unfolding shared_def using hoareD [OF assms refl] meanwhile_refl by blast

lemma shared_reads: "reads view look m \<Longrightarrow> shared view (reading look) m"
  unfolding reads_def by (intro shared_calm) (simp add: reading_def)

lemma shared_writes:
  assumes "writes view missing present eff m"
  shows "shared view (writing eff) m"
proof (rule shared_calm)
  fix c
  show "hoare view ((=) c) m (\<lambda>res c'. writing eff c res c')"
    using assms unfolding writes_def
    by (elim allE [of _ c] hoare_weaken) (auto simp: writing_def write_failed_def split: sum.splits)
qed

lemma uninvolved_reads: "reads view look m \<Longrightarrow> uninvolved view m"
  by (erule uninvolved_shared [OF shared_reads]) (simp add: reading_def)

lemma uninvolved_lists: "lists view sel ns ls m \<Longrightarrow> uninvolved view m"
  unfolding lists_def by (rule uninvolved_shared [OF shared_calm], erule allE) (assumption, simp)

lemma uninvolved_writes:
  "writes view missing present eff m \<Longrightarrow>
   (\<And>c obj c'. eff c obj c' \<Longrightarrow> cl_envs c' = cl_envs c \<and> cl_namespaces c' = cl_namespaces c) \<Longrightarrow> uninvolved view m"
  by (erule uninvolved_shared [OF shared_writes])
     (fastforce simp: writing_def intro: meanwhile_contents split: sum.splits)

lemma effect_elsewhere:
  assumes "\<And>f c. cl_envs (upd f c) = cl_envs c" "\<And>f c. cl_namespaces (upd f c) = cl_namespaces c"
  shows "create_effect admit sel upd k sent c obj c' \<Longrightarrow> cl_envs c' = cl_envs c \<and> cl_namespaces c' = cl_namespaces c"
    and "delete_effect sel upd k c u c' \<Longrightarrow> cl_envs c' = cl_envs c \<and> cl_namespaces c' = cl_namespaces c"
    and "create_or_update_effect admit sel upd k init f c obj c' \<Longrightarrow>
      cl_envs c' = cl_envs c \<and> cl_namespaces c' = cl_namespaces c"
  using assms by (auto simp: create_effect_def delete_effect_def create_or_update_effect_def
      split: option.splits if_splits)

sublocale api_server \<subseteq> shared_api r view admit_ns
proof unfold_locales
  fix k
  show "shared view (\<lambda>c res c'. reading (\<lambda>c. cl_envs c k) c res c' \<and> (\<forall>e. res = Inr e \<longrightarrow> obj_key e = k))
      (get_env (Client r) k)"
  proof (rule shared_calm)
    fix c
    show "hoare view ((=) c) (get_env (Client r) k) (\<lambda>res c'. reading (\<lambda>c. cl_envs c k) c res c' \<and>
        (\<forall>e. res = Inr e \<longrightarrow> obj_key e = k))"
    proof (rule hoare_wf)
      assume wf: "wf_cluster c"
      have "hoare view ((=) c) (get_env (Client r) k) (\<lambda>res c'. reading (\<lambda>c. cl_envs c k) c res c')"
        using get_env_law [of k] by (simp add: reads_def reading_def)
      then show ?thesis
        by (rule hoare_weaken)
          (use wf in \<open>auto simp: reading_def wf_cluster_def keyed_def split: sum.splits simp del: split_paired_All\<close>)
    qed
  qed
qed (rule admit_ns_law contains_finalizer_law add_finalizer_law remove_finalizer_law
    shared_writes [OF update_env_law] shared_writes [OF update_env_status_law]
    shared_reads [OF get_namespace_law] shared_writes [OF create_namespace_law]
    shared_writes [OF patch_namespace_law] shared_writes [OF delete_namespace_law]
    uninvolved_reads [OF get_secret_law] uninvolved_reads [OF read_secret_law] uninvolved_reads [OF get_pvc_law]
    uninvolved_lists [OF list_deployments_law] uninvolved_lists [OF list_services_law]
    uninvolved_lists [OF list_pods_law] |
    (rule uninvolved_writes [OF create_or_update_config_map_law] uninvolved_writes [OF delete_config_map_law]
      uninvolved_writes [OF create_secret_law] uninvolved_writes [OF create_or_update_secret_law]
      uninvolved_writes [OF delete_secret_law]
      uninvolved_writes [OF create_pvc_law] uninvolved_writes [OF create_or_update_deployment_law]
      uninvolved_writes [OF delete_deployment_law] uninvolved_writes [OF create_or_update_service_law]
      uninvolved_writes [OF delete_service_law]) | assumption |
    (erule effect_elsewhere [rotated -1]; simp; fail) | (elim conjE, erule effect_elsewhere [rotated -1]; simp; fail) |
    (rule uninvolved_shared [OF shared_calm [OF set_status_condition_law]]; simp; fail))+

end
