(* ===== verification/Interference.thy ===== *)
theory Interference
  imports Shared_Api
begin

text \<open>
  The operator among other actors. Every request of a pass may be preceded and followed by
  steps of users, of the namespace controller and of anybody else; the proofs follow the code
  of \<open>Reconcile\<close> and show that the invariant \<open>none_stranded\<close> survives at every request.
\<close>

section \<open>Assertions no other actor can break\<close>

lemma steady_none_stranded [steady_rules]: "steady none_stranded"
  unfolding steady_def using others_none_stranded by blast

text \<open>\<open>held e c\<close>: the record of \<open>e\<close> holds its target namespace.\<close>

definition held :: "dev_environment \<Rightarrow> cluster \<Rightarrow> bool" where
  "held e c \<longleftrightarrow> holds (cl_envs c (obj_key e)) (TargetNamespace e)"

lemma others_holds:
  assumes "others c c'" and "holds (cl_envs c k) n"
  shows "holds (cl_envs c' k) n"
  using assms
proof induction
  case (user_edits c k' old e)
  then show ?case using faithful_edit_holds by (cases "k = k'") auto
qed (auto simp: TargetNamespace_def)

lemma steady_held [steady_rules]: "steady (held e)"
  unfolding steady_def held_def using others_holds by blast

text \<open>\<open>owns_nothing k c\<close>: no managed namespace names the record \<open>k\<close> as its owner.\<close>

definition owns_nothing :: "obj_key \<Rightarrow> cluster \<Rightarrow> bool" where
  "owns_nothing k c \<longleftrightarrow> (\<forall>n ns. cl_namespaces c n = Some ns \<longrightarrow> managed ns \<longrightarrow> owner_key ns \<noteq> k)"

lemma steady_owns_nothing [steady_rules]: "steady (owns_nothing k)"
  unfolding steady_def
proof (intro allI impI)
  fix c c'
  assume "owns_nothing k c" "others c c'"
  from this(2,1) show "owns_nothing k c'"
  proof induction
    case (namespaces f c)
    then show ?case unfolding owns_nothing_def by (simp, metis)
  qed (auto simp: owns_nothing_def)
qed

lemma unheld_owns_nothing:
  "none_stranded c \<Longrightarrow> (\<And>n. \<not> holds (cl_envs c k) n) \<Longrightarrow> owns_nothing k c"
  unfolding none_stranded_def owns_nothing_def by blast

text \<open>A record that holds its target owns nothing if the target is absent or foreign.\<close>

lemma torn_down_owns_nothing:
  assumes "none_stranded c" and "held e c"
    and "\<And>ns. cl_namespaces c (TargetNamespace e) = Some ns \<Longrightarrow> \<not> owns e ns"
  shows "owns_nothing (obj_key e) c"
  unfolding owns_nothing_def
proof (intro allI impI notI)
  fix n ns
  assume ns: "cl_namespaces c n = Some ns" "managed ns" "owner_key ns = obj_key e"
  then have "holds (cl_envs c (obj_key e)) n" using none_strandedD [OF assms(1)] by metis
  then have "n = TargetNamespace e" using assms(2) by (auto simp: held_def holds_def)
  then show False using assms(3) ns by (simp add: owns_managed)
qed

definition safe :: "dev_environment \<Rightarrow> cluster \<Rightarrow> bool" where
  "safe e c \<longleftrightarrow> none_stranded c \<and> held e c"

lemma steady_safe [steady_rules]: "steady (safe e)"
  unfolding safe_def [abs_def] by (intro steady_rules)

section \<open>What the writes of the operator preserve\<close>

lemma update_env_shared_effect:
  assumes "update_env_effect e c obj c'"
  shows "cl_namespaces c' = cl_namespaces c" "\<And>k. k \<noteq> obj_key e \<Longrightarrow> cl_envs c' k = cl_envs c k"
  using assms by (auto simp: update_env_effect_def)

lemma none_stranded_free_record:
  assumes "none_stranded c" "owns_nothing (obj_key e) c" "update_env_effect e c obj c'"
  shows "none_stranded c'"
  using assms(1,2) update_env_shared_effect [OF assms(3)]
  unfolding none_stranded_def owns_nothing_def by metis

lemma finalizer_stored_held:
  assumes "update_env_effect (with_finalizer e) c obj c'"
  shows "held obj c'"
  using assms by (auto simp: update_env_effect_def held_def with_finalizer_def obj_key_def TargetNamespace_def)

lemma status_holds:
  assumes "update_status_effect e c obj c'"
  shows "cl_namespaces c' = cl_namespaces c" "holds (cl_envs c k) n \<Longrightarrow> holds (cl_envs c' k) n"
  using assms by (auto simp: update_status_effect_def TargetNamespace_def)

lemma create_none_stranded:
  assumes eff: "create_effect admit cl_namespaces cl_namespaces_update (TargetNamespace e) sent c obj c'"
    and "admission admit" and "safe e c" and sent: "Labels sent = labels e []"
  shows "safe e c'"
proof -
  obtain y where y: "admit sent y" "Labels obj = Labels y"
    using eff by (auto simp: create_effect_def stamped_def)
  have "map_of (labels e []) \<subseteq>\<^sub>m map_of (Labels obj)"
    using assms(2) y sent unfolding admission_def by metis
  then have "owns e obj" by (rule labels_current_owns [unfolded labels_current_def])
  then show ?thesis
    using assms(3) eff unfolding safe_def none_stranded_def create_effect_def held_def
    by (auto simp: owns_managed)
qed

lemma delete_none_stranded:
  assumes "delete_effect cl_namespaces cl_namespaces_update n c u c'" and "none_stranded c"
  shows "none_stranded c'"
  using assms
  by (intro none_stranded_mono [OF assms(2)])
     (auto simp: delete_effect_def managed_def owner_key_def split: if_splits)

text \<open>
  The merge patch never writes the three labels that say whose a namespace is, because the
  namespace it is computed from has them already.
\<close>

lemma patch_keeps_owner:
  assumes "owns e base" and "Name e \<noteq> []" "Namespace e \<noteq> []"
    and "merged_labels (Labels base) (maps_copy (Labels base) (labels e [])) (Labels cur) l"
    and k: "k \<in> {labelManagedBy, labelEnvironment, labelOwnerNamespace}"
  shows "idx l k = idx (Labels cur) k"
proof -
  have nonempty: "idx (Labels base) k \<noteq> []" and same: "map_of (labels e []) k = Some (idx (Labels base) k)"
    using assms(1-3) k by (auto simp: owns_def Let_def map_of_labels managerName_def)
  then have "map_of (Labels base) k = Some (idx (Labels base) k)" by (auto simp: idx_def split: option.splits)
  then have "map_of (maps_copy (Labels base) (labels e [])) k = map_of (Labels base) k"
    using same by (simp add: map_of_maps_copy map_add_def)
  then show ?thesis using assms(4) by (simp add: merged_labels_def idx_def)
qed

lemma patch_none_stranded:
  assumes "patch_effect base (base\<lparr>Labels := maps_copy (Labels base) (labels e [])\<rparr>) c obj c'"
    and "owns e base" "Name e \<noteq> []" "Namespace e \<noteq> []" and "safe e c"
  shows "safe e c'"
proof -
  let ?modified = "base\<lparr>Labels := maps_copy (Labels base) (labels e [])\<rparr>"
  obtain cur where cur: "cl_namespaces c (Name base) = Some cur"
    and rest: "if map_of (Labels ?modified) = map_of (Labels base) then obj = cur \<and> c' = c
         else (\<exists>l v. merged_labels (Labels base) (Labels ?modified) (Labels cur) l \<and>
                 obj = cur\<lparr>Labels := l, ResourceVersion := v\<rparr>) \<and>
              c' = c\<lparr>cl_namespaces := (cl_namespaces c)(Name base \<mapsto> obj)\<rparr>"
    using assms(1) unfolding patch_effect_def by blast
  have "managed obj = managed cur \<and> owner_key obj = owner_key cur"
  proof (cases "map_of (Labels ?modified) = map_of (Labels base)")
    case False
    then obtain l where l: "merged_labels (Labels base) (maps_copy (Labels base) (labels e [])) (Labels cur) l"
      "Labels obj = l" using rest by auto
    show ?thesis
      using patch_keeps_owner [OF assms(2-4) l(1)] l(2) by (simp add: managed_def owner_key_def)
  qed (use rest in simp)
  moreover have "c' = c \<or> c' = c\<lparr>cl_namespaces := (cl_namespaces c)(Name base \<mapsto> obj)\<rparr>"
    using rest by (auto split: if_splits)
  ultimately show ?thesis
    using assms(5) cur unfolding safe_def held_def
    by (auto intro!: none_stranded_mono [of c] split: if_splits)
qed

section \<open>The methods\<close>

lemma writing_safe:
  "writing eff c res c' \<Longrightarrow> P c \<Longrightarrow> (\<And>obj. eff c obj c' \<Longrightarrow> P c') \<Longrightarrow> P c'"
  by (auto simp: writing_def split: sum.splits)

context shared_api begin

lemmas contents = contents_shared

lemma reconcileConfigMap_uninvolved: "uninvolved view (reconcileConfigMap r env ns)"
  unfolding reconcileConfigMap_def Let_def
  by (intro uninvolved_rules contents keeps_meta_mutateConfigMap)

lemma copySecret_uninvolved: "uninvolved view (copySecret r env ns pull name)"
  unfolding copySecret_def replaceOnTypeChange_def Let_def
  by (intro uninvolved_rules contents keeps_meta_mutateSecret)

lemma reconcileSecrets_uninvolved: "uninvolved view (reconcileSecrets r env ns)"
proof -
  have "uninvolved view (copySecrets r env ns pull names)" for pull names
    by (induction names) (auto intro!: uninvolved_rules copySecret_uninvolved)
  then show ?thesis by (simp add: reconcileSecrets_def Let_def)
qed

lemma reconcilePVC_uninvolved: "uninvolved view (reconcilePVC r env ns)"
  unfolding reconcilePVC_def Let_def by (intro uninvolved_rules contents)

lemma reconcileServices_uninvolved: "uninvolved view (reconcileServices r env ns svcs ready)"
proof -
  have "uninvolved view (reconcileService r env ns svc)" for svc
    unfolding reconcileService_def
    by (intro uninvolved_rules contents keeps_meta_mutate mutate_keeps_identity)
  then show ?thesis by (induction svcs arbitrary: ready) (auto intro!: uninvolved_rules)
qed

lemma pruneServices_uninvolved: "uninvolved view (pruneServices r env ns)"
proof -
  have "uninvolved view (pruneItems (delete_deployment (Client r)) what wanted ds)" for what wanted ds
    by (induction ds) (auto intro!: uninvolved_rules contents)
  moreover have "uninvolved view (pruneItems (delete_service (Client r)) what wanted vs)" for what wanted vs
    by (induction vs) (auto intro!: uninvolved_rules contents)
  ultimately show ?thesis
    unfolding pruneServices_def Let_def by (intro uninvolved_rules contents) auto
qed

lemma workloadProblems_uninvolved: "uninvolved view (workloadProblems r env ns)"
  unfolding workloadProblems_def addStalledServices_def Let_def by (intro uninvolved_rules contents)

lemma setCondition_uninvolved: "uninvolved view (setCondition r env t st reason message)"
  unfolding setCondition_def by (intro uninvolved_rules contents)

text \<open>A triple about a live pass keeps the target held; a result is never looked at.\<close>

lemma reconcileNamespace_safe:
  assumes "Name env \<noteq> []" "Namespace env \<noteq> []"
  shows "hoare view (safe env) (reconcileNamespace r env (TargetNamespace env)) (\<lambda>_. safe env)"
proof -
  let ?ns = "TargetNamespace env"
  let ?new = "(new_meta [] ?ns)\<lparr>Labels := labels env []\<rparr>"
  have created: "shared view (writing (create_effect admit_ns cl_namespaces cl_namespaces_update ?ns ?new))
      (create_namespace (Client r) ?new)"
    using create_namespace_shared [of ?new] by (simp add: new_meta_def)
  have finish: "hoare view (safe env) (State_Monad.return x) (\<lambda>_. safe env)" for x :: "go_error + unit"
    by (rule hoare_return)
  have create: "hoare view (safe env) (State_Monad.bind (create_namespace (Client r) ?new) f) (\<lambda>_. safe env)"
    if "\<And>res. hoare view (safe env) (f res) (\<lambda>_. safe env)" for f :: "_ \<Rightarrow> ('w, unit) io"
    by (rule shared_step [OF created steady_safe _ steady_safe that])
       (erule (1) writing_safe, erule create_none_stranded [OF _ admit_ns_shared], simp_all add: new_meta_def)
  have patch: "hoare view (safe env) (State_Monad.bind (patch_namespace (Client r) x
        (x\<lparr>Labels := maps_copy (Labels x) (labels env [])\<rparr>)) f) (\<lambda>_. safe env)"
    if "owns env x" "\<And>res. hoare view (safe env) (f res) (\<lambda>_. safe env)" for x and f :: "_ \<Rightarrow> ('w, unit) io"
    by (rule shared_step [OF patch_namespace_shared steady_safe _ steady_safe that(2)], simp)
       (erule (1) writing_safe, erule patch_none_stranded [OF _ that(1) assms])
  show ?thesis
    unfolding reconcileNamespace_def Let_def
  proof (rule shared_step [OF get_namespace_shared steady_safe _ steady_safe])
    fix res c c'
    assume "safe env c" "reading (\<lambda>c. cl_namespaces c ?ns) c res c'"
    then show "safe env c'" by (simp add: reading_def)
  qed (intro hoare_case_sum hoare_if finish create patch; simp)
qed

lemma patchStatus_safe: "hoare view none_stranded (patchStatus r e) (\<lambda>_. none_stranded)"
  unfolding patchStatus_def
proof (rule shared_step [OF update_env_status_shared steady_none_stranded _ steady_none_stranded])
  fix res c c'
  assume "none_stranded c" "writing (update_status_effect e) c res c'"
  then show "none_stranded c'"
    by (elim writing_safe) (auto intro: none_stranded_frame dest: status_holds)
qed (intro hoare_case_sum hoare_if hoare_return)

lemma setFailed_safe: "hoare view none_stranded (setFailed r env cause) (\<lambda>_. none_stranded)"
  unfolding setFailed_def Let_def
  by (intro uninvolved_step [OF setCondition_uninvolved steady_none_stranded] patchStatus_safe)

lemma setProvisioned_safe: "hoare view none_stranded (setProvisioned r env ready) (\<lambda>_. none_stranded)"
proof -
  have "uninvolved view (if b then workloadProblems r e ns else State_Monad.return [])" for b e ns
    by (intro uninvolved_rules workloadProblems_uninvolved)
  then show ?thesis
    unfolding setProvisioned_def reportProblems_def Let_def
    by (intro hoare_if uninvolved_step [OF setCondition_uninvolved steady_none_stranded] patchStatus_safe
        uninvolved_step [OF _ steady_none_stranded])
qed

lemma reconcileEnvironment_safe:
  assumes "Name env \<noteq> []" "Namespace env \<noteq> []"
  shows "hoare view (safe env) (reconcileEnvironment r env) (\<lambda>_. none_stranded)"
proof -
  have rest: "uninvolved view (case x of Inl err \<Rightarrow> State_Monad.return (0, Some err) | Inr _ \<Rightarrow> do {
       res \<leftarrow> reconcileConfigMap r env ns;
       case res of Inl err \<Rightarrow> State_Monad.return (0, Some err) | Inr _ \<Rightarrow> do {
       res \<leftarrow> reconcileSecrets r env ns;
       case res of Inl err \<Rightarrow> State_Monad.return (0, Some err) | Inr _ \<Rightarrow> do {
       res \<leftarrow> reconcilePVC r env ns;
       case res of Inl err \<Rightarrow> State_Monad.return (0, Some err) | Inr _ \<Rightarrow> do {
       counted \<leftarrow> reconcileServices r env ns (Services (Spec env)) 0;
       case counted of
         (ready, None) \<Rightarrow> do {
           pruned \<leftarrow> pruneServices r env ns;
           case pruned of
             Inl err \<Rightarrow> State_Monad.return (ready, Some err)
           | Inr _ \<Rightarrow> State_Monad.return (ready, None)
         }
       | (ready, Some err) \<Rightarrow> State_Monad.return (ready, Some err)
       }}}})" for x :: "go_error + unit" and ns
    by (intro uninvolved_rules reconcileConfigMap_uninvolved reconcileSecrets_uninvolved
        reconcilePVC_uninvolved reconcileServices_uninvolved pruneServices_uninvolved)
  show ?thesis
    unfolding reconcileEnvironment_def Let_def
    by (rule hoare_bind [OF reconcileNamespace_safe [OF assms]],
        rule hoare_weaken [OF uninvolved_hoare [OF rest steady_none_stranded]]) (simp_all add: safe_def)
qed

lemma reconcileLive_safe:
  assumes "Name env \<noteq> []" "Namespace env \<noteq> []"
  shows "hoare view (safe env) (reconcileLive r env) (\<lambda>_. none_stranded)"
  unfolding reconcileLive_def
  by (rule hoare_bind [OF reconcileEnvironment_safe [OF assms]])
     (auto intro!: hoare_bind [OF setFailed_safe] hoare_bind [OF setProvisioned_safe] hoare_case_option
       hoare_case_sum hoare_if hoare_return split: prod.split)

lemma reconcileDelete_safe:
  assumes "finalizerName \<in> set (Finalizers env) \<Longrightarrow> P = safe env"
    and "finalizerName \<notin> set (Finalizers env) \<Longrightarrow> P = none_stranded"
  shows "hoare view P (reconcileDelete r env) (\<lambda>_. none_stranded)"
proof (cases "finalizerName \<in> set (Finalizers env)")
  case False
  then show ?thesis
    using assms(2) by (simp add: reconcileDelete_def contains_finalizer_shared hoare_return)
next
  case True
  let ?free = "\<lambda>c. none_stranded c \<and> owns_nothing (obj_key env) c"
  have steady_free: "steady ?free" by (intro steady_rules)
  have stop: "hoare view none_stranded (State_Monad.return x) (\<lambda>_. none_stranded)"
    for x :: "ctrl_result \<times> go_error option" by (rule hoare_return)
  have release: "hoare view ?free (State_Monad.bind (update_env (Client r) (without_finalizer env)) f)
      (\<lambda>_. none_stranded)"
    if "\<And>res. hoare view none_stranded (f res) (\<lambda>_. none_stranded)" for f :: "_ \<Rightarrow> ('w, ctrl_result \<times> go_error option) state"
    by (rule shared_step [OF update_env_shared steady_free _ steady_none_stranded that])
       (elim writing_safe conjE; (elim none_stranded_free_record [rotated 2])?; simp)
  have delete: "hoare view none_stranded (State_Monad.bind (delete_namespace (Client r) ns) f) (\<lambda>_. none_stranded)"
    if "\<And>res. hoare view none_stranded (f res) (\<lambda>_. none_stranded)"
    for ns and f :: "_ \<Rightarrow> ('w, ctrl_result \<times> go_error option) state"
    by (rule shared_step [OF delete_namespace_shared steady_none_stranded _ steady_none_stranded that])
       (erule (1) writing_safe, erule (1) delete_none_stranded)
  let ?R = "\<lambda>res c. none_stranded c \<and> (case res of
      Inr ns \<Rightarrow> (if owns env ns then True else owns_nothing (obj_key env) c)
    | Inl e \<Rightarrow> (if is_not_found e then owns_nothing (obj_key env) c else True))"
  have steady_R: "steady (?R res)" for res
    by (intro steady_rules)
  have look: "?R res c'" if "safe env c" "reading (\<lambda>c. cl_namespaces c (TargetNamespace env)) c res c'" for res c c'
    using that torn_down_owns_nothing [of c env] by (auto simp: reading_def safe_def split: sum.splits)
  show ?thesis
    using True assms(1)
    unfolding reconcileDelete_def Let_def contains_finalizer_shared remove_finalizer_shared
      without_finalizer_def [symmetric]
    by (simp, intro shared_step [OF get_namespace_shared steady_safe look steady_R])
       (auto intro!: hoare_case_sum hoare_if stop release delete hoare_weaken [OF release] hoare_weaken [OF delete]
          hoare_weaken [OF stop] split: if_splits)
qed

text \<open>From the moment the finalizer is written, starting from a record that owns nothing.\<close>

lemma add_finalizer_safe:
  assumes key: "obj_key env = k" and names: "fst k \<noteq> []" "snd k \<noteq> []"
  shows "hoare view (\<lambda>c. none_stranded c \<and> owns_nothing k c)
      (State_Monad.bind (update_env (Client r) (with_finalizer env)) (\<lambda>updated. case updated of
         Inl err \<Rightarrow> State_Monad.return (no_result, Some (Wrapf ''adding finalizer'' err))
       | Inr obj \<Rightarrow> reconcileLive r obj)) (\<lambda>_. none_stranded)"
proof -
  let ?free = "\<lambda>c. none_stranded c \<and> owns_nothing k c"
  let ?S = "\<lambda>res c. none_stranded c \<and> (case res of Inl e \<Rightarrow> True | Inr obj \<Rightarrow> obj_key obj = k \<and> held obj c)"
  have steady_S: "steady (?S res)" "steady ?free" for res by (intro steady_rules)+
  have stored: "none_stranded c' \<and> held obj c' \<and> obj_key obj = k"
    if "?free c" "update_env_effect (with_finalizer env) c obj c'" for c obj c'
    using that none_stranded_free_record [OF _ _ that(2)] finalizer_stored_held [OF that(2)] key
    by (auto simp: update_env_effect_def with_finalizer_def obj_key_def)
  have added: "?S res c'" if "?free c" "writing (update_env_effect (with_finalizer env)) c res c'" for c res c'
    using that stored by (auto simp: writing_def split: sum.splits)
  have rest: "hoare view (?S res) (case res of
       Inl err \<Rightarrow> State_Monad.return (no_result, Some (Wrapf ''adding finalizer'' err))
     | Inr obj \<Rightarrow> reconcileLive r obj) (\<lambda>_. none_stranded)" for res
  proof (cases res)
    case (Inr obj)
    have live: "hoare view (?S res) (reconcileLive r obj) (\<lambda>_. none_stranded)" if "obj_key obj = k"
      by (rule hoare_weaken [OF reconcileLive_safe])
        (use that names in \<open>auto simp: obj_key_def safe_def Inr\<close>)
    show ?thesis
      unfolding Inr sum.case
      by (rule hoare_fact [of "obj_key obj = k"], rule live [unfolded Inr sum.case]) simp_all
  qed (simp add: hoare_return)
  show ?thesis
    by (rule shared_step [OF update_env_shared steady_S(2) added steady_S(1) rest])
qed

text \<open>What \<open>Reconcile\<close> does once it has read the record.\<close>

lemma read_record_safe:
  assumes key: "obj_key env = k" and names: "fst k \<noteq> []" "snd k \<noteq> []"
    and P: "P = (\<lambda>c. none_stranded c \<and> (if finalizerName \<in> set (Finalizers env) then held env c else owns_nothing k c))"
  shows "hoare view P (reconcileDelete r env) (\<lambda>_. none_stranded)"
    and "finalizerName \<in> set (Finalizers env) \<Longrightarrow> hoare view P (reconcileLive r env) (\<lambda>_. none_stranded)"
proof -
  show "hoare view P (reconcileDelete r env) (\<lambda>_. none_stranded)"
    by (rule hoare_weaken [OF reconcileDelete_safe [of env
          "if finalizerName \<in> set (Finalizers env) then safe env else none_stranded"]])
       (auto simp: safe_def P split: if_splits)
  show "hoare view P (reconcileLive r env) (\<lambda>_. none_stranded)" if "finalizerName \<in> set (Finalizers env)"
    by (rule hoare_weaken [OF reconcileLive_safe]) (use that key names in \<open>auto simp: P safe_def obj_key_def\<close>)
qed

lemma decided_safe:
  assumes key: "obj_key env = k" and names: "fst k \<noteq> []" "snd k \<noteq> []"
  shows "hoare view (\<lambda>c. none_stranded c \<and> (if finalizerName \<in> set (Finalizers env) then held env c else owns_nothing k c))
     (if DeletionTimestamp env \<noteq> None then reconcileDelete r env
      else if finalizerName \<notin> set (Finalizers env) then
        State_Monad.bind (update_env (Client r) (if finalizerName \<in> set (Finalizers env) then env
            else env\<lparr>Finalizers := Finalizers env @ [finalizerName]\<rparr>))
          (\<lambda>updated. case updated of
            Inl err \<Rightarrow> State_Monad.return (no_result, Some (Wrapf ''adding finalizer'' err))
          | Inr env \<Rightarrow> reconcileLive r env)
      else reconcileLive r env) (\<lambda>_. none_stranded)"
proof -
  have add: "env\<lparr>Finalizers := Finalizers env @ [finalizerName]\<rparr> = with_finalizer env"
    if "finalizerName \<notin> set (Finalizers env)"
    using that by (simp add: with_finalizer_def)
  show ?thesis
    using read_record_safe [OF key names refl] add_finalizer_safe [OF key names] add by simp
qed

lemma Reconcile_safe:
  assumes names: "ReqName req \<noteq> []" "ReqNamespace req \<noteq> []"
  shows "hoare view none_stranded (Reconcile r req) (\<lambda>_. none_stranded)"
proof -
  let ?k = "(ReqNamespace req, ReqName req)"
  let ?R = "\<lambda>res c. none_stranded c \<and> (case res of Inl e \<Rightarrow> True
    | Inr env \<Rightarrow> obj_key env = ?k \<and> (if finalizerName \<in> set (Finalizers env) then held env c else owns_nothing ?k c))"
  have steady_R: "steady (?R res)" for res by (intro steady_rules)
  have look: "?R res c'"
    if "none_stranded c" "reading (\<lambda>c. cl_envs c ?k) c res c' \<and> (\<forall>e. res = Inr e \<longrightarrow> obj_key e = ?k)" for res c c'
    using that unheld_owns_nothing [of c ?k] by (auto simp: reading_def held_def holds_def split: sum.splits)
  show ?thesis
    unfolding Reconcile_def contains_finalizer_shared add_finalizer_shared
    apply (rule shared_step [OF get_env_shared steady_none_stranded _ steady_R], erule (1) look)
    subgoal for res
      by (cases res; simp only: sum.case; (simp add: hoare_return; fail)?)
         (rule hoare_fact [of "obj_key (projr res) = ?k"], rule hoare_weaken [OF decided_safe], use names in auto)
    done
qed

end

end
