(* ===== verification/Traced_Cluster.thy ===== *)
theory Traced_Cluster
  imports Interference
begin

text \<open>
  The server in memory among other actors. A script says what somebody else does before each
  request of the operator, and two counters record the requests sent and the objects listed,
  and a log records the permissions used. The laws of \<open>shared_api\<close>, \<open>metered_api\<close> and
  \<open>audited_api\<close> hold on it, and the witnesses of the theories
  about interference and about the number of requests run on it.
\<close>

section \<open>What the script can do\<close>

datatype act =
    Nothing
  | CreateRecord dev_environment
  | EditRecord dev_environment
  | DeleteRecord obj_key nat
  | RemoveNamespace string
  | ForeignNamespace string
  | ScaleDeployment obj_key int32

text \<open>An action whose condition does not hold does nothing, so every script is a run of \<open>others\<close>.\<close>

fun act_apply :: "act \<Rightarrow> mem \<Rightarrow> mem" where
  "act_apply Nothing w = w"
| "act_apply (CreateRecord e) w =
     (if lookup obj_key (m_envs w) (obj_key e) = None \<and> DeletionTimestamp e = None
      then m_envs_update (store obj_key e) w else w)"
| "act_apply (EditRecord e) w =
     (case lookup obj_key (m_envs w) (obj_key e) of
        Some old \<Rightarrow> if faithful_edit old e then m_envs_update (store obj_key e) w else w
      | None \<Rightarrow> w)"
| "act_apply (DeleteRecord k t) w =
     (case lookup obj_key (m_envs w) k of
        Some old \<Rightarrow>
          if Finalizers old = [] then m_envs_update (remove obj_key k) w
          else m_envs_update (store obj_key (old\<lparr>DeletionTimestamp := Some t,
                 ResourceVersion := m_clock w + 1\<rparr>)) (w\<lparr>m_clock := m_clock w + 1\<rparr>)
      | None \<Rightarrow> w)"
| "act_apply (RemoveNamespace n) w = m_namespaces_update (remove Name n) w"
| "act_apply (ForeignNamespace n) w =
     (if lookup Name (m_namespaces w) n = None
      then m_namespaces_update (store Name (new_meta [] n)) w else w)"
| "act_apply (ScaleDeployment k n) w =
     (case lookup obj_key (m_deployments w) k of
        Some d \<Rightarrow> m_deployments_update (store obj_key
            (d\<lparr>DeployStatus := (DeployStatus d)\<lparr>ReadyReplicas := n\<rparr>\<rparr>)) w
      | None \<Rightarrow> w)"

lemma new_meta_unmanaged: "\<not> managed (new_meta [] n)"
  by (simp add: managed_def new_meta_def idx_def managerName_def)

lemma act_apply_meanwhile: "meanwhile (mem_view w) (mem_view (act_apply a w))"
proof (cases a)
  case (CreateRecord e)
  then show ?thesis
    using others.user_creates [of "mem_view w" e]
    by (auto simp: mem_envs.view_store mem_envs.csel_view intro: meanwhile_step)
next
  case (EditRecord e)
  show ?thesis
  proof (cases "lookup obj_key (m_envs w) (obj_key e)")
    case (Some old)
    then have "faithful_edit old e \<Longrightarrow>
        others (mem_view w) ((mem_view w)\<lparr>cl_envs := (cl_envs (mem_view w))(obj_key e \<mapsto> e)\<rparr>)"
      by (intro others.user_edits) (simp_all add: mem_envs.csel_view)
    then show ?thesis using EditRecord Some by (simp add: mem_envs.view_store meanwhile_step)
  qed (use EditRecord in simp)
next
  case (DeleteRecord k t)
  show ?thesis
  proof (cases "lookup obj_key (m_envs w) k")
    case (Some old)
    let ?old = "old\<lparr>DeletionTimestamp := Some t, ResourceVersion := m_clock w + 1\<rparr>"
    have env: "cl_envs (mem_view w) k = Some old" "obj_key ?old = k"
      using Some lookup_key [OF Some] by (simp_all add: mem_envs.csel_view)
    show ?thesis
    proof (cases "Finalizers old = []")
      case True
      then show ?thesis
        using DeleteRecord Some others.record_removed [OF env(1)]
        by (simp add: mem_envs.view_remove meanwhile_step)
    next
      case False
      then show ?thesis
        using DeleteRecord Some others.user_deletes [OF env(1)] env(2)
        by (simp add: mem_envs.view_store meanwhile_step)
    qed
  qed (use DeleteRecord in simp)
next
  case (RemoveNamespace n)
  have "others (mem_view w) ((mem_view w)\<lparr>cl_namespaces := (cl_namespaces (mem_view w))(n := None)\<rparr>)"
    by (rule others.namespaces) (auto split: if_splits)
  then show ?thesis using RemoveNamespace by (simp add: mem_namespaces.view_remove meanwhile_step)
next
  case (ForeignNamespace n)
  have "others (mem_view w) ((mem_view w)\<lparr>cl_namespaces := (cl_namespaces (mem_view w))(n \<mapsto> new_meta [] n)\<rparr>)"
    by (rule others.namespaces) (auto simp: new_meta_unmanaged split: if_splits)
  moreover have "Name (new_meta [] n) = n" by (simp add: new_meta_def)
  ultimately show ?thesis using ForeignNamespace by (simp add: mem_namespaces.view_store meanwhile_step)
next
  case (ScaleDeployment k n)
  then show ?thesis by (auto simp: mem_view_def intro!: meanwhile_contents split: option.split)
qed simp

section \<open>Requests in a script\<close>

record traced =
  t_mem :: mem
  t_acts :: "act list"
  t_calls :: nat
  t_listed :: nat
  t_log :: "api_request list"

definition t_view :: "traced \<Rightarrow> cluster" where
  "t_view w = mem_view (t_mem w)"

definition disturb :: "traced \<Rightarrow> traced" where
  "disturb w = (case t_acts w of [] \<Rightarrow> w
     | a # as \<Rightarrow> w\<lparr>t_mem := act_apply a (t_mem w), t_acts := as\<rparr>)"

definition t_call :: "nat \<Rightarrow> api_request list \<Rightarrow> (mem, 'a) state \<Rightarrow> (traced, 'a) state" where
  "t_call n reqs m = State (\<lambda>w. let w1 = disturb w; (res, m') = run_state m (t_mem w1)
     in (res, w1\<lparr>t_mem := m', t_calls := t_calls w + n, t_log := t_log w @ reqs\<rparr>))"

definition t_list :: "api_request list \<Rightarrow> (mem, 'a list) io \<Rightarrow> (traced, 'a list) io" where
  "t_list reqs m = State (\<lambda>w. let (res, w') = run_state (t_call 1 reqs m) w
     in (res, w'\<lparr>t_listed := t_listed w + (case res of Inl e \<Rightarrow> 0 | Inr objs \<Rightarrow> length objs)\<rparr>))"

definition t_local :: "(mem, 'a) state \<Rightarrow> (traced, 'a) state" where
  "t_local m = State (\<lambda>w. let (res, m') = run_state m (t_mem w) in (res, w\<lparr>t_mem := m'\<rparr>))"

lemma disturb_facts [simp]: "t_calls (disturb w) = t_calls w" "t_listed (disturb w) = t_listed w" "t_log (disturb w) = t_log w"
  by (simp_all add: disturb_def split: list.split)

lemma disturb_meanwhile: "meanwhile (t_view w) (t_view (disturb w))"
  by (auto simp: disturb_def t_view_def act_apply_meanwhile split: list.split)

lemma shared_t_call:
  assumes "shared mem_view eff m"
  shows "shared t_view eff (t_call n reqs m)"
  unfolding shared_def
proof (intro allI impI)
  fix w res w'
  assume "run_state (t_call n reqs m) w = (res, w')"
  then obtain m' where m': "run_state m (t_mem (disturb w)) = (res, m')" "t_mem w' = m'"
    by (auto simp: t_call_def Let_def split: prod.splits)
  then obtain c1 c2 where "meanwhile (t_view (disturb w)) c1" "eff c1 res c2" "meanwhile c2 (t_view w')"
    using assms unfolding shared_def t_view_def by blast
  then show "\<exists>c1 c2. meanwhile (t_view w) c1 \<and> eff c1 res c2 \<and> meanwhile c2 (t_view w')"
    using disturb_meanwhile meanwhile_trans by blast
qed

lemma uninvolved_iff:
  "uninvolved view m \<longleftrightarrow> (\<forall>w res w'. run_state m w = (res, w') \<longrightarrow> meanwhile (view w) (view w'))"
  unfolding uninvolved_def by (metis prod.collapse snd_conv)

lemma uninvolved_t_call: "uninvolved mem_view m \<Longrightarrow> uninvolved t_view (t_call n reqs m)"
  unfolding uninvolved_iff t_call_def
  using disturb_meanwhile meanwhile_trans by (fastforce simp: t_view_def Let_def split: prod.splits)

lemma uninvolved_t_list: "uninvolved mem_view m \<Longrightarrow> uninvolved t_view (t_list reqs m)"
  using uninvolved_t_call [of m 1 reqs]
  unfolding uninvolved_iff t_list_def by (auto simp: t_view_def split: prod.splits)

lemma uninvolved_t_local: "uninvolved mem_view m \<Longrightarrow> uninvolved t_view (t_local m)"
  unfolding uninvolved_iff t_local_def by (auto simp: t_view_def split: prod.splits)

lemma costs_t_call: "n \<le> k \<Longrightarrow> costs t_calls t_listed k (t_call n reqs m)"
  by (auto simp: costs_def t_call_def Let_def split: prod.splits)

lemma sends_t_call: "set reqs \<subseteq> Q \<Longrightarrow> sends t_log Q (t_call n reqs m)"
  by (auto simp: sends_def t_call_def Let_def split: prod.splits)

lemma sends_t_list: "set reqs \<subseteq> Q \<Longrightarrow> sends t_log Q (t_list reqs m)"
  by (auto simp: sends_def t_list_def t_call_def Let_def split: prod.splits)

lemma sends_t_local: "sends t_log Q (t_local m)"
  by (auto simp: sends_def t_local_def split: prod.splits)

lemma costs_t_local: "costs t_calls t_listed 0 (t_local m)"
  by (auto simp: costs_def t_local_def split: prod.splits)

lemma costs_t_list: "lists_costs t_calls t_listed (t_list reqs m)"
  by (auto simp: lists_costs_def t_list_def t_call_def Let_def split: prod.splits)

section \<open>The reconciler\<close>

definition traced_reader :: "traced api_reader" where
  "traced_reader = \<lparr>get_secret = (\<lambda>k. t_call 1 [([], ''secrets'', ''get'')] (get_secret mem_reader k)),
     list_pods = (\<lambda>ns ls. t_list [([], ''pods'', ''list'')] (list_pods mem_reader ns ls))\<rparr>"

definition traced_cache :: "traced api_reader" where
  "traced_cache = \<lparr>get_secret = (\<lambda>k. t_call 1 (cached [] ''secrets'') (get_secret mem_client k)),
     list_pods = (\<lambda>ns ls. t_list (cached [] ''pods'') (list_pods mem_reader ns ls))\<rparr>"

definition traced_client :: "traced client" where
  "traced_client = api_reader.extend traced_cache (client.fields
     (\<lambda>k. t_call 1 (cached env_group ''devenvironments'') (get_env mem_client k)) 
     (\<lambda>e. t_call 1 [(env_group, ''devenvironments'', ''update'')] (update_env mem_client e))
     (\<lambda>e. t_call 1 [(env_group, ''devenvironments/status'', ''update'')] (update_env_status mem_client e))
     (\<lambda>n. t_call 1 (cached [] ''namespaces'') (get_namespace mem_client n))
     (\<lambda>n. t_call 1 [([], ''namespaces'', ''create'')] (create_namespace mem_client n))
     (\<lambda>base modified. t_call 1 [([], ''namespaces'', ''patch'')] (patch_namespace mem_client base modified))
     (\<lambda>n. t_call 1 [([], ''namespaces'', ''delete'')] (delete_namespace mem_client n))
     (\<lambda>x f. t_call 2 (upsert [] ''configmaps'') (create_or_update_config_map mem_client x f))
     (\<lambda>x. t_call 1 [([], ''configmaps'', ''delete'')] (delete_config_map mem_client x))
     (\<lambda>x. t_call 1 [([], ''secrets'', ''create'')] (create_secret mem_client x))
     (\<lambda>x f. t_call 2 (upsert [] ''secrets'') (create_or_update_secret mem_client x f))
     (\<lambda>x uid. t_call 1 [([], ''secrets'', ''delete'')] (delete_secret mem_client x uid))
     (\<lambda>k. t_call 1 (cached [] ''persistentvolumeclaims'') (get_pvc mem_client k))
     (\<lambda>x. t_call 1 [([], ''persistentvolumeclaims'', ''create'')] (create_pvc mem_client x))
     (\<lambda>x f. t_call 2 (upsert ''apps'' ''deployments'') (create_or_update_deployment mem_client x f))
     (\<lambda>ns ls. t_list (cached ''apps'' ''deployments'') (list_deployments mem_client ns ls))
     (\<lambda>x. t_call 1 [(''apps'', ''deployments'', ''delete'')] (delete_deployment mem_client x))
     (\<lambda>x f. t_call 2 (upsert [] ''services'') (create_or_update_service mem_client x f))
     (\<lambda>ns ls. t_list (cached [] ''services'') (list_services mem_client ns ls))
     (\<lambda>x. t_call 1 [([], ''services'', ''delete'')] (delete_service mem_client x)))"

definition traced_reconciler :: "traced reconciler" where
  "traced_reconciler = \<lparr>Client = traced_client, APIReader = Some traced_reader,
     Helpers = \<lparr>set_status_condition = (\<lambda>cs c. t_local (set_status_condition mem_helpers cs c)),
       contains_finalizer = contains_finalizer mem_helpers,
       add_finalizer = add_finalizer mem_helpers, remove_finalizer = remove_finalizer mem_helpers\<rparr>\<rparr>"

lemmas traced_defs = traced_reconciler_def traced_client_def traced_reader_def traced_cache_def reader_def
  api_reader.defs client.defs

lemma traced_ops:
  "get_env (Client traced_reconciler) k = t_call 1 (cached env_group ''devenvironments'') (get_env (Client mem_reconciler) k)"
  "update_env (Client traced_reconciler) e = t_call 1 [(env_group, ''devenvironments'', ''update'')] (update_env (Client mem_reconciler) e)"
  "update_env_status (Client traced_reconciler) e = t_call 1 [(env_group, ''devenvironments/status'', ''update'')] (update_env_status (Client mem_reconciler) e)"
  "get_namespace (Client traced_reconciler) n = t_call 1 (cached [] ''namespaces'') (get_namespace (Client mem_reconciler) n)"
  "create_namespace (Client traced_reconciler) ns = t_call 1 [([], ''namespaces'', ''create'')] (create_namespace (Client mem_reconciler) ns)"
  "patch_namespace (Client traced_reconciler) b m = t_call 1 [([], ''namespaces'', ''patch'')] (patch_namespace (Client mem_reconciler) b m)"
  "delete_namespace (Client traced_reconciler) ns = t_call 1 [([], ''namespaces'', ''delete'')] (delete_namespace (Client mem_reconciler) ns)"
  "create_or_update_config_map (Client traced_reconciler) cm f_cm =
     t_call 2 (upsert [] ''configmaps'') (create_or_update_config_map (Client mem_reconciler) cm f_cm)"
  "delete_config_map (Client traced_reconciler) cm = t_call 1 [([], ''configmaps'', ''delete'')] (delete_config_map (Client mem_reconciler) cm)"
  "get_secret (Client traced_reconciler) ks = t_call 1 (cached [] ''secrets'') (get_secret (Client mem_reconciler) ks)"
  "get_secret (reader traced_reconciler) ks = t_call 1 [([], ''secrets'', ''get'')] (get_secret (reader mem_reconciler) ks)"
  "create_secret (Client traced_reconciler) s = t_call 1 [([], ''secrets'', ''create'')] (create_secret (Client mem_reconciler) s)"
  "create_or_update_secret (Client traced_reconciler) s f_s =
     t_call 2 (upsert [] ''secrets'') (create_or_update_secret (Client mem_reconciler) s f_s)"
  "delete_secret (Client traced_reconciler) s uid = t_call 1 [([], ''secrets'', ''delete'')] (delete_secret (Client mem_reconciler) s uid)"
  "get_pvc (Client traced_reconciler) k = t_call 1 (cached [] ''persistentvolumeclaims'') (get_pvc (Client mem_reconciler) k)"
  "create_pvc (Client traced_reconciler) p = t_call 1 [([], ''persistentvolumeclaims'', ''create'')] (create_pvc (Client mem_reconciler) p)"
  "create_or_update_deployment (Client traced_reconciler) d f_d =
     t_call 2 (upsert ''apps'' ''deployments'') (create_or_update_deployment (Client mem_reconciler) d f_d)"
  "delete_deployment (Client traced_reconciler) d = t_call 1 [(''apps'', ''deployments'', ''delete'')] (delete_deployment (Client mem_reconciler) d)"
  "create_or_update_service (Client traced_reconciler) v f_v =
     t_call 2 (upsert [] ''services'') (create_or_update_service (Client mem_reconciler) v f_v)"
  "delete_service (Client traced_reconciler) v = t_call 1 [([], ''services'', ''delete'')] (delete_service (Client mem_reconciler) v)"
  "list_deployments (Client traced_reconciler) n l = t_list (cached ''apps'' ''deployments'') (list_deployments (Client mem_reconciler) n l)"
  "list_services (Client traced_reconciler) n l = t_list (cached [] ''services'') (list_services (Client mem_reconciler) n l)"
  "list_pods (reader traced_reconciler) n l = t_list [([], ''pods'', ''list'')] (list_pods (reader mem_reconciler) n l)"
  "set_status_condition (Helpers traced_reconciler) cs c =
     t_local (set_status_condition (Helpers mem_reconciler) cs c)"
  "contains_finalizer (Helpers traced_reconciler) = contains_finalizer (Helpers mem_reconciler)"
  "add_finalizer (Helpers traced_reconciler) = add_finalizer (Helpers mem_reconciler)"
  "remove_finalizer (Helpers traced_reconciler) = remove_finalizer (Helpers mem_reconciler)"
  by (simp_all add: traced_defs mem_reconciler_def)

lemmas mem_shared_rules =
  shared_t_call [OF mem_api.get_env_shared] shared_t_call [OF mem_api.update_env_shared]
  shared_t_call [OF mem_api.update_env_status_shared] shared_t_call [OF mem_api.get_namespace_shared]
  shared_t_call [OF mem_api.create_namespace_shared] shared_t_call [OF mem_api.patch_namespace_shared]
  shared_t_call [OF mem_api.delete_namespace_shared]

interpretation traced_api: shared_api traced_reconciler t_view admit_namespace
  by (unfold_locales; (unfold traced_ops)?;
      (rule mem_shared_rules admissions(1) mem_api.contains_finalizer_shared mem_api.add_finalizer_shared
        mem_api.remove_finalizer_shared
      | (rule uninvolved_t_call uninvolved_t_list uninvolved_t_local, rule mem_api.contents_shared)); simp?)

interpretation traced_meter: metered_api traced_reconciler t_calls t_listed
proof
  show "Spec obj = Spec e" if "run_state (update_env (Client traced_reconciler) e) w = (Inr obj, w')"
    for e w obj w'
    using that unfolding traced_ops
    by (auto simp: t_call_def Let_def mem_write_def act_update_env_def next_fault_def
        split: prod.splits sum.splits option.splits if_splits fault.splits list.splits)
qed (simp_all add: traced_ops mem_helpers_def costs_t_call costs_t_local costs_t_list)

lemma traced_reader_ops:
  "get_secret traced_reader ks = t_call 1 [([], ''secrets'', ''get'')] (get_secret (reader mem_reconciler) ks)"
  "list_pods traced_reader n l = t_list [([], ''pods'', ''list'')] (list_pods (reader mem_reconciler) n l)"
  by (simp_all add: traced_reader_def)

interpretation traced_audit: audited_api traced_reconciler traced_reader t_log
  by unfold_locales
    (simp_all add: traced_ops traced_reader_ops sends_t_call sends_t_list sends_t_local,
     simp add: traced_reconciler_def)

end
