(* ===== verification/Interleaving.thy ===== *)
theory Interleaving
  imports Traced_Cluster
begin

text \<open>
  The main invariant without the assumption that a pass runs alone: the operator's requests and
  the steps of the other actors in any order.
\<close>

section \<open>Reachable worlds\<close>

text \<open>
  As \<open>reachable\<close>, for a server whose state other actors may change between any two requests.
  Requests name a record, as \<open>mapToEnvironment\<close> and the informers produce them.
\<close>

inductive interleaved :: "'w reconciler \<Rightarrow> ('w \<Rightarrow> cluster) \<Rightarrow> 'w \<Rightarrow> bool" for r view where
  alone: "(\<And>n ns. cl_namespaces (view w) n = Some ns \<Longrightarrow> \<not> managed ns) \<Longrightarrow> interleaved r view w"
| turn: "interleaved r view w \<Longrightarrow> ReqName req \<noteq> [] \<Longrightarrow> ReqNamespace req \<noteq> [] \<Longrightarrow>
    run_state (Reconcile r req) w = (res, w') \<Longrightarrow> interleaved r view w'"
| elsewhere: "interleaved r view w \<Longrightarrow> meanwhile (view w) (view w') \<Longrightarrow> interleaved r view w'"

lemma interleaved_none_stranded:
  assumes "shared_api r view admit_ns" and "interleaved r view w"
  shows "none_stranded (view w)"
  using assms(2)
proof induction
  case (alone w)
  then show ?case by (auto simp: none_stranded_def)
next
  case (turn w req res w')
  show ?case
    using hoareD [OF shared_api.Reconcile_safe [OF assms(1) turn.hyps(2,3)] turn.IH turn.hyps(4)] .
next
  case (elsewhere w w')
  then show ?case using steady_meanwhile [OF steady_none_stranded] by blast
qed

section \<open>Properties\<close>

text \<open>
  C2. No interference strands a namespace. Let other actors create, edit and delete records,
  remove namespaces and change anything else before and after every single request of every
  pass, and let every request fail or succeed: a namespace with the manager label still has a
  record under the key its labels give, with the operator's finalizer and with this namespace
  as its target. The code reaches this by taking the finalizer before it creates, by patching
  only labels, and by releasing the finalizer only when its namespace is absent or foreign.
\<close>

theorem no_stranded_namespace_under_interference:
  assumes "shared_api r view admit_ns" and "interleaved r view w"
    and "cl_namespaces (view w) n = Some ns" and "managed ns"
  shows "\<exists>e. cl_envs (view w) (owner_key ns) = Some e \<and> TargetNamespace e = n \<and>
    finalizerName \<in> set (Finalizers e)"
  using none_strandedD [OF interleaved_none_stranded [OF assms(1,2)] assms(3,4)]
  by (simp add: holds_def)

text \<open>
  A run in which the user deletes the record after the operator has looked for the namespace and
  before it creates it.
\<close>

definition disturbed_start :: traced where
  "disturbed_start = \<lparr>t_mem = start_mem,
     t_acts = [Nothing, Nothing, Nothing, DeleteRecord (''default'', ''team-alpha'') 5],
     t_calls = 0, t_listed = 0, t_log = []\<rparr>"

definition disturbed_pass :: "(ctrl_result \<times> go_error option) \<times> traced" where
  "disturbed_pass = run_state (Reconcile traced_reconciler sample_request) disturbed_start"

lemma disturbed_interleaved: "interleaved traced_reconciler t_view (snd disturbed_pass)"
proof (rule interleaved.turn)
  show "interleaved traced_reconciler t_view disturbed_start"
    by (rule interleaved.alone) (simp add: t_view_def mem_view_def disturbed_start_def start_mem_def empty_mem_def)
  show "run_state (Reconcile traced_reconciler sample_request) disturbed_start =
      (fst disturbed_pass, snd disturbed_pass)"
    by (simp add: disturbed_pass_def)
qed (simp_all add: sample_request_def)

theorem no_stranded_namespace_under_interference_witness:
  "\<exists>ns e. cl_namespaces (t_view (snd disturbed_pass)) ''team-alpha'' = Some ns \<and>
     cl_envs (t_view (snd disturbed_pass)) (''default'', ''team-alpha'') = Some e \<and>
     finalizerName \<in> set (Finalizers e)"
proof -
  let ?nss = "m_namespaces (t_mem (snd disturbed_pass))"
  have facts: "length ?nss = 1" "Name (hd ?nss) = ''team-alpha''" "managed (hd ?nss)"
    "owner_key (hd ?nss) = (''default'', ''team-alpha'')" by code_simp+
  then have "cl_namespaces (t_view (snd disturbed_pass)) ''team-alpha'' = Some (hd ?nss)"
    by (cases ?nss) (auto simp: t_view_def mem_view_def)
  then show ?thesis
    using no_stranded_namespace_under_interference
      [OF traced_api.shared_api_axioms disturbed_interleaved _ facts(3)] facts(4) by auto
qed

end
