(* ===== verification/Request_Budget.thy ===== *)
theory Request_Budget
  imports Interleaving
begin

text \<open>
  How many requests a pass sends. The bound is computed along the code: a rule for each way of
  combining programs, and one fact per method. Deletions by \<open>pruneServices\<close> are paid for by the
  objects its lists returned.
\<close>

section \<open>The cost of a combination\<close>

named_theorems cost_rules

lemma costsD:
  "costs calls listed n m \<Longrightarrow> run_state m w = (res, w') \<Longrightarrow> calls w' + listed w \<le> calls w + listed w' + n"
  unfolding costs_def by blast

lemma costs_weaken: "costs calls listed n m \<Longrightarrow> n \<le> k \<Longrightarrow> costs calls listed k m"
  unfolding costs_def by fastforce

lemma costs_return [cost_rules]: "costs calls listed 0 (State_Monad.return x)"
  by (simp add: costs_def)

lemma costs_bind [cost_rules]:
  assumes "costs calls listed n m" and "\<And>x. costs calls listed k (f x)"
  shows "costs calls listed (n + k) (State_Monad.bind m f)"
  unfolding costs_def
proof (intro allI impI)
  fix w res w'
  assume "run_state (State_Monad.bind m f) w = (res, w')"
  then obtain x w1 where "run_state m w = (x, w1)" "run_state (f x) w1 = (res, w')"
    by (auto split: prod.splits)
  from costsD [OF assms(1) this(1)] costsD [OF assms(2) this(2)]
  show "calls w' + listed w \<le> calls w + listed w' + (n + k)" by linarith
qed

lemma costs_if [cost_rules]:
  "costs calls listed n m \<Longrightarrow> costs calls listed k m' \<Longrightarrow> costs calls listed (max n k) (if b then m else m')"
  by (auto elim: costs_weaken)

lemma costs_sum [cost_rules]:
  "(\<And>e. costs calls listed n (f e)) \<Longrightarrow> (\<And>x. costs calls listed k (g x)) \<Longrightarrow>
   costs calls listed (max n k) (case r of Inl e \<Rightarrow> f e | Inr x \<Rightarrow> g x)"
  by (cases r) (simp_all add: costs_weaken [OF _ max.cobounded1] costs_weaken [OF _ max.cobounded2])

lemma costs_option [cost_rules]:
  "costs calls listed n f \<Longrightarrow> (\<And>x. costs calls listed k (g x)) \<Longrightarrow>
   costs calls listed (max n k) (case r of None \<Rightarrow> f | Some x \<Rightarrow> g x)"
  by (cases r) (simp_all add: costs_weaken [OF _ max.cobounded1] costs_weaken [OF _ max.cobounded2])

lemma costs_prod [cost_rules]:
  "(\<And>x y. costs calls listed n (f x y)) \<Longrightarrow> costs calls listed n (case r of (x, y) \<Rightarrow> f x y)"
  by (cases r) auto

text \<open>A list pays for one request on each object it returned.\<close>

lemma costs_list:
  assumes "lists_costs calls listed m" and "\<And>e. costs calls listed n (f (Inl e))"
    and "\<And>objs. costs calls listed (length objs + n) (f (Inr objs))"
  shows "costs calls listed (1 + n) (State_Monad.bind m f)"
  unfolding costs_def
proof (intro allI impI)
  fix w res w'
  assume "run_state (State_Monad.bind m f) w = (res, w')"
  then obtain x w1 where x: "run_state m w = (x, w1)" "run_state (f x) w1 = (res, w')"
    by (auto split: prod.splits)
  have l: "calls w1 \<le> calls w + 1" "listed w1 = listed w + (case x of Inl e \<Rightarrow> 0 | Inr objs \<Rightarrow> length objs)"
    using assms(1) x(1) unfolding lists_costs_def by blast+
  show "calls w' + listed w \<le> calls w + listed w' + (1 + n)"
    using l costsD [OF assms(2), of _ w1] costsD [OF assms(3), of _ w1] x(2) by (cases x) fastforce+
qed

lemma costs_lists: "lists_costs calls listed m \<Longrightarrow> costs calls listed 1 m"
  unfolding costs_def lists_costs_def by (fastforce split: sum.splits)

text \<open>A result that says how many requests were sent.\<close>

lemma costs_bind_result:
  assumes "\<And>w x w'. run_state m w = (x, w') \<Longrightarrow> calls w' + listed w \<le> calls w + listed w' + n x"
    and "\<And>x. costs calls listed (k x) (f x)" and "\<And>x. n x + k x \<le> b"
  shows "costs calls listed b (State_Monad.bind m f)"
  unfolding costs_def
proof (intro allI impI)
  fix w res w'
  assume "run_state (State_Monad.bind m f) w = (res, w')"
  then obtain x w1 where "run_state m w = (x, w1)" "run_state (f x) w1 = (res, w')"
    by (auto split: prod.splits)
  from assms(1) [OF this(1)] costsD [OF assms(2) this(2)] assms(3) [of x]
  show "calls w' + listed w \<le> calls w + listed w' + b" by linarith
qed

text \<open>What the rest costs may depend on what the first program can return.\<close>

lemma costs_bind_after:
  assumes "costs calls listed n m" and "\<And>w x w'. run_state m w = (x, w') \<Longrightarrow> costs calls listed k (f x)"
  shows "costs calls listed (n + k) (State_Monad.bind m f)"
  unfolding costs_def
proof (intro allI impI)
  fix w res w'
  assume "run_state (State_Monad.bind m f) w = (res, w')"
  then obtain x w1 where "run_state m w = (x, w1)" "run_state (f x) w1 = (res, w')"
    by (auto split: prod.splits)
  with costsD [OF assms(1) this(1)] costsD [OF assms(2) this(2)]
  show "calls w' + listed w \<le> calls w + listed w' + (n + k)" by fastforce
qed

section \<open>The methods\<close>

definition pass_budget :: "dev_environment \<Rightarrow> nat" where
  "pass_budget env = 13 + 4 * length (referencedSecrets env) + 4 * length (Services (Spec env))"

context metered_api begin

lemmas requests [cost_rules] = one_request two_requests no_request list_requests [THEN costs_lists]

lemma reconcileNamespace_costs: "costs calls listed 2 (reconcileNamespace r env ns)"
  unfolding reconcileNamespace_def Let_def
  by (rule costs_weaken, (rule cost_rules)+) simp

lemma reconcileConfigMap_costs: "costs calls listed 2 (reconcileConfigMap r env ns)"
  unfolding reconcileConfigMap_def Let_def
  by (rule costs_weaken, (rule cost_rules)+) simp

lemma reconcilePVC_costs: "costs calls listed 2 (reconcilePVC r env ns)"
  unfolding reconcilePVC_def Let_def
  by (rule costs_weaken, (rule cost_rules)+) simp

text \<open>A Secret is deleted and created, or read and written, never both.\<close>

lemma replaceOnTypeChange_costs:
  assumes "run_state (replaceOnTypeChange r env name ns want) w = (res, w')"
  shows "calls w' + listed w \<le> calls w + listed w' + (if res = Inr False then 1 else 2)"
proof -
  obtain got w1 where got: "run_state (get_secret (reader r) (ns, name)) w = (got, w1)" by fastforce
  note first = costsD [OF one_request(10) got]
  show ?thesis
  proof (cases got)
    case (Inr existing)
    obtain del w2 where "run_state (delete_secret (Client r) existing (UID existing)) w1 = (del, w2)" by fastforce
    with costsD [OF one_request(12) this] show ?thesis
      using assms got Inr first by (auto simp: replaceOnTypeChange_def split: if_splits sum.splits)
  qed (use assms got first in \<open>auto simp: replaceOnTypeChange_def split: if_splits\<close>)
qed

lemma copySecret_costs: "costs calls listed 4 (copySecret r env ns pull name)"
proof -
  have "costs calls listed 3 (State_Monad.bind (replaceOnTypeChange r env name ns want) f)"
    if "\<And>x. costs calls listed (if x = Inr False then 2 else 1) (f x)" for want and f :: "_ \<Rightarrow> ('w, unit) io"
    by (rule costs_bind_result [OF replaceOnTypeChange_costs that]) auto
  note rest = this
  show ?thesis
    unfolding copySecret_def Let_def
    by (rule costs_weaken, rule costs_bind [OF one_request(9)], rule costs_sum [OF costs_return],
        rule costs_if [OF costs_return], rule rest)
       (auto split: sum.split intro: costs_weaken [OF costs_return]
         costs_weaken [OF costs_bind [OF one_request(11) costs_sum [OF costs_return costs_return]]]
         costs_weaken [OF costs_bind [OF two_requests(2) costs_sum [OF costs_return costs_return]]])
qed

lemma reconcileSecrets_costs: "costs calls listed (4 * length (referencedSecrets env)) (reconcileSecrets r env ns)"
proof -
  have "costs calls listed (4 * length names) (copySecrets r env ns pull names)" for pull names
  proof (induction names)
    case (Cons name names)
    show ?case
      unfolding copySecrets.simps
      by (rule costs_weaken, rule costs_bind [OF copySecret_costs], rule costs_sum [OF costs_return Cons]) simp
  qed (simp add: costs_return)
  then show ?thesis by (simp add: reconcileSecrets_def Let_def)
qed

lemma reconcileServices_costs: "costs calls listed (4 * length svcs) (reconcileServices r env ns svcs ready)"
proof -
  have one: "costs calls listed 4 (reconcileService r env ns svc)" for svc
    unfolding reconcileService_def
    by (rule costs_weaken, (rule cost_rules)+) simp
  show ?thesis
  proof (induction svcs arbitrary: ready)
    case (Cons svc svcs)
    show ?case
      unfolding reconcileServices.simps
      by (rule costs_weaken, rule costs_bind [OF one], rule costs_sum [OF costs_return Cons]) simp
  qed (simp add: costs_return)
qed

lemma pruneItems_costs:
  assumes "\<And>obj. costs calls listed 1 (del obj)"
  shows "costs calls listed (length objs) (pruneItems del what wanted objs)"
proof (induction objs)
  case (Cons obj objs)
  show ?case
    unfolding pruneItems.simps
    by (rule costs_weaken, rule costs_if [OF Cons], rule costs_bind [OF assms],
        (rule cost_rules Cons)+) simp
qed (simp add: costs_return)

lemma pruneServices_costs: "costs calls listed 2 (pruneServices r env ns)"
proof -
  have services: "costs calls listed 1 (State_Monad.bind (list_services (Client r) ns l) (\<lambda>got. case got of
      Inl err \<Rightarrow> State_Monad.return (Inl (e err))
    | Inr objs \<Rightarrow> pruneItems (delete_service (Client r)) what wanted objs))" for l what wanted and e :: "go_error \<Rightarrow> go_error"
    by (rule costs_weaken, rule costs_list [OF list_requests(2), of 0])
       (simp_all add: costs_return pruneItems_costs one_request del: One_nat_def)
  have deployments: "costs calls listed 2 (State_Monad.bind (list_deployments (Client r) ns l) f)"
    if "\<And>e. costs calls listed 1 (f (Inl e))" "\<And>objs. costs calls listed (length objs + 1) (f (Inr objs))"
    for l and f :: "_ \<Rightarrow> ('w, unit) io"
    using costs_list [OF list_requests(1) that] by (simp add: numeral_2_eq_2)
  show ?thesis
    unfolding pruneServices_def Let_def
  proof (rule deployments; simp only: sum.case)
    show "costs calls listed 1 (State_Monad.return x)" for x :: "go_error + unit"
      by (rule costs_weaken [OF costs_return]) simp
  next
    fix objs
    show "costs calls listed (length objs + 1) (State_Monad.bind
        (pruneItems (delete_deployment (Client r)) ''deployment'' (map SvcName (Services (Spec env))) objs)
        (\<lambda>pruned. case pruned of Inl err \<Rightarrow> State_Monad.return (Inl err) | Inr _ \<Rightarrow>
           State_Monad.bind (list_services (Client r) ns (prune_selector env)) (\<lambda>listed. case listed of
             Inl err \<Rightarrow> State_Monad.return (Inl (Wrapf ''listing services'' err))
           | Inr services \<Rightarrow> pruneItems (delete_service (Client r)) ''service''
               (map SvcName (Services (Spec env))) services)))"
      by (rule costs_weaken, rule costs_bind [OF pruneItems_costs], rule one_request,
          rule costs_sum [OF costs_return services]) simp
  qed
qed

lemma setFailed_costs: "costs calls listed 1 (setFailed r env cause)"
  unfolding setFailed_def setCondition_def patchStatus_def Let_def
  by (rule costs_weaken, (rule cost_rules)+) simp

lemma setProvisioned_costs: "costs calls listed 3 (setProvisioned r env ready)"
  unfolding setProvisioned_def reportProblems_def setCondition_def patchStatus_def workloadProblems_def
    addStalledServices_def Let_def
  by (rule costs_weaken, (rule cost_rules)+) simp

text \<open>The budget of an environment; it depends on its \<open>Spec\<close> only.\<close>

lemma reconcileEnvironment_costs:
  "costs calls listed (8 + 4 * length (referencedSecrets env) + 4 * length (Services (Spec env)))
     (reconcileEnvironment r env)"
  unfolding reconcileEnvironment_def Let_def
  by (rule costs_weaken, (rule cost_rules reconcileNamespace_costs reconcileConfigMap_costs reconcileSecrets_costs
      reconcilePVC_costs reconcileServices_costs pruneServices_costs)+) simp

lemma reconcileLive_costs: "costs calls listed (pass_budget env - 2) (reconcileLive r env)"
  unfolding reconcileLive_def pass_budget_def
  by (rule costs_weaken, (rule cost_rules reconcileEnvironment_costs setFailed_costs setProvisioned_costs)+) simp

lemma reconcileDelete_costs: "costs calls listed 2 (reconcileDelete r env)"
  unfolding reconcileDelete_def Let_def
  by (rule costs_weaken, (rule cost_rules)+) simp

text \<open>Once the record is read the budget is known: writing the finalizer does not change its \<open>Spec\<close>.\<close>

lemma pass_budget_spec: "Spec e' = Spec e \<Longrightarrow> pass_budget e' = pass_budget e"
  by (simp add: pass_budget_def referencedSecrets_eq)

lemma added_live_costs:
  "costs calls listed (pass_budget env - 1) (State_Monad.bind (update_env (Client r) (add_finalizer (Helpers r) env f))
     (\<lambda>updated. case updated of
        Inl err \<Rightarrow> State_Monad.return (no_result, Some (Wrapf ''adding finalizer'' err))
      | Inr env \<Rightarrow> reconcileLive r env))"
proof -
  have "costs calls listed (pass_budget env - 2) (case res of
        Inl err \<Rightarrow> State_Monad.return (no_result, Some (Wrapf ''adding finalizer'' err))
      | Inr env \<Rightarrow> reconcileLive r env)"
    if "run_state (update_env (Client r) (add_finalizer (Helpers r) env f)) w = (res, w')" for w res w'
  proof (cases res)
    case (Inr obj)
    then have "pass_budget obj = pass_budget env"
      using that by (intro pass_budget_spec) (simp add: update_keeps_spec add_finalizer_keeps_spec)
    then show ?thesis using reconcileLive_costs [of obj] Inr by simp
  qed (simp add: costs_weaken [OF costs_return])
  then show ?thesis
    by (intro costs_weaken [OF costs_bind_after [OF one_request(2)]]) (auto simp: pass_budget_def)
qed

lemma Reconcile_costs:
  assumes run: "run_state (Reconcile r req) w = (res, w')"
    and got: "run_state (get_env (Client r) (ReqNamespace req, ReqName req)) w = (got, w1)"
  shows "calls w' + listed w \<le> calls w + listed w' + (case got of Inl e \<Rightarrow> 1 | Inr env \<Rightarrow> pass_budget env)"
proof (cases got)
  case (Inr env)
  let ?rest = "if DeletionTimestamp env \<noteq> None then reconcileDelete r env
    else if \<not> contains_finalizer (Helpers r) env finalizerName then
      State_Monad.bind (update_env (Client r) (add_finalizer (Helpers r) env finalizerName))
        (\<lambda>updated. case updated of
           Inl err \<Rightarrow> State_Monad.return (no_result, Some (Wrapf ''adding finalizer'' err))
         | Inr env \<Rightarrow> reconcileLive r env)
    else reconcileLive r env"
  have "costs calls listed (pass_budget env - 1) ?rest"
    by (rule costs_weaken, (rule costs_if reconcileDelete_costs added_live_costs reconcileLive_costs)+)
       (simp add: pass_budget_def)
  moreover have "run_state ?rest w1 = (res, w')"
    using run got Inr by (simp add: Reconcile_def)
  ultimately show ?thesis
    using costsD [OF one_request(1) got] costsD [of calls listed "pass_budget env - 1" ?rest w1 res w'] Inr
    by (simp add: pass_budget_def)
next
  case (Inl e)
  then show ?thesis using run got costsD [OF one_request(1) got] by (simp add: Reconcile_def)
qed

end

section \<open>Properties\<close>

text \<open>
  C17. A pass ends within its budget. Whatever the server answers and whoever interferes, a call
  of \<open>Reconcile\<close> returns after a number of requests that the record it read determines: at most
  13, four more for each Secret to copy and for each service, and one deletion for each object
  that a list returned. If the record cannot be read, the pass sends that one request only.
\<close>

theorem pass_within_budget:
  assumes "metered_api r calls listed"
    and "run_state (Reconcile r req) w = (res, w')"
    and "run_state (get_env (Client r) (ReqNamespace req, ReqName req)) w = (got, w1)"
  shows "calls w' + listed w \<le> calls w + listed w' + (case got of Inl e \<Rightarrow> 1 | Inr env \<Rightarrow>
     13 + 4 * length (referencedSecrets env) + 4 * length (Services (Spec env)))"
  using metered_api.Reconcile_costs [OF assms] unfolding pass_budget_def .

theorem pass_within_budget_witness:
  "1 < t_calls (snd disturbed_pass) \<and> t_calls (snd disturbed_pass) \<le> t_listed (snd disturbed_pass) + 17"
proof
  let ?get = "run_state (get_env (Client traced_reconciler)
     (ReqNamespace sample_request, ReqName sample_request)) disturbed_start"
  show "1 < t_calls (snd disturbed_pass)" by code_simp
  have "case fst ?get of Inr e \<Rightarrow> referencedSecrets e = [] \<and> length (Services (Spec e)) = 1 | Inl e \<Rightarrow> False"
    by code_simp
  then obtain e where e: "fst ?get = Inr e" "referencedSecrets e = []" "length (Services (Spec e)) = 1"
    by (auto split: sum.splits)
  have "t_calls disturbed_start = 0" "t_listed disturbed_start = 0" by (simp_all add: disturbed_start_def)
  then show "t_calls (snd disturbed_pass) \<le> t_listed (snd disturbed_pass) + 17"
    using pass_within_budget [OF traced_meter.metered_api_axioms, of sample_request disturbed_start
        "fst disturbed_pass" "snd disturbed_pass" "fst ?get" "snd ?get"] e
    by (simp add: disturbed_pass_def prod_eq_iff)
qed

end
