(* ===== verification/Permissions.thy ===== *)
theory Permissions
  imports Interleaving
begin

text \<open>
  The \<open>+kubebuilder:rbac\<close> markers of \<open>devenvironment_controller.go\<close>, from which the manager's
  ClusterRole is generated, and the requests of a pass: each is one the markers permit. Reads
  through the manager's cache need \<open>list\<close> and \<open>watch\<close> as well; Pods may not be watched, so the
  code must read them through the uncached reader.
\<close>

section \<open>The markers\<close>

record rbac_rule =
  RuleGroups :: "string list"
  RuleResources :: "string list"
  RuleVerbs :: "string list"

definition all_verbs :: "string list" where
  "all_verbs = [''get'', ''list'', ''watch'', ''create'', ''update'', ''patch'', ''delete'']"

definition rbac_markers :: "rbac_rule list" where
  "rbac_markers =
     [\<lparr>RuleGroups = [''devenv.aviture.dev''], RuleResources = [''devenvironments''], RuleVerbs = all_verbs\<rparr>,
      \<lparr>RuleGroups = [''devenv.aviture.dev''], RuleResources = [''devenvironments/status''],
       RuleVerbs = [''get'', ''update'', ''patch'']\<rparr>,
      \<lparr>RuleGroups = [''devenv.aviture.dev''], RuleResources = [''devenvironments/finalizers''],
       RuleVerbs = [''update'']\<rparr>,
      \<lparr>RuleGroups = [''''], RuleResources = [''namespaces''], RuleVerbs = all_verbs\<rparr>,
      \<lparr>RuleGroups = [''''], RuleResources = [''configmaps'', ''secrets'', ''persistentvolumeclaims'', ''services''],
       RuleVerbs = all_verbs\<rparr>,
      \<lparr>RuleGroups = [''apps''], RuleResources = [''deployments''], RuleVerbs = all_verbs\<rparr>,
      \<lparr>RuleGroups = [''''], RuleResources = [''pods''], RuleVerbs = [''get'', ''list'']\<rparr>]"

text \<open>RBAC is additive: a request is allowed if some rule names its group, resource and verb.\<close>

fun permits :: "rbac_rule list \<Rightarrow> api_request \<Rightarrow> bool" where
  "permits rules (g, res, verb) \<longleftrightarrow> list_ex (\<lambda>rule. g \<in> set (RuleGroups rule) \<and>
     res \<in> set (RuleResources rule) \<and> verb \<in> set (RuleVerbs rule)) rules"

text \<open>
  The roles that are installed: the one generated from the markers (\<open>config/rbac/role.yaml\<close>) and
  the one of the chart (\<open>charts/kado-operator/templates/rbac.yaml\<close>), written by hand to match.
\<close>

definition role_verbs :: "string list" where
  "role_verbs = [''create'', ''delete'', ''get'', ''list'', ''patch'', ''update'', ''watch'']"

definition manager_role :: "rbac_rule list" where
  "manager_role =
     [\<lparr>RuleGroups = [''''],
       RuleResources = [''configmaps'', ''namespaces'', ''persistentvolumeclaims'', ''secrets'', ''services''],
       RuleVerbs = role_verbs\<rparr>,
      \<lparr>RuleGroups = [''''], RuleResources = [''pods''], RuleVerbs = [''get'', ''list'']\<rparr>,
      \<lparr>RuleGroups = [''apps''], RuleResources = [''deployments''], RuleVerbs = role_verbs\<rparr>,
      \<lparr>RuleGroups = [''devenv.aviture.dev''], RuleResources = [''devenvironments''], RuleVerbs = role_verbs\<rparr>,
      \<lparr>RuleGroups = [''devenv.aviture.dev''], RuleResources = [''devenvironments/finalizers''],
       RuleVerbs = [''update'']\<rparr>,
      \<lparr>RuleGroups = [''devenv.aviture.dev''], RuleResources = [''devenvironments/status''],
       RuleVerbs = [''get'', ''patch'', ''update'']\<rparr>]"

definition chart_role :: "rbac_rule list" where
  "chart_role =
     [\<lparr>RuleGroups = [''''],
       RuleResources = [''configmaps'', ''namespaces'', ''persistentvolumeclaims'', ''secrets'', ''services''],
       RuleVerbs = role_verbs\<rparr>,
      \<lparr>RuleGroups = [''apps''], RuleResources = [''deployments''], RuleVerbs = role_verbs\<rparr>,
      \<lparr>RuleGroups = [''''], RuleResources = [''pods''], RuleVerbs = [''get'', ''list'']\<rparr>,
      \<lparr>RuleGroups = [''devenv.aviture.dev''], RuleResources = [''devenvironments''], RuleVerbs = role_verbs\<rparr>,
      \<lparr>RuleGroups = [''devenv.aviture.dev''], RuleResources = [''devenvironments/finalizers''],
       RuleVerbs = [''update'']\<rparr>,
      \<lparr>RuleGroups = [''devenv.aviture.dev''], RuleResources = [''devenvironments/status''],
       RuleVerbs = [''get'', ''patch'', ''update'']\<rparr>]"

text \<open>The requests a list of rules grants, as a list: two lists of rules are compared by it.\<close>

definition granted :: "rbac_rule list \<Rightarrow> api_request list" where
  "granted rules = concat (map (\<lambda>rule. List.product (RuleGroups rule)
     (List.product (RuleResources rule) (RuleVerbs rule))) rules)"

lemma permits_granted: "permits rules q \<longleftrightarrow> q \<in> set (granted rules)"
  by (cases q) (auto simp: granted_def list_ex_iff)

lemma roles_match_markers:
  "permits manager_role q \<longleftrightarrow> permits rbac_markers q" "permits chart_role q \<longleftrightarrow> permits rbac_markers q"
proof -
  have "set (granted manager_role) = set (granted rbac_markers)" by code_simp
  then show "permits manager_role q \<longleftrightarrow> permits rbac_markers q" by (simp add: permits_granted)
  have "set (granted chart_role) = set (granted rbac_markers)" by code_simp
  then show "permits chart_role q \<longleftrightarrow> permits rbac_markers q" by (simp add: permits_granted)
qed

definition permitted :: "api_request set" where
  "permitted = {q. permits rbac_markers q}"

section \<open>Requests of a program\<close>

named_theorems sends_rules

lemma sends_return [sends_rules]: "sends sent Q (State_Monad.return x)"
  by (simp add: sends_def)

lemma sends_bind [sends_rules]:
  "sends sent Q m \<Longrightarrow> (\<And>x. sends sent Q (f x)) \<Longrightarrow> sends sent Q (State_Monad.bind m f)"
  unfolding sends_def by (fastforce split: prod.splits)

lemma sends_if [sends_rules]:
  "(b \<Longrightarrow> sends sent Q m) \<Longrightarrow> (\<not> b \<Longrightarrow> sends sent Q n) \<Longrightarrow> sends sent Q (if b then m else n)"
  by simp

lemma sends_sum [sends_rules]:
  "(\<And>e. sends sent Q (f e)) \<Longrightarrow> (\<And>x. sends sent Q (g x)) \<Longrightarrow> sends sent Q (case r of Inl e \<Rightarrow> f e | Inr x \<Rightarrow> g x)"
  by (cases r) auto

lemma sends_option [sends_rules]:
  "sends sent Q f \<Longrightarrow> (\<And>x. sends sent Q (g x)) \<Longrightarrow> sends sent Q (case r of None \<Rightarrow> f | Some x \<Rightarrow> g x)"
  by (cases r) auto

lemma sends_prod [sends_rules]:
  "(\<And>x y. sends sent Q (f x y)) \<Longrightarrow> sends sent Q (case r of (x, y) \<Rightarrow> f x y)"
  by (cases r) auto

lemma sends_permitted: "sends sent Q m \<Longrightarrow> Q \<subseteq> permitted \<Longrightarrow> sends sent permitted m"
  unfolding sends_def by blast

lemma permitted_requests:
  "set (cached env_group ''devenvironments'') \<subseteq> permitted" "{(env_group, ''devenvironments'', ''update'')} \<subseteq> permitted"
  "{(env_group, ''devenvironments/status'', ''update'')} \<subseteq> permitted"
  "set (cached [] ''namespaces'') \<subseteq> permitted" "{([], ''namespaces'', ''create'')} \<subseteq> permitted"
  "{([], ''namespaces'', ''patch'')} \<subseteq> permitted" "{([], ''namespaces'', ''delete'')} \<subseteq> permitted"
  "set (upsert [] ''configmaps'') \<subseteq> permitted" "{([], ''configmaps'', ''delete'')} \<subseteq> permitted"
  "set (cached [] ''secrets'') \<subseteq> permitted" "{([], ''secrets'', ''get'')} \<subseteq> permitted"
  "{([], ''secrets'', ''create'')} \<subseteq> permitted" "set (upsert [] ''secrets'') \<subseteq> permitted"
  "{([], ''secrets'', ''delete'')} \<subseteq> permitted"
  "set (cached [] ''persistentvolumeclaims'') \<subseteq> permitted" "{([], ''persistentvolumeclaims'', ''create'')} \<subseteq> permitted"
  "set (upsert ''apps'' ''deployments'') \<subseteq> permitted" "set (cached ''apps'' ''deployments'') \<subseteq> permitted"
  "{(''apps'', ''deployments'', ''delete'')} \<subseteq> permitted"
  "set (upsert [] ''services'') \<subseteq> permitted" "set (cached [] ''services'') \<subseteq> permitted"
  "{([], ''services'', ''delete'')} \<subseteq> permitted" "{([], ''pods'', ''list'')} \<subseteq> permitted" "{} \<subseteq> permitted"
  by (simp_all add: permitted_def rbac_markers_def all_verbs_def cached_def upsert_def env_group_def)

section \<open>The methods\<close>

context audited_api begin

lemma reader_is: "reader r = rd"
  by (simp add: reader_def reader_wired)

lemmas all_requests = env_requests namespace_requests content_requests workload_requests local_request

lemma requests_permitted [sends_rules]:
  "sends sent permitted (get_env (Client r) k)" "sends sent permitted (update_env (Client r) e)"
  "sends sent permitted (update_env_status (Client r) e)"
  "sends sent permitted (get_namespace (Client r) n)" "sends sent permitted (create_namespace (Client r) ns)"
  "sends sent permitted (patch_namespace (Client r) base modified)"
  "sends sent permitted (delete_namespace (Client r) ns)"
  "sends sent permitted (create_or_update_config_map (Client r) cm f_cm)"
  "sends sent permitted (delete_config_map (Client r) cm)"
  "sends sent permitted (get_secret (Client r) ks)" "sends sent permitted (get_secret rd ks)"
  "sends sent permitted (create_secret (Client r) s)"
  "sends sent permitted (create_or_update_secret (Client r) s f_s)"
  "sends sent permitted (delete_secret (Client r) s uid)"
  "sends sent permitted (get_pvc (Client r) kp)" "sends sent permitted (create_pvc (Client r) p)"
  "sends sent permitted (create_or_update_deployment (Client r) d f_d)"
  "sends sent permitted (list_deployments (Client r) l ls)"
  "sends sent permitted (delete_deployment (Client r) d)"
  "sends sent permitted (create_or_update_service (Client r) v f_v)"
  "sends sent permitted (list_services (Client r) l ls)" "sends sent permitted (delete_service (Client r) v)"
  "sends sent permitted (list_pods rd l ls)" "sends sent permitted (set_status_condition (Helpers r) cs cond)"
  by (rule sends_permitted, rule all_requests, rule permitted_requests)+

lemma copySecrets_permitted: "sends sent permitted (copySecrets r env ns pull names)"
proof (induction names)
  case (Cons name names)
  have "sends sent permitted (copySecret r env ns pull name)"
    unfolding copySecret_def replaceOnTypeChange_def reader_is Let_def by (intro sends_rules)
  then show ?case using Cons by (auto intro!: sends_rules)
qed (simp add: sends_return)

lemma reconcileServices_permitted: "sends sent permitted (reconcileServices r env ns svcs ready)"
proof (induction svcs arbitrary: ready)
  case (Cons svc svcs)
  have "sends sent permitted (reconcileService r env ns svc)"
    unfolding reconcileService_def by (intro sends_rules)
  then show ?case using Cons by (auto intro!: sends_rules)
qed (simp add: sends_return)

lemma pruneItems_permitted:
  "(\<And>obj. sends sent permitted (del obj)) \<Longrightarrow> sends sent permitted (pruneItems del what wanted objs)"
  by (induction objs) (auto intro!: sends_rules)

lemma reconcileEnvironment_permitted: "sends sent permitted (reconcileEnvironment r env)"
  unfolding reconcileEnvironment_def reconcileNamespace_def reconcileConfigMap_def reconcileSecrets_def
    reconcilePVC_def pruneServices_def Let_def
  by (intro sends_rules copySecrets_permitted reconcileServices_permitted pruneItems_permitted)

lemma status_permitted:
  "sends sent permitted (setFailed r env cause)" "sends sent permitted (setProvisioned r env ready)"
  unfolding setFailed_def setProvisioned_def reportProblems_def setCondition_def patchStatus_def
    workloadProblems_def addStalledServices_def reader_is Let_def
  by (intro sends_rules)+

lemma Reconcile_permitted: "sends sent permitted (Reconcile r req)"
  unfolding Reconcile_def reconcileDelete_def reconcileLive_def Let_def
  by (intro sends_rules reconcileEnvironment_permitted status_permitted)

end

section \<open>Properties\<close>

text \<open>
  C18. The operator has the permissions it needs. With the uncached reader wired, as \<open>main\<close> wires
  it, every request a pass sends, whatever fails and whoever interferes, is permitted by the
  markers, by the generated role and by the chart's role, counting that a read through the cache
  needs \<open>get\<close>, \<open>list\<close> and \<open>watch\<close> of the kind.
\<close>

theorem pass_within_permissions:
  assumes "audited_api r rd sent" and "run_state (Reconcile r req) w = (res, w')"
    and "q \<in> set (sent w')" and "q \<notin> set (sent w)"
  shows "permits rbac_markers q \<and> permits manager_role q \<and> permits chart_role q"
  using audited_api.Reconcile_permitted [OF assms(1), of req] assms(2-4)
  unfolding sends_def permitted_def roles_match_markers by blast

theorem pass_within_permissions_witness:
  "([], ''pods'', ''list'') \<in> set (t_log (snd disturbed_pass)) \<and> permits rbac_markers ([], ''pods'', ''list'') \<and>
   \<not> permits rbac_markers ([], ''pods'', ''watch'')"
proof -
  have sent: "([], ''pods'', ''list'') \<in> set (t_log (snd disturbed_pass))" by code_simp
  have "([], ''pods'', ''list'') \<notin> set (t_log disturbed_start)" by (simp add: disturbed_start_def)
  moreover have "run_state (Reconcile traced_reconciler sample_request) disturbed_start =
      (fst disturbed_pass, snd disturbed_pass)" by (simp add: disturbed_pass_def)
  ultimately have "permits rbac_markers ([], ''pods'', ''list'')"
    using pass_within_permissions [OF traced_audit.audited_api_axioms _ sent] by blast
  moreover have "\<not> permits rbac_markers ([], ''pods'', ''watch'')" by code_simp
  ultimately show ?thesis using sent by blast
qed

end
