(* ===== verification/Status_Type.thy ===== *)
theory Status_Type
  imports Lifecycle
begin

text \<open>
  A type for statuses: the combinations of phase, counters and conditions that a client of the
  custom resource can meet. The Go type allows any; the controller writes only coherent ones,
  so every status in every reachable state is coherent.
\<close>

section \<open>Coherent statuses\<close>

definition condition_is :: "dev_environment_status \<Rightarrow> string \<Rightarrow> condition_status \<Rightarrow> bool" where
  "condition_is st t s \<longleftrightarrow> map_option fst (verdict (Conditions st) t) = Some s"

definition condition_types :: "string set" where
  "condition_types = {ConditionAvailable, ConditionProgressing, ConditionDegraded}"

fun phase_coherent :: "dev_environment_phase \<Rightarrow> dev_environment_status \<Rightarrow> bool" where
  "phase_coherent PhaseUnset st \<longleftrightarrow> st = empty_status"
| "phase_coherent PhasePending st \<longleftrightarrow> False"
| "phase_coherent PhaseProvisioning st \<longleftrightarrow> ReadyServices st <s TotalServices st \<and> StatusNamespace st \<noteq> [] \<and>
     condition_is st ConditionAvailable ConditionFalse \<and>
     (condition_is st ConditionProgressing ConditionTrue \<and> condition_is st ConditionDegraded ConditionFalse \<or>
      condition_is st ConditionProgressing ConditionFalse \<and> condition_is st ConditionDegraded ConditionTrue)"
| "phase_coherent PhaseReady st \<longleftrightarrow> ReadyServices st = TotalServices st \<and> StatusNamespace st \<noteq> [] \<and>
     condition_is st ConditionAvailable ConditionTrue \<and>
     condition_is st ConditionProgressing ConditionFalse \<and> condition_is st ConditionDegraded ConditionFalse"
| "phase_coherent PhaseFailed st \<longleftrightarrow> condition_is st ConditionAvailable ConditionFalse \<and>
     condition_is st ConditionProgressing ConditionFalse \<and> condition_is st ConditionDegraded ConditionTrue"

definition coherent_status :: "dev_environment_status \<Rightarrow> bool" where
  "coherent_status st \<longleftrightarrow> distinct (map CondType (Conditions st)) \<and>
     CondType ` set (Conditions st) \<subseteq> condition_types \<and>
     0 <=s ReadyServices st \<and> ReadyServices st <=s TotalServices st \<and> phase_coherent (Phase st) st"

lemma coherent_empty: "coherent_status empty_status"
  by (simp add: coherent_status_def empty_status_def)

lemma dom_verdict: "dom (verdict cs) = CondType ` set cs"
  by (induction cs) (auto simp: verdict_def dom_def image_iff)

lemma failed_coherent:
  assumes "coherent_status (Status env)" and "failed_status env e st"
  shows "coherent_status st"
proof -
  note v = assms(2) [unfolded failed_status_def]
  have "CondType ` set (Conditions st) \<subseteq> condition_types"
    using v assms(1) dom_verdict [of "Conditions st"] dom_verdict [of "Conditions (Status env)"]
    by (auto simp: coherent_status_def condition_types_def)
  then show ?thesis using v assms(1) by (simp add: coherent_status_def condition_is_def)
qed

lemma provisioned_coherent:
  assumes "coherent_status (Status env)" and st: "provisioned_status env (ready_count env c) c1 st"
    and "countable env" and "TargetNamespace env \<noteq> []"
  shows "coherent_status st"
proof -
  let ?n = "total_services env" and ?ready = "ready_count env c"
  obtain problems where v: "verdict (Conditions st) = problem_verdicts (?ready = ?n) (readyMessage ?ready ?n) problems
      ((verdict (Conditions (Status env)))(ConditionAvailable \<mapsto> available_verdict (?ready = ?n) (readyMessage ?ready ?n)))"
    and none: "?ready = ?n \<Longrightarrow> problems = []"
    using st unfolding provisioned_status_def Let_def by (metis (full_types))
  have "CondType ` set (Conditions st) \<subseteq> condition_types"
    using v assms(1) dom_verdict [of "Conditions st"] dom_verdict [of "Conditions (Status env)"]
    by (auto simp: coherent_status_def condition_types_def problem_verdicts_def split: if_splits)
  moreover have "0 <=s ?ready" "?ready <=s ?n"
    using ready_count_sint [OF assms(3)] by (simp_all add: word_sle_eq)
  moreover have "?ready \<noteq> ?n \<Longrightarrow> ?ready <s ?n" using \<open>?ready <=s ?n\<close> by (metis signed.le_less)
  ultimately show ?thesis
    using st v none assms(1,4)
    by (auto simp: coherent_status_def provisioned_status_def Let_def condition_is_def problem_verdicts_def
        available_verdict_def)
qed

section \<open>Every status in the cluster\<close>

text \<open>
  \<open>statuses_coherent\<close> is the invariant; it includes what validation says of every stored record.
\<close>

definition admitted :: "dev_environment \<Rightarrow> bool" where
  "admitted e \<longleftrightarrow> valid_spec (Spec e) \<and> countable e \<and> Name e \<noteq> []"

definition statuses_coherent :: "cluster \<Rightarrow> bool" where
  "statuses_coherent c \<longleftrightarrow> (\<forall>k e. cl_envs c k = Some e \<longrightarrow> admitted e \<and> coherent_status (Status e))"

lemma admitted_cong: "admitted e \<Longrightarrow> Spec e' = Spec e \<Longrightarrow> Name e' = Name e \<Longrightarrow> admitted e'"
  by (simp add: admitted_def countable_def)

lemma statuses_coherentD: "statuses_coherent c \<Longrightarrow> cl_envs c k = Some e \<Longrightarrow> admitted e \<and> coherent_status (Status e)"
  unfolding statuses_coherent_def by blast

text \<open>Replacing one record by a coherent one, or removing it, keeps the invariant.\<close>

lemma statuses_coherent_update:
  assumes "statuses_coherent c" and "\<And>e. x = Some e \<Longrightarrow> admitted e \<and> coherent_status (Status e)"
  shows "statuses_coherent (c\<lparr>cl_envs := (cl_envs c)(k := x)\<rparr>)"
  unfolding statuses_coherent_def
proof (intro allI impI)
  fix k' e
  assume "cl_envs (c\<lparr>cl_envs := (cl_envs c)(k := x)\<rparr>) k' = Some e"
  then show "admitted e \<and> coherent_status (Status e)"
    using assms statuses_coherentD by (cases "k' = k") auto
qed

lemma status_written_coherent:
  assumes "statuses_coherent c" and "status_written env S c c'" and "\<And>st. S st \<Longrightarrow> coherent_status st"
  shows "statuses_coherent c'"
  using assms(2) unfolding status_written_def
proof (elim disjE exE conjE)
  fix cur v st
  assume "S st" "cl_envs c (obj_key env) = Some cur"
    and c': "c' = c\<lparr>cl_envs := (cl_envs c)(obj_key env \<mapsto> cur\<lparr>Status := st, ResourceVersion := v\<rparr>)\<rparr>"
  then have "admitted cur" "coherent_status st" using statuses_coherentD [OF assms(1)] assms(3) by blast+
  then show ?thesis
    unfolding c' by (intro statuses_coherent_update [OF assms(1)]) (auto simp: admitted_def countable_def)
qed (use assms(1) in simp)

lemma update_env_coherent:
  assumes inv: "statuses_coherent c" and eff: "update_env_effect e c obj c'" and "admitted e"
  shows "statuses_coherent c'" and "admitted obj \<and> coherent_status (Status obj)"
proof -
  obtain cur where cur: "cl_envs c (obj_key e) = Some cur" "Status obj = Status cur" "Spec obj = Spec e" "Name obj = Name e"
    and c': "c' = c\<lparr>cl_envs := (cl_envs c)(obj_key e :=
      (if DeletionTimestamp cur \<noteq> None \<and> Finalizers e = [] then None else Some obj))\<rparr>"
    using eff by (auto simp: update_env_effect_def)
  show obj: "admitted obj \<and> coherent_status (Status obj)"
    using cur admitted_cong [OF assms(3)] statuses_coherentD [OF inv] by simp
  show "statuses_coherent c'"
    unfolding c' by (rule statuses_coherent_update [OF inv]) (use obj in \<open>simp split: if_splits\<close>)
qed

lemma live_pass_coherent:
  assumes "live_pass admit_d admit_v env c res c'" and "statuses_coherent c"
    and "admitted env" "coherent_status (Status env)"
  shows "statuses_coherent c'"
proof -
  obtain ready failed c1 where pass: "environment_pass admit_d admit_v env c (ready, failed) c1"
    and rest: "case failed of
          Some e \<Rightarrow> status_written env (failed_status env e) c1 c'
        | None \<Rightarrow> status_written env (provisioned_status env ready c1) c1 c'"
    using assms(1) unfolding live_pass_def by (auto split: option.splits)
  have "cl_envs c1 = cl_envs c" using pass confined_envs unfolding environment_pass_def by blast
  then have c1: "statuses_coherent c1" using assms(2) by (simp add: statuses_coherent_def)
  show ?thesis
  proof (cases failed)
    case None
    then have "ready = ready_count env c1"
      using pass assms(3) by (simp add: environment_pass_def admitted_def)
    moreover have "TargetNamespace env \<noteq> []" using assms(3) by (simp add: admitted_def TargetNamespace_def)
    ultimately show ?thesis
      using status_written_coherent [OF c1, of env "provisioned_status env ready c1"] rest None assms(3)
        provisioned_coherent [OF assms(4)]
      by (simp add: admitted_def)
  next
    case (Some e)
    then show ?thesis using status_written_coherent [OF c1] rest failed_coherent [OF assms(4)] by simp
  qed
qed

lemma reconcile_pass_coherent:
  assumes "reconcile_pass admit_d admit_v req c res c'" and inv: "statuses_coherent c"
  shows "statuses_coherent c'"
proof (cases "cl_envs c (ReqNamespace req, ReqName req)")
  case (Some env)
  then have env: "admitted env" "coherent_status (Status env)" using statuses_coherentD [OF inv] by blast+
  have delete: "statuses_coherent c'" if "delete_pass env c res c'"
    using that
  proof (cases rule: delete_pass_cases)
    case (released obj)
    then show ?thesis
      using update_env_coherent [OF inv] admitted_cong [OF env(1)] by (simp add: without_finalizer_def)
  qed (use inv in \<open>simp_all add: statuses_coherent_def\<close>)
  have added: "statuses_coherent c1" "admitted obj \<and> coherent_status (Status obj)"
    if "update_env_effect (with_finalizer env) c obj c1" for obj c1
    using update_env_coherent [OF inv that] admitted_cong [OF env(1)] by (simp_all add: with_finalizer_def)
  have live: "statuses_coherent c'" if "live_pass admit_d admit_v env c res c'"
    using live_pass_coherent [OF that inv env] .
  have fresh: "statuses_coherent c'"
    if "update_env_effect (with_finalizer env) c obj c1" "c' = c1 \<or> live_pass admit_d admit_v obj c1 res c'" for obj c1
    using added [OF that(1)] that(2) live_pass_coherent by blast
  show ?thesis
    using assms(1) inv delete live fresh unfolding reconcile_pass_def Some option.case
    by (elim disjE conjE; (simp split: if_splits; fail)?; cases "DeletionTimestamp env = None"; cases "finalizerName \<in> set (Finalizers env)"; auto)
next
  case None
  then show ?thesis using assms by (simp add: reconcile_pass_def)
qed

section \<open>Reachable statuses\<close>

text \<open>
  The other actors may do anything to the cluster but write a status: status is a subresource,
  so an edit of the record keeps it and a creation clears it. Their records pass validation.
\<close>

definition status_kept :: "cluster \<Rightarrow> cluster \<Rightarrow> bool" where
  "status_kept c c' \<longleftrightarrow> (\<forall>k e'. cl_envs c' k = Some e' \<longrightarrow> admitted e' \<and>
     (Status e' = empty_status \<or> (\<exists>e. cl_envs c k = Some e \<and> Status e' = Status e)))"

inductive reporting :: "'w reconciler \<Rightarrow> ('w \<Rightarrow> cluster) \<Rightarrow> 'w \<Rightarrow> bool" for r view where
  no_records: "(\<And>k. cl_envs (view w) k = None) \<Longrightarrow> reporting r view w"
| passed: "reporting r view w \<Longrightarrow> run_state (Reconcile r req) w = (res, w') \<Longrightarrow> reporting r view w'"
| others_act: "reporting r view w \<Longrightarrow> status_kept (view w) (view w') \<Longrightarrow> reporting r view w'"

lemma reporting_coherent:
  assumes "api_server r view admit_ns admit_pvc admit_deploy admit_svc" and "reporting r view w"
  shows "statuses_coherent (view w)"
  using assms(2)
proof induction
  case (no_records w)
  then show ?case by (simp add: statuses_coherent_def)
next
  case (passed w req res w')
  then show ?case using reconcile_pass_coherent Reconcile_cases(1) [OF assms(1)] by blast
next
  case (others_act w w')
  then show ?case
    unfolding statuses_coherent_def status_kept_def using coherent_empty by metis
qed

section \<open>Properties\<close>

text \<open>
  C8. Statuses are coherent. In every state that passes and other actors can reach, whatever
  fails, the status of a record is empty or has one of three shapes. Ready: every service is
  counted ready and the conditions say available, not progressing, not degraded. Provisioning:
  some are missing, not available, and either progressing or degraded. Failed: not available,
  not progressing, degraded. There is one condition per type, of the three types declared, and
  the counters are not negative and in order. The declared phase Pending is never written.
\<close>

theorem reachable_status_coherent:
  assumes "api_server r view admit_ns admit_pvc admit_deploy admit_svc"
    and "reporting r view w" and "cl_envs (view w) k = Some e"
  shows "coherent_status (Status e) \<and> Phase (Status e) \<noteq> PhasePending"
proof -
  have "coherent_status (Status e)"
    using statuses_coherentD [OF reporting_coherent [OF assms(1,2)] assms(3)] by blast
  then show ?thesis by (auto simp: coherent_status_def)
qed

lemma first_pass_reporting: "reporting mem_reconciler mem_view (snd first_pass)"
proof (rule reporting.passed [OF reporting.others_act first_pass_result])
  show "reporting mem_reconciler mem_view empty_mem"
    by (rule reporting.no_records) (simp add: mem_view_def empty_mem_def)
  have "valid_spec sample_spec" by code_simp
  then show "status_kept (mem_view empty_mem) (mem_view start_mem)"
    by (auto simp: status_kept_def mem_view_def start_mem_def admitted_def countable_def sample_spec_def split: if_splits)
qed

theorem reachable_status_coherent_witness:
  "\<exists>e. cl_envs (mem_view (snd first_pass)) (''default'', ''team-alpha'') = Some e \<and>
     Phase (Status e) = PhaseProvisioning \<and> length (Conditions (Status e)) = 3 \<and>
     condition_is (Status e) ConditionAvailable ConditionFalse"
proof -
  let ?es = "m_envs (snd first_pass)"
  have facts: "length ?es = 1" "obj_key (hd ?es) = (''default'', ''team-alpha'')"
    "Phase (Status (hd ?es)) = PhaseProvisioning" "length (Conditions (Status (hd ?es))) = 3" by code_simp+
  then have e: "cl_envs (mem_view (snd first_pass)) (''default'', ''team-alpha'') = Some (hd ?es)"
    by (cases ?es) (auto simp: mem_view_def)
  show ?thesis
    using reachable_status_coherent [OF mem_api_server first_pass_reporting e] e facts
    by (auto simp: coherent_status_def)
qed

end
