(* ===== verification/Quiescence.thy ===== *)
theory Quiescence
  imports Lifecycle
begin

text \<open>
  A settled environment is left alone: when the cluster already holds what the record asks for,
  a pass writes nothing but the status, so the operator's own writes do not wake it again and
  passes do not fight with the server's defaults.
\<close>

section \<open>Settled clusters\<close>

definition fixed_by :: "('a \<Rightarrow> 'a) \<Rightarrow> 'a option \<Rightarrow> bool" where
  "fixed_by f x = (case x of None \<Rightarrow> False | Some y \<Rightarrow> f y = y)"

text \<open>
  A closure that changes something, but nothing that admission does not restore, as when it writes
  a field as a whole below which the server had filled in defaults.
\<close>

definition restored_by :: "('a \<Rightarrow> 'a \<Rightarrow> bool) \<Rightarrow> ('a \<Rightarrow> 'a) \<Rightarrow> 'a option \<Rightarrow> bool" where
  "restored_by admit f x =
     (case x of None \<Rightarrow> False | Some y \<Rightarrow> f y = y \<or> (\<forall>z. admit (f y) z \<longrightarrow> z = y))"

lemma fixed_restored: "fixed_by f x \<Longrightarrow> restored_by admit f x"
  by (simp add: fixed_by_def restored_by_def split: option.splits)

text \<open>
  What the record asks for is there: the closures of \<open>CreateOrUpdate\<close> have nothing to change
  that lasts, the claim exists, and no workload is left over.
\<close>

definition settled :: "(deployment \<Rightarrow> deployment \<Rightarrow> bool) \<Rightarrow> (service \<Rightarrow> service \<Rightarrow> bool) \<Rightarrow>
    dev_environment \<Rightarrow> cluster \<Rightarrow> bool" where
  "settled admit_d admit_v env c \<longleftrightarrow> (let ns = TargetNamespace env in
     (case cl_namespaces c ns of None \<Rightarrow> False | Some n \<Rightarrow> labels_current env n) \<and>
     (if Config (Spec env) = [] then cl_config_maps c (ns, configMapName env) = None
      else fixed_by (mutateConfigMap env) (cl_config_maps c (ns, configMapName env))) \<and>
     (\<forall>n \<in> set (referencedSecrets env). case cl_secrets c (Namespace env, n) of None \<Rightarrow> False
        | Some src \<Rightarrow> fixed_by (mutateSecret env src) (cl_secrets c (ns, n))) \<and>
     (Storage (Spec env) \<noteq> None \<longrightarrow> cl_pvcs c (ns, pvcName env) \<noteq> None) \<and>
     (\<forall>svc \<in> set (Services (Spec env)).
        restored_by admit_d (mutateDeployment env svc) (cl_deployments c (ns, SvcName svc)) \<and>
        restored_by admit_v (mutateService env svc) (cl_services c (ns, SvcName svc))) \<and>
     (\<forall>n d. cl_deployments c (ns, n) = Some d \<longrightarrow> \<not> stale env d) \<and>
     (\<forall>n v. cl_services c (ns, n) = Some v \<longrightarrow> \<not> stale env v))"

section \<open>Programs that write nothing\<close>

definition quiet :: "('w \<Rightarrow> cluster) \<Rightarrow> cluster \<Rightarrow> ('w, 'a) state \<Rightarrow> bool" where
  "quiet view c m \<longleftrightarrow> hoare view ((=) c) m (\<lambda>_ c'. c' = c)"

named_theorems quiet_rules

lemma quiet_return [quiet_rules]: "quiet view c (State_Monad.return x)"
  by (simp add: quiet_def hoare_return)

lemma quiet_bind [quiet_rules]:
  "quiet view c m \<Longrightarrow> (\<And>x. quiet view c (f x)) \<Longrightarrow> quiet view c (State_Monad.bind m f)"
  unfolding quiet_def by (erule hoare_step_at) simp

lemma quiet_if [quiet_rules]:
  "(b \<Longrightarrow> quiet view c m) \<Longrightarrow> (\<not> b \<Longrightarrow> quiet view c n) \<Longrightarrow> quiet view c (if b then m else n)"
  by simp

lemma quiet_sum [quiet_rules]:
  "(\<And>e. quiet view c (f e)) \<Longrightarrow> (\<And>x. quiet view c (g x)) \<Longrightarrow> quiet view c (case r of Inl e \<Rightarrow> f e | Inr x \<Rightarrow> g x)"
  by (cases r) auto

lemma quiet_option [quiet_rules]:
  "quiet view c f \<Longrightarrow> (\<And>x. quiet view c (g x)) \<Longrightarrow> quiet view c (case r of None \<Rightarrow> f | Some x \<Rightarrow> g x)"
  by (cases r) auto

lemma quiet_prod [quiet_rules]:
  "(\<And>x y. quiet view c (f x y)) \<Longrightarrow> quiet view c (case r of (x, y) \<Rightarrow> f x y)"
  by (cases r) auto

lemma quiet_write:
  assumes "writes view missing present eff m" and "\<And>obj c'. eff c obj c' \<Longrightarrow> c' = c"
  shows "quiet view c m"
  using assms unfolding writes_def quiet_def
  by (elim allE [of _ c] hoare_weaken) (auto simp: write_failed_def split: sum.splits)

text \<open>A read of an object that is there: it is returned, or an error other than NotFound.\<close>

lemma quiet_read:
  assumes "reads view look m" and "look c = Some obj"
    and "\<And>e. \<not> is_not_found e \<Longrightarrow> quiet view c (f (Inl e))" and "quiet view c (f (Inr obj))"
  shows "quiet view c (State_Monad.bind m f)"
  unfolding quiet_def
  by (rule read_step [OF assms(1)]) (use assms(2-4) in \<open>auto simp: quiet_def\<close>)

lemma create_or_update_noop:
  "create_or_update_effect admit sel upd k init f c obj c' \<Longrightarrow> restored_by admit f (sel c k) \<Longrightarrow> c' = c"
  by (auto simp: create_or_update_effect_def restored_by_def split: option.splits if_splits)

lemma quiet_list:
  fixes sel :: "cluster \<Rightarrow> obj_key \<rightharpoonup> 'b object_meta_scheme"
  assumes "lists view sel ns ls m" and "\<And>e. quiet view c (f (Inl e))"
    and "\<And>objs. (\<And>obj. obj \<in> set objs \<Longrightarrow> sel c (ns, Name obj) = Some obj \<and> selects ls obj) \<Longrightarrow>
      quiet view c (f (Inr objs))"
  shows "quiet view c (State_Monad.bind m f)"
  unfolding quiet_def
  by (rule list_step [OF assms(1)]) (use assms(2,3) in \<open>auto simp: quiet_def\<close>)

lemma pruneItems_kept: "list_all (keeps wanted) objs \<Longrightarrow> pruneItems del what wanted objs = State_Monad.return (Inr ())"
  by (induction objs) simp_all

section \<open>The methods on a settled cluster\<close>

lemma labels_current_merge:
  "labels_current env n \<Longrightarrow> map_of (maps_copy (Labels n) (labels env [])) = map_of (Labels n)"
  by (auto simp: labels_current_def map_of_maps_copy map_add_def map_le_def dom_def fun_eq_iff split: option.splits)

lemma synced_secret:
  "mutateSecret env src d = d \<Longrightarrow> owns env d \<and> SecretType d = SecretType src"
  by (auto intro!: labels_current_owns simp: labels_current_def mutateSecret_def dest: arg_cong [of _ _ Labels] arg_cong [of _ _ SecretType])

context api_server begin

lemma reconcileNamespace_quiet:
  assumes n: "cl_namespaces c ns = Some n" and current: "labels_current env n"
  shows "quiet view c (reconcileNamespace r env ns)"
proof -
  let ?modified = "n\<lparr>Labels := maps_copy (Labels n) (labels env [])\<rparr>"
  have "quiet view c (patch_namespace (Client r) n ?modified)"
    by (rule quiet_write [OF patch_namespace_law])
       (use labels_current_merge [OF current] in \<open>auto simp: patch_effect_def\<close>)
  then show ?thesis
    unfolding reconcileNamespace_def Let_def
    by (intro quiet_read [OF get_namespace_law n]; simp)
       (auto intro!: quiet_rules simp: labels_current_owns [OF current])
qed

lemma reconcileConfigMap_quiet:
  assumes "if Config (Spec env) = [] then cl_config_maps c (ns, configMapName env) = None
      else fixed_by (mutateConfigMap env) (cl_config_maps c (ns, configMapName env))"
  shows "quiet view c (reconcileConfigMap r env ns)"
proof -
  let ?cm = "new_config_map ns (configMapName env)"
  have key: "obj_key ?cm = (ns, configMapName env)"
    by (simp add: obj_key_def new_config_map_def new_meta_def object_meta.defs config_map.defs)
  have "quiet view c (delete_config_map (Client r) ?cm)" if "Config (Spec env) = []"
    by (rule quiet_write [OF delete_config_map_law]) (use assms that key in \<open>auto simp: delete_effect_def\<close>)
  moreover have "quiet view c (create_or_update_config_map (Client r) ?cm (mutateConfigMap env))"
    if "Config (Spec env) \<noteq> []"
    by (rule quiet_write [OF create_or_update_config_map_law [OF keeps_meta_mutateConfigMap]],
        erule create_or_update_noop) (use assms that key in \<open>simp add: fixed_restored\<close>)
  ultimately show ?thesis
    unfolding reconcileConfigMap_def Let_def by (intro quiet_rules) simp_all
qed

lemma copySecret_quiet:
  assumes src: "cl_secrets c (Namespace env, name) = Some src"
    and d: "cl_secrets c (ns, name) = Some d" "mutateSecret env src d = d"
  shows "quiet view c (copySecret r env ns pull name)"
proof -
  have key: "obj_key (new_secret ns name) = (ns, name)"
    by (simp add: obj_key_def new_secret_def new_meta_def object_meta.defs secret.defs)
  have cu: "quiet view c (create_or_update_secret (Client r) (new_secret ns name) (mutateSecret env src))"
    by (rule quiet_write [OF create_or_update_secret_law [OF keeps_meta_mutateSecret]],
        erule create_or_update_noop) (use d key in \<open>simp add: restored_by_def\<close>)
  have kept: "hoare view ((=) c) (replaceOnTypeChange r env name ns (SecretType src))
      (\<lambda>res c'. c' = c \<and> (\<forall>b. res = Inr b \<longrightarrow> \<not> b))"
    unfolding replaceOnTypeChange_def
    by (rule read_step [OF read_secret_law]) (use synced_secret [OF d(2)] d(1) in \<open>auto intro: hoare_return_eq\<close>)
  have replace: "quiet view c (State_Monad.bind (replaceOnTypeChange r env name ns (SecretType src)) f)"
    if "\<And>e. quiet view c (f (Inl e))" "quiet view c (f (Inr False))" for f :: "_ \<Rightarrow> ('w, unit) io"
    unfolding quiet_def
  proof (rule hoare_step_at [OF kept])
    fix res :: "go_error + bool" and c'
    assume "c' = c \<and> (\<forall>b. res = Inr b \<longrightarrow> \<not> b)"
    then show "hoare view ((=) c') (f res) (\<lambda>_ c'. c' = c)" using that by (cases res) (auto simp: quiet_def)
  qed
  show ?thesis
    unfolding copySecret_def
    by (rule quiet_read [OF get_secret_law src]; simp)
       (auto intro!: quiet_return replace quiet_bind [OF cu] split: sum.split)
qed

lemma reconcileSecrets_quiet:
  assumes "\<And>n. n \<in> set (referencedSecrets env) \<Longrightarrow> \<exists>src d. cl_secrets c (Namespace env, n) = Some src \<and>
      cl_secrets c (ns, n) = Some d \<and> mutateSecret env src d = d"
  shows "quiet view c (reconcileSecrets r env ns)"
proof -
  have "quiet view c (copySecrets r env ns pull names)" if "set names \<subseteq> set (referencedSecrets env)" for pull names
    using that
  proof (induction names)
    case (Cons name names)
    obtain src d where "cl_secrets c (Namespace env, name) = Some src" "cl_secrets c (ns, name) = Some d"
        "mutateSecret env src d = d"
      using assms [of name] Cons.prems by auto
    then have "quiet view c (copySecret r env ns pull name)" by (rule copySecret_quiet)
    then show ?case using Cons by (auto intro!: quiet_rules)
  qed (simp add: quiet_return)
  then show ?thesis by (simp add: reconcileSecrets_def Let_def)
qed

lemma reconcilePVC_quiet:
  assumes "Storage (Spec env) \<noteq> None \<Longrightarrow> cl_pvcs c (ns, pvcName env) \<noteq> None"
  shows "quiet view c (reconcilePVC r env ns)"
proof (cases "Storage (Spec env)")
  case (Some st)
  then obtain p where "cl_pvcs c (ns, pvcName env) = Some p" using assms by auto
  then show ?thesis
    unfolding reconcilePVC_def Some option.case Let_def
    by (rule quiet_read [OF get_pvc_law]; simp add: quiet_return)
qed (simp add: reconcilePVC_def quiet_return)

lemma reconcileServices_quiet:
  assumes "\<And>svc. svc \<in> set svcs \<Longrightarrow>
      restored_by admit_deploy (mutateDeployment env svc) (cl_deployments c (ns, SvcName svc)) \<and>
      restored_by admit_svc (mutateService env svc) (cl_services c (ns, SvcName svc))"
  shows "quiet view c (reconcileServices r env ns svcs ready)"
  using assms
proof (induction svcs arbitrary: ready)
  case (Cons svc svcs)
  have key: "obj_key (new_deployment ns (SvcName svc)) = (ns, SvcName svc)"
    "obj_key (new_service ns (SvcName svc)) = (ns, SvcName svc)"
    by (simp_all add: obj_key_def new_deployment_def new_service_def new_meta_def object_meta.defs
        deployment.defs service.defs)
  have "quiet view c (create_or_update_deployment (Client r) (new_deployment ns (SvcName svc)) (mutateDeployment env svc))"
    by (rule quiet_write [OF create_or_update_deployment_law [OF keeps_meta_mutate(1)]], simp add: mutate_keeps_identity,
        erule create_or_update_noop) (use Cons.prems key in simp)
  moreover have "quiet view c (create_or_update_service (Client r) (new_service ns (SvcName svc)) (mutateService env svc))"
    by (rule quiet_write [OF create_or_update_service_law [OF keeps_meta_mutate(2)]],
        erule create_or_update_noop) (use Cons.prems key in simp)
  ultimately have "quiet view c (reconcileService r env ns svc)"
    unfolding reconcileService_def by (intro quiet_rules)
  then show ?case using Cons by (auto intro!: quiet_rules)
qed (simp add: quiet_return)

lemma pruneServices_quiet:
  assumes "\<And>n d. cl_deployments c (ns, n) = Some d \<Longrightarrow> \<not> stale env d"
    and "\<And>n v. cl_services c (ns, n) = Some v \<Longrightarrow> \<not> stale env v"
  shows "quiet view c (pruneServices r env ns)"
proof -
  let ?wanted = "map SvcName (Services (Spec env))"
  have ds: "list_all (keeps ?wanted) objs"
    if "\<And>obj. obj \<in> set objs \<Longrightarrow> cl_deployments c (ns, Name obj) = Some obj \<and> selects (prune_selector env) obj"
    for objs using that assms(1) by (auto simp: stale_def list_all_iff)
  have vs: "list_all (keeps ?wanted) objs"
    if "\<And>obj. obj \<in> set objs \<Longrightarrow> cl_services c (ns, Name obj) = Some obj \<and> selects (prune_selector env) obj"
    for objs using that assms(2) by (auto simp: stale_def list_all_iff)
  show ?thesis
    unfolding pruneServices_def Let_def
  proof (rule quiet_list [OF list_deployments_law]; simp only: sum.case)
    fix objs
    assume "\<And>obj. obj \<in> set objs \<Longrightarrow> cl_deployments c (ns, Name obj) = Some obj \<and> selects (prune_selector env) obj"
    then have kept: "list_all (keeps ?wanted) objs" by (rule ds)
    show "quiet view c (State_Monad.bind (pruneItems (delete_deployment (Client r)) ''deployment'' ?wanted objs)
        (\<lambda>pruned. case pruned of Inl err \<Rightarrow> State_Monad.return (Inl err) | Inr _ \<Rightarrow>
           State_Monad.bind (list_services (Client r) ns (prune_selector env)) (\<lambda>listed. case listed of
             Inl err \<Rightarrow> State_Monad.return (Inl (Wrapf ''listing services'' err))
           | Inr services \<Rightarrow> pruneItems (delete_service (Client r)) ''service'' ?wanted services)))"
      unfolding pruneItems_kept [OF kept]
      by (simp, rule quiet_list [OF list_services_law]) (simp_all add: quiet_return pruneItems_kept [OF vs])
  qed (rule quiet_return)
qed

lemma reconcileEnvironment_quiet:
  assumes "settled admit_deploy admit_svc env c"
  shows "quiet view c (reconcileEnvironment r env)"
proof -
  note s = assms [unfolded settled_def Let_def]
  have "quiet view c (reconcileNamespace r env (TargetNamespace env))"
    using s by (auto intro: reconcileNamespace_quiet split: option.splits)
  moreover have "quiet view c (reconcileSecrets r env (TargetNamespace env))"
    using s by (intro reconcileSecrets_quiet) (fastforce simp: fixed_by_def split: option.splits)
  moreover have "quiet view c (pruneServices r env (TargetNamespace env))"
    using s by (intro pruneServices_quiet) blast+
  ultimately show ?thesis
    unfolding reconcileEnvironment_def Let_def
    using s by (intro quiet_rules reconcileConfigMap_quiet reconcilePVC_quiet reconcileServices_quiet) blast+
qed

text \<open>The status is all that a live pass writes then.\<close>

lemma reconcileLive_settled:
  assumes "settled admit_deploy admit_svc env c"
  shows "hoare view ((=) c) (reconcileLive r env) (\<lambda>_ c'. \<exists>S. status_written env S c c')"
proof -
  have "hoare view ((=) c) (setFailed r env e) (\<lambda>_ c'. \<exists>S. status_written env S c c')" for e
    by (rule hoare_weaken [OF setFailed_spec]) (auto simp: status_pass_def)
  moreover have "hoare view ((=) c) (setProvisioned r env n) (\<lambda>_ c'. \<exists>S. status_written env S c c')" for n
    by (rule hoare_weaken [OF setProvisioned_spec]) (auto simp: status_pass_def)
  ultimately show ?thesis
    unfolding reconcileLive_def
    by (rule_tac hoare_step_at [OF reconcileEnvironment_quiet [OF assms, unfolded quiet_def]])
       (auto intro!: hoare_case_option hoare_bind hoare_case_sum hoare_if hoare_return split: prod.split)
qed

end

section \<open>Properties\<close>

text \<open>
  C12. A settled environment is left alone. If the cluster already holds what a live record with
  the finalizer asks for, a pass changes nothing but the status of that record, whatever fails:
  no Secret is replaced, nothing is pruned, and an update that overwrites the server's defaults
  is admitted as the stored object again.
\<close>

theorem settled_pass_writes_status_only:
  assumes api: "api_server r view admit_ns admit_pvc admit_deploy admit_svc"
    and run: "run_state (Reconcile r req) w = (res, w')"
    and env: "requested req (view w) env" "finalizerName \<in> set (Finalizers env)" "settled admit_deploy admit_svc env (view w)"
  shows "\<exists>st v. view w' = (view w)\<lparr>cl_envs := (cl_envs (view w))
    ((ReqNamespace req, ReqName req) \<mapsto> env\<lparr>Status := st, ResourceVersion := v\<rparr>)\<rparr>"
proof -
  let ?k = "(ReqNamespace req, ReqName req)" and ?c = "view w"
  note laws = api_server_parts(6) [OF api]
  have stored: "cl_envs ?c ?k = Some env" and live: "DeletionTimestamp env = None"
    using env(1) by (simp_all add: requested_def)
  then have key: "obj_key env = ?k" using wf_view_server [OF api] unfolding wf_cluster_def keyed_def by blast
  have "hoare view ((=) ?c) (Reconcile r req) (\<lambda>_ c'. \<exists>S. status_written env S ?c c')"
    unfolding Reconcile_def env_api.contains_finalizer_law [OF laws]
    by (rule read_step [OF env_api.get_env_law [OF laws]])
       (use stored live env(2) api_server.reconcileLive_settled [OF api env(3)] in \<open>auto intro: hoare_return_eq\<close>)
  from hoareD [OF this refl run] obtain S where S: "status_written env S ?c (view w')" by blast
  then show ?thesis
    unfolding status_written_def
  proof (elim disjE exE conjE)
    assume "view w' = ?c"
    then have "view w' = ?c\<lparr>cl_envs := (cl_envs ?c)(?k \<mapsto> env\<lparr>Status := Status env, ResourceVersion := ResourceVersion env\<rparr>)\<rparr>"
      using stored by (simp add: fun_upd_idem)
    then show ?thesis by blast
  qed (use stored key in auto)
qed

text \<open>After one pass the environment with a service scaled to zero is settled, whatever the second pass does.\<close>

fun lists_settled :: "mem \<Rightarrow> dev_environment \<Rightarrow> bool" where
  "lists_settled w env \<longleftrightarrow> (let ns = TargetNamespace env in
     obj_key env = (''default'', ''team-alpha'') \<and> DeletionTimestamp env = None \<and>
     finalizerName \<in> set (Finalizers env) \<and>
     (case lookup Name (m_namespaces w) ns of None \<Rightarrow> False
      | Some n \<Rightarrow> list_all (\<lambda>(k, v). map_of (Labels n) k = Some v) (labels env [])) \<and>
     Config (Spec env) \<noteq> [] \<and> referencedSecrets env = [] \<and> Storage (Spec env) = None \<and>
     fixed_by (mutateConfigMap env) (lookup obj_key (m_config_maps w) (ns, configMapName env)) \<and>
     list_all (\<lambda>svc. fixed_by (\<lambda>d. default_deployment (mutateDeployment env svc d))
          (lookup obj_key (m_deployments w) (ns, SvcName svc)) \<and>
        fixed_by (mutateService env svc) (lookup obj_key (m_services w) (ns, SvcName svc))) (Services (Spec env)) \<and>
     list_all (\<lambda>d. \<not> stale env d) (m_deployments w) \<and> list_all (\<lambda>v. \<not> stale env v) (m_services w))"

fun one_settled :: "mem \<Rightarrow> bool" where
  "one_settled w \<longleftrightarrow> (case m_envs w of [env] \<Rightarrow> lists_settled w env | _ \<Rightarrow> False)"

lemma idle_pass_settled: "one_settled (snd idle_pass)"
  by code_simp

lemma labels_currentI:
  assumes "list_all (\<lambda>(k, v). map_of (Labels obj) k = Some v) (labels env [])"
  shows "labels_current env obj"
  unfolding labels_current_def map_le_def
proof
  fix k
  assume "k \<in> dom (map_of (labels env []))"
  then obtain v where v: "map_of (labels env []) k = Some v" by blast
  from map_of_SomeD [OF this] assms show "map_of (labels env []) k = map_of (Labels obj) k"
    using v by (fastforce simp: list_all_iff)
qed

lemma lookup_in: "lookup key xs k = Some x \<Longrightarrow> x \<in> set xs"
  by (induction xs) (auto split: if_splits)

lemma defaults_restore:
  "fixed_by (\<lambda>d. default_deployment (f d)) x \<Longrightarrow> restored_by admit_deployment f x"
  by (simp add: fixed_by_def restored_by_def admit_deployment_def split: option.splits)

lemma lists_settled: "lists_settled w env \<Longrightarrow> settled admit_deployment (=) env (mem_view w)"
  using lookup_in [of obj_key "m_deployments w"] lookup_in [of obj_key "m_services w"]
  by (auto simp: settled_def Let_def mem_view_def list_all_iff labels_currentI [unfolded list_all_iff]
      fixed_restored defaults_restore
      split: option.splits)

theorem settled_pass_writes_status_only_witness:
  "\<exists>env st v. mem_view (snd (run_state (Reconcile mem_reconciler sample_request) (snd idle_pass))) =
     (mem_view (snd idle_pass))\<lparr>cl_envs := (cl_envs (mem_view (snd idle_pass)))
       ((''default'', ''team-alpha'') \<mapsto> env\<lparr>Status := st, ResourceVersion := v\<rparr>)\<rparr>"
proof -
  obtain env where env: "m_envs (snd idle_pass) = [env]" "lists_settled (snd idle_pass) env"
    using idle_pass_settled by (auto split: list.splits)
  then have facts: "obj_key env = (''default'', ''team-alpha'')" "DeletionTimestamp env = None"
    "finalizerName \<in> set (Finalizers env)" by (simp_all add: Let_def)
  then have "requested sample_request (mem_view (snd idle_pass)) env"
    using env(1) by (simp add: requested_def mem_view_def sample_request_def)
  from settled_pass_writes_status_only [OF mem_api_server mem_run this facts(3) lists_settled [OF env(2)]]
  show ?thesis by (auto simp: sample_request_def)
qed

end
