(* ===== verification/Go_Memory.thy ===== *)
theory Go_Memory
  imports Prelude
begin

text \<open>
  Memory as Go programs see it, for the code that copies structures with pointers: cells at
  addresses, pointers, slices and maps as references to cells, \<open>new\<close>, \<open>make\<close> and the loops of
  generated copy functions. A read through a pointer that is nil, dangling or of another type is
  \<open>None\<close>. A value is what \<open>reflect.DeepEqual\<close> compares, so a nil slice and an empty one differ;
  a footprint is the set of addresses through which a value can be changed.
\<close>

section \<open>Memory\<close>

type_synonym addr = nat

record 'c heap =
  cells :: "addr \<Rightarrow> 'c option"
  next_free :: addr

definition alloc :: "'c \<Rightarrow> 'c heap \<Rightarrow> addr \<times> 'c heap" where
  "alloc c h = (next_free h, h\<lparr>cells := (cells h)(next_free h \<mapsto> c), next_free := next_free h + 1\<rparr>)"

definition write_cell :: "addr \<Rightarrow> 'c \<Rightarrow> 'c heap \<Rightarrow> 'c heap" where
  "write_cell a c h = h\<lparr>cells := (cells h)(a \<mapsto> c)\<rparr>"

definition wf_heap :: "'c heap \<Rightarrow> bool" where
  "wf_heap h \<longleftrightarrow> (\<forall>a c. cells h a = Some c \<longrightarrow> a < next_free h)"

text \<open>A type of cell: how its content is stored, and the zero value \<open>new\<close> and \<open>make\<close> start from.\<close>

record ('c, 'a) kind =
  wrap :: "'a \<Rightarrow> 'c"
  unwrap :: "'c \<Rightarrow> 'a option"

definition typed :: "('c, 'a) kind \<Rightarrow> bool" where
  "typed K \<longleftrightarrow> (\<forall>x c. unwrap K c = Some x \<longleftrightarrow> c = wrap K x)"

definition load :: "('c, 'a) kind \<Rightarrow> 'c heap \<Rightarrow> addr \<Rightarrow> 'a option" where
  "load K h a = Option.bind (cells h a) (unwrap K)"

text \<open>A slice: its array, where it starts and its length. \<open>None\<close> is nil, for pointers, maps and slices.\<close>

record slice =
  sl_array :: addr
  sl_start :: nat
  sl_len :: nat

definition elements :: "('c, 'a list) kind \<Rightarrow> 'c heap \<Rightarrow> slice \<Rightarrow> 'a list option" where
  "elements K h s = (case load K h (sl_array s) of
     None \<Rightarrow> None
   | Some xs \<Rightarrow> if sl_start s + sl_len s \<le> length xs then Some (take (sl_len s) (drop (sl_start s) xs)) else None)"

section \<open>The statements of generated copy functions\<close>

type_synonym ('c, 'a) copier = "'a \<Rightarrow> 'c heap \<Rightarrow> ('a \<times> 'c heap) option"

text \<open>\<open>*out = *in\<close> for a type without references.\<close>

definition assign :: "('c, 'a) copier" where
  "assign x h = Some (x, h)"

text \<open>
  \<open>if in.F != nil { *out = new(T); (*in).DeepCopyInto(*out) }\<close>, and with \<open>assign\<close> for
  \<open>**out = **in\<close>.
\<close>

definition copy_pointer :: "('c, 'a) kind \<Rightarrow> 'a \<Rightarrow> ('c, 'a) copier \<Rightarrow> ('c, addr option) copier" where
  "copy_pointer K zero f p h = (case p of
     None \<Rightarrow> Some (p, h)
   | Some a \<Rightarrow> do {
       let (b, h) = alloc (wrap K zero) h;
       x \<leftarrow> load K h a;
       (y, h) \<leftarrow> f x h;
       Some (Some b, write_cell b (wrap K y) h)
     })"

text \<open>\<open>for i := range *in { (*in)[i].DeepCopyInto(&(*out)[i]) }\<close>, from index \<open>i\<close> on.\<close>

fun copy_elements :: "('c, 'a list) kind \<Rightarrow> ('c, 'a) copier \<Rightarrow> addr \<Rightarrow> nat \<Rightarrow> 'a list \<Rightarrow> 'c heap \<Rightarrow> 'c heap option" where
  "copy_elements K f b i [] h = Some h"
| "copy_elements K f b i (x # xs) h = do {
     (y, h) \<leftarrow> f x h;
     ys \<leftarrow> load K h b;
     copy_elements K f b (Suc i) xs (write_cell b (wrap K (ys[i := y])) h)
   }"

text \<open>
  \<open>if in.F != nil { *out = make([]T, len(*in)); ... }\<close>; the built-in \<open>copy(*out, *in)\<close> is the
  loop with \<open>assign\<close>, as the two lengths are equal.
\<close>

definition copy_slice :: "('c, 'a list) kind \<Rightarrow> 'a \<Rightarrow> ('c, 'a) copier \<Rightarrow> ('c, slice option) copier" where
  "copy_slice K zero f s h = (case s of
     None \<Rightarrow> Some (s, h)
   | Some sl \<Rightarrow> do {
       let (b, h) = alloc (wrap K (replicate (sl_len sl) zero)) h;
       xs \<leftarrow> elements K h sl;
       h \<leftarrow> copy_elements K f b 0 xs h;
       Some (Some \<lparr>sl_array = b, sl_start = 0, sl_len = sl_len sl\<rparr>, h)
     })"

text \<open>\<open>for key, val := range *in { (*out)[key] = val }\<close>.\<close>

fun copy_entries :: "('c, (string, string) gomap) kind \<Rightarrow> addr \<Rightarrow> (string, string) gomap \<Rightarrow> 'c heap \<Rightarrow> 'c heap option" where
  "copy_entries K b [] h = Some h"
| "copy_entries K b ((key, val) # kvs) h = do {
     m \<leftarrow> load K h b;
     copy_entries K b kvs (write_cell b (wrap K (AList.update key val m)) h)
   }"

definition copy_map :: "('c, (string, string) gomap) kind \<Rightarrow> ('c, addr option) copier" where
  "copy_map K p h = (case p of
     None \<Rightarrow> Some (p, h)
   | Some a \<Rightarrow> do {
       let (b, h) = alloc (wrap K []) h;
       m \<leftarrow> load K h a;
       h \<leftarrow> copy_entries K b m h;
       Some (Some b, h)
     })"

section \<open>Values and footprints\<close>

datatype 'v go_value = NilV | IntV int | StringV string | MapV "(string, string) gomap" | LibraryV 'v |
  PointerV "'v go_value" | SliceV "'v go_value list" | StructV "'v go_value list"

type_synonym ('c, 'a, 'v) valuation = "'c heap \<Rightarrow> 'a \<Rightarrow> 'v go_value option"
type_synonym ('c, 'a) footprint = "'c heap \<Rightarrow> 'a \<Rightarrow> addr set"

definition pointer_value :: "('c, 'a) kind \<Rightarrow> ('c, 'a, 'v) valuation \<Rightarrow> ('c, addr option, 'v) valuation" where
  "pointer_value K val h p = (case p of
     None \<Rightarrow> Some NilV
   | Some a \<Rightarrow> do { x \<leftarrow> load K h a; v \<leftarrow> val h x; Some (PointerV v) })"

definition pointer_foot :: "('c, 'a) kind \<Rightarrow> ('c, 'a) footprint \<Rightarrow> ('c, addr option) footprint" where
  "pointer_foot K foot h p = (case p of
     None \<Rightarrow> {}
   | Some a \<Rightarrow> insert a (case load K h a of None \<Rightarrow> {} | Some x \<Rightarrow> foot h x))"

definition slice_value :: "('c, 'a list) kind \<Rightarrow> ('c, 'a, 'v) valuation \<Rightarrow> ('c, slice option, 'v) valuation" where
  "slice_value K val h s = (case s of
     None \<Rightarrow> Some NilV
   | Some sl \<Rightarrow> do { xs \<leftarrow> elements K h sl; vs \<leftarrow> those (map (val h) xs); Some (SliceV vs) })"

definition slice_foot :: "('c, 'a list) kind \<Rightarrow> ('c, 'a) footprint \<Rightarrow> ('c, slice option) footprint" where
  "slice_foot K foot h s = (case s of
     None \<Rightarrow> {}
   | Some sl \<Rightarrow> insert (sl_array sl) (case elements K h sl of None \<Rightarrow> {} | Some xs \<Rightarrow> \<Union>(foot h ` set xs)))"

text \<open>Two maps are equal when they have the same entries; the keys in order are one form of that.\<close>

definition map_value :: "('c, (string, string) gomap) kind \<Rightarrow> ('c, addr option, 'v) valuation" where
  "map_value K h p = (case p of
     None \<Rightarrow> Some NilV
   | Some a \<Rightarrow> do {
       m \<leftarrow> load K h a;
       if wf_map m then Some (MapV (map (\<lambda>k. (k, idx m k)) (sorted_list_of_set (fst ` set m)))) else None
     })"

definition map_foot :: "('c, addr option) footprint" where
  "map_foot h p = (case p of None \<Rightarrow> {} | Some a \<Rightarrow> {a})"

section \<open>The contract of a deep copy\<close>

definition grows :: "'c heap \<Rightarrow> 'c heap \<Rightarrow> bool" where
  "grows h h' \<longleftrightarrow> wf_heap h' \<and> next_free h \<le> next_free h' \<and> (\<forall>a < next_free h. cells h' a = cells h a)"

text \<open>
  The value depends on the footprint only, and the footprint lies in memory. A copy has the
  same value, changes no old cell, and its footprint is new memory only.
\<close>

locale representation =
  fixes val :: "('c, 'a, 'v) valuation" and foot :: "('c, 'a) footprint"
  assumes foot_dom: "val h x = Some v \<Longrightarrow> foot h x \<subseteq> dom (cells h)"
    and local: "(\<And>a. a \<in> foot h x \<Longrightarrow> cells h' a = cells h a) \<Longrightarrow> val h' x = val h x \<and> foot h' x = foot h x"

locale deep_copy = representation val foot
  for val :: "('c, 'a, 'v) valuation" and foot :: "('c, 'a) footprint" +
  fixes f :: "('c, 'a) copier"
  assumes deep: "wf_heap h \<Longrightarrow> val h x = Some v \<Longrightarrow>
      \<exists>y h'. f x h = Some (y, h') \<and> grows h h' \<and> val h' y = Some v \<and> foot h' y \<subseteq> {next_free h..<next_free h'}"

lemma grows_refl: "wf_heap h \<Longrightarrow> grows h h"
  by (simp add: grows_def)

lemma grows_trans: "grows h h1 \<Longrightarrow> grows h1 h2 \<Longrightarrow> grows h h2"
  unfolding grows_def by (metis order_less_le_trans order_trans)

lemma grows_wf: "grows h h' \<Longrightarrow> wf_heap h'"
  by (simp add: grows_def)

lemma wf_heap_alloc: "wf_heap h \<Longrightarrow> alloc c h = (b, h') \<Longrightarrow> grows h h' \<and> b = next_free h \<and>
    next_free h' = Suc b \<and> cells h' b = Some c"
  by (auto simp: alloc_def grows_def wf_heap_def less_Suc_eq split: if_splits)

lemma wf_heap_write: "wf_heap h \<Longrightarrow> b < next_free h \<Longrightarrow> wf_heap (write_cell b c h)"
  by (auto simp: write_cell_def wf_heap_def)

lemma grows_write:
  "grows h h' \<Longrightarrow> next_free h \<le> b \<Longrightarrow> b < next_free h' \<Longrightarrow> grows h (write_cell b c h')"
  by (auto simp: grows_def wf_heap_def write_cell_def)

lemma load_typed: "typed K \<Longrightarrow> load K h a = Some x \<longleftrightarrow> cells h a = Some (wrap K x)"
  by (cases "cells h a") (auto simp: load_def typed_def)

lemma load_cong: "cells h' a = cells h a \<Longrightarrow> load K h' a = load K h a"
  by (simp add: load_def)

context representation begin

lemma below: "wf_heap h \<Longrightarrow> val h x = Some v \<Longrightarrow> foot h x \<subseteq> {..<next_free h}"
  using foot_dom unfolding wf_heap_def dom_def by blast

text \<open>Old values survive growth, and values with a new footprint survive writes elsewhere.\<close>

lemma grown:
  assumes "wf_heap h" "grows h h'" "val h x = Some v"
  shows "val h' x = Some v" "foot h' x = foot h x"
proof -
  have "a \<in> foot h x \<Longrightarrow> cells h' a = cells h a" for a
    using below [OF assms(1,3)] assms(2) by (auto simp: grows_def)
  from local [OF this] show "val h' x = Some v" "foot h' x = foot h x" using assms(3) by simp_all
qed

lemma written:
  assumes "b \<notin> foot h x"
  shows "val (write_cell b c h) x = val h x" "foot (write_cell b c h) x = foot h x"
proof -
  have "cells (write_cell b c h) a = cells h a" if "a \<in> foot h x" for a
    using that assms by (auto simp: write_cell_def)
  from local [OF this] show "val (write_cell b c h) x = val h x" "foot (write_cell b c h) x = foot h x" by simp_all
qed

end

context deep_copy begin

text \<open>Copying later in the run: relative to the heap \<open>h0\<close> the run started from.\<close>

lemma later:
  assumes "wf_heap h0" "grows h0 h" "val h0 x = Some v"
  obtains y h' where "f x h = Some (y, h')" "grows h h'" "grows h0 h'" "val h' y = Some v"
    "foot h' y \<subseteq> {next_free h..<next_free h'}"
  using deep [OF grows_wf [OF assms(2)] grown(1) [OF assms]] assms(2) grows_trans by blast

end

section \<open>Pointers\<close>

lemma representation_pointer:
  fixes val :: "('a, 'b, 'v) valuation"
  assumes rep: "representation val foot"
  shows "representation (pointer_value K val) (pointer_foot K foot)"
proof
  fix h p v
  assume "pointer_value K val h p = Some v"
  then show "pointer_foot K foot h p \<subseteq> dom (cells h)"
    using representation.foot_dom [OF rep]
    by (fastforce simp: pointer_value_def pointer_foot_def load_def split: option.splits bind_splits)
next
  fix h h' :: "'a heap" and p
  assume same: "\<And>a. a \<in> pointer_foot K foot h p \<Longrightarrow> cells h' a = cells h a"
  show "pointer_value K val h' p = pointer_value K val h p \<and> pointer_foot K foot h' p = pointer_foot K foot h p"
  proof (cases p)
    case (Some a)
    then have load: "load K h' a = load K h a"
      using same [of a] by (intro load_cong) (simp add: pointer_foot_def)
    show ?thesis
    proof (cases "load K h a")
      case (Some x)
      have "val h' x = val h x \<and> foot h' x = foot h x"
        by (rule representation.local [OF rep]) (use same Some \<open>p = Some a\<close> in \<open>simp add: pointer_foot_def\<close>)
      then show ?thesis using load Some \<open>p = Some a\<close> by (simp add: pointer_value_def pointer_foot_def)
    qed (use load Some in \<open>simp add: pointer_value_def pointer_foot_def\<close>)
  qed (simp add: pointer_value_def pointer_foot_def)
qed

lemma deep_copy_pointer:
  assumes copy: "deep_copy val foot f" and K: "typed K"
  shows "deep_copy (pointer_value K val) (pointer_foot K foot) (copy_pointer K zero f)"
proof (intro deep_copy.intro representation_pointer deep_copy_axioms.intro)
  show rep: "representation val foot" using copy by (rule deep_copy.axioms)
  fix h p v
  assume wf: "wf_heap h" and v: "pointer_value K val h p = Some v"
  show "\<exists>q h'. copy_pointer K zero f p h = Some (q, h') \<and> grows h h' \<and> pointer_value K val h' q = Some v \<and>
      pointer_foot K foot h' q \<subseteq> {next_free h..<next_free h'}"
  proof (cases p)
    case None
    then show ?thesis using v wf by (simp add: copy_pointer_def pointer_value_def pointer_foot_def grows_refl)
  next
    case (Some a)
    then obtain x u where x: "load K h a = Some x" "val h x = Some u" "v = PointerV u"
      using v by (auto simp: pointer_value_def bind_eq_Some_conv)
    obtain b h1 where b: "alloc (wrap K zero) h = (b, h1)" by fastforce
    have h1: "grows h h1" "b = next_free h" "next_free h1 = Suc b" using wf_heap_alloc [OF wf b] by simp_all
    have "a < next_free h" using x(1) wf by (auto simp: load_def wf_heap_def bind_eq_Some_conv)
    then have "load K h1 a = Some x" using h1(1) x(1) load_cong [of h1 a h K] by (simp add: grows_def)
    obtain y h2 where y: "f x h1 = Some (y, h2)" "grows h1 h2" "grows h h2" "val h2 y = Some u"
        "foot h2 y \<subseteq> {next_free h1..<next_free h2}"
      using deep_copy.later [OF copy wf h1(1) x(2)] .
    let ?h3 = "write_cell b (wrap K y) h2"
    have "b \<notin> foot h2 y" using y(5) h1(3) by auto
    note kept = representation.written [OF rep this, of "wrap K y"]
    have in2: "b < next_free h2" using y(2) h1(3) by (simp add: grows_def)
    then have "grows h ?h3" using y(3) h1(2) by (simp add: grows_write)
    moreover have "load K ?h3 b = Some y" using K by (simp add: load_typed write_cell_def)
    moreover have "next_free ?h3 = next_free h2" by (simp add: write_cell_def)
    ultimately show ?thesis
      using Some b \<open>load K h1 a = Some x\<close> y kept h1 in2 x(3)
      by (auto simp: copy_pointer_def pointer_value_def pointer_foot_def)
  qed
qed

text \<open>
  What a caller sees: the copy of a pointer has the value, writes outside the old memory never
  show in the original, and writes to the old memory never show in the copy.
\<close>

lemma independent_copy:
  assumes copy: "deep_copy val foot f" and wf: "wf_heap h" and v: "val h p = Some v"
  shows "\<exists>q h'. f p h = Some (q, h') \<and> val h' q = Some v \<and>
    (\<forall>h2. (\<forall>a < next_free h. cells h2 a = cells h' a) \<longrightarrow> val h2 p = Some v) \<and>
    (\<forall>h2. (\<forall>a \<ge> next_free h. cells h2 a = cells h' a) \<longrightarrow> val h2 q = Some v)"
proof -
  note rep = deep_copy.axioms(1) [OF copy]
  obtain q h' where q: "f p h = Some (q, h')" "grows h h'" "val h' q = Some v"
      "foot h' q \<subseteq> {next_free h..<next_free h'}"
    using deep_copy.deep [OF copy wf v] by blast
  have "val h2 p = Some v" if "\<forall>a < next_free h. cells h2 a = cells h' a" for h2
  proof -
    have "cells h2 a = cells h a" if "a \<in> foot h p" for a
      using that \<open>\<forall>a < next_free h. _ a\<close> representation.below [OF rep wf v] q(2) by (auto simp: grows_def)
    from representation.local [OF rep this] show ?thesis using v by simp
  qed
  moreover have "val h2 q = Some v" if "\<forall>a \<ge> next_free h. cells h2 a = cells h' a" for h2
  proof -
    have "cells h2 a = cells h' a" if "a \<in> foot h' q" for a
      using that \<open>\<forall>a \<ge> next_free h. _ a\<close> q(4) by auto
    from representation.local [OF rep this] show ?thesis using q(3) by simp
  qed
  ultimately show ?thesis using q(1,3) by blast
qed

section \<open>Slices\<close>

lemma those_Some: "those xs = Some ys \<longleftrightarrow> xs = map Some ys"
  by (induction xs arbitrary: ys) (auto split: option.splits)

lemma those_map_Some [simp]: "those (map Some xs) = Some xs"
  by (simp add: those_Some)

lemma elements_cong: "cells h' (sl_array s) = cells h (sl_array s) \<Longrightarrow> elements K h' s = elements K h s"
  unfolding elements_def by (simp only: load_cong [of h' "sl_array s" h K])

lemma elements_length: "elements K h s = Some xs \<Longrightarrow> length xs = sl_len s"
  by (auto simp: elements_def split: option.splits if_splits)

lemma representation_slice:
  fixes val :: "('a, 'b, 'v) valuation"
  assumes rep: "representation val foot"
  shows "representation (slice_value K val) (slice_foot K foot)"
proof
  fix h s v
  assume v: "slice_value K val h s = Some v"
  show "slice_foot K foot h s \<subseteq> dom (cells h)"
  proof (cases s)
    case (Some sl)
    then obtain xs vs where xs: "elements K h sl = Some xs" "map (val h) xs = map Some vs"
      using v by (auto simp: slice_value_def bind_eq_Some_conv those_Some)
    then have "\<exists>u. val h x = Some u" if "x \<in> set xs" for x
      using that by (metis image_eqI image_iff list.set_map)
    then have "\<Union>(foot h ` set xs) \<subseteq> dom (cells h)" using representation.foot_dom [OF rep] by blast
    moreover have "sl_array sl \<in> dom (cells h)"
      using xs(1) by (auto simp: elements_def load_def bind_eq_Some_conv split: option.splits)
    ultimately show ?thesis using Some xs(1) by (simp add: slice_foot_def)
  qed (simp add: slice_foot_def)
next
  fix h h' :: "'a heap" and s
  assume same: "\<And>a. a \<in> slice_foot K foot h s \<Longrightarrow> cells h' a = cells h a"
  show "slice_value K val h' s = slice_value K val h s \<and> slice_foot K foot h' s = slice_foot K foot h s"
  proof (cases s)
    case (Some sl)
    then have elems: "elements K h' sl = elements K h sl"
      using same by (intro elements_cong) (simp add: slice_foot_def)
    show ?thesis
    proof (cases "elements K h sl")
      case (Some xs)
      have "val h' x = val h x \<and> foot h' x = foot h x" if "x \<in> set xs" for x
        by (rule representation.local [OF rep]) (use same Some \<open>s = Some sl\<close> that in \<open>auto simp: slice_foot_def\<close>)
      then have "map (val h') xs = map (val h) xs" "foot h' ` set xs = foot h ` set xs" by auto
      then show ?thesis
        using elems Some \<open>s = Some sl\<close> by (simp add: slice_value_def slice_foot_def cong: map_cong)
    qed (use elems Some in \<open>simp add: slice_value_def slice_foot_def\<close>)
  qed (simp add: slice_value_def slice_foot_def)
qed

text \<open>
  The loop. The array at \<open>b\<close> holds the finished copies and zero values; a finished copy does not
  reach the array, so writing the next element does not disturb it.
\<close>

definition array_of :: "('c, 'a list) kind \<Rightarrow> ('c, 'a, 'v) valuation \<Rightarrow> ('c, 'a) footprint \<Rightarrow> 'c heap \<Rightarrow>
    addr \<Rightarrow> 'a list \<Rightarrow> 'v go_value list \<Rightarrow> 'c heap \<Rightarrow> bool" where
  "array_of K val foot h0 b ys vs h \<longleftrightarrow> grows h0 h \<and> next_free h0 \<le> b \<and> b < next_free h \<and>
     (\<exists>zs. load K h b = Some (ys @ zs)) \<and> map (val h) ys = map Some vs \<and>
     (\<forall>y \<in> set ys. foot h y \<subseteq> {next_free h0..<next_free h} - {b})"

lemma array_of_step:
  assumes copy: "deep_copy val foot f" and K: "typed K" and wf: "wf_heap h0"
    and arr: "array_of K val foot h0 b ys vs h" and load: "load K h b = Some (ys @ z # zs)"
    and x: "val h0 x = Some v"
  obtains y h1 where "f x h = Some (y, h1)" "load K h1 b = Some (ys @ z # zs)"
    "array_of K val foot h0 b (ys @ [y]) (vs @ [v]) (write_cell b (wrap K (ys @ y # zs)) h1)"
    "load K (write_cell b (wrap K (ys @ y # zs)) h1) b = Some (ys @ y # zs)"
proof -
  note rep = deep_copy.axioms(1) [OF copy]
  have h: "grows h0 h" "next_free h0 \<le> b" "b < next_free h" "map (val h) ys = map Some vs"
    "\<And>y. y \<in> set ys \<Longrightarrow> foot h y \<subseteq> {next_free h0..<next_free h} - {b}"
    using arr by (auto simp: array_of_def)
  obtain y h1 where y: "f x h = Some (y, h1)" "grows h h1" "grows h0 h1" "val h1 y = Some v"
      "foot h1 y \<subseteq> {next_free h..<next_free h1}"
    using deep_copy.later [OF copy wf h(1) x] .
  let ?h2 = "write_cell b (wrap K (ys @ y # zs)) h1"
  have b1: "b < next_free h1" and le: "next_free h \<le> next_free h1" "next_free h0 \<le> next_free h"
    using h(1,3) y(2) by (simp_all add: grows_def)
  have old: "val ?h2 u = val h u \<and> foot ?h2 u \<subseteq> {next_free h0..<next_free ?h2} - {b}" if "u \<in> set ys" for u
  proof -
    have "\<exists>w. val h u = Some w" using that h(4) by (metis image_eqI image_iff list.set_map)
    then obtain w where "val h u = Some w" by blast
    note g = representation.grown [OF rep grows_wf [OF h(1)] y(2) this]
    then have "b \<notin> foot h1 u" using h(5) [OF that] by auto
    from representation.written [OF rep this] show ?thesis
      using g h(5) [OF that] le \<open>val h u = Some w\<close> by (auto simp: write_cell_def)
  qed
  have "b \<notin> foot h1 y" using y(5) h(3) by auto
  note new = representation.written [OF rep this, of "wrap K (ys @ y # zs)"]
  have load2: "load K ?h2 b = Some (ys @ y # zs)" using K by (simp add: load_typed write_cell_def)
  have "array_of K val foot h0 b (ys @ [y]) (vs @ [v]) ?h2"
    unfolding array_of_def
  proof (intro conjI ballI)
    show "grows h0 ?h2" by (rule grows_write [OF y(3) h(2) b1])
    show "\<exists>zs. load K ?h2 b = Some ((ys @ [y]) @ zs)" using load2 by simp
    show "map (val ?h2) (ys @ [y]) = map Some (vs @ [v])" using old h(4) new(1) y(4) by (simp cong: map_cong)
    show "foot ?h2 u \<subseteq> {next_free h0..<next_free ?h2} - {b}" if "u \<in> set (ys @ [y])" for u
      using that old new(2) y(5) h(3) le by (auto simp: write_cell_def)
  qed (use h(2) b1 in \<open>simp_all add: write_cell_def\<close>)
  moreover have "load K h1 b = Some (ys @ z # zs)"
    using load h(3) y(2) load_cong [of h1 b h K] by (simp add: grows_def)
  ultimately show ?thesis using that y(1) load2 by blast
qed

lemma copy_elements_spec:
  assumes copy: "deep_copy val foot f" and K: "typed K" and wf: "wf_heap h0"
    and "array_of K val foot h0 b ys vs h" and "load K h b = Some (ys @ zs)" and "length zs = length xs"
    and "map (val h0) xs = map Some us"
  shows "\<exists>h'. copy_elements K f b (length ys) xs h = Some h' \<and>
     (\<exists>ys'. load K h' b = Some ys' \<and> array_of K val foot h0 b ys' (vs @ us) h')"
  using assms(4-7)
proof (induction xs arbitrary: ys vs zs us h)
  case Nil
  then show ?case by auto
next
  case (Cons x xs)
  obtain z zs' where zs: "zs = z # zs'" "length zs' = length xs" using Cons.prems(3) by (cases zs) auto
  obtain u us' where us: "us = u # us'" "val h0 x = Some u" "map (val h0) xs = map Some us'"
    using Cons.prems(4) by (cases us) auto
  have load: "load K h b = Some (ys @ z # zs')" using Cons.prems(2) zs by simp
  obtain y h1 where y: "f x h = Some (y, h1)" "load K h1 b = Some (ys @ z # zs')"
      "array_of K val foot h0 b (ys @ [y]) (vs @ [u]) (write_cell b (wrap K (ys @ y # zs')) h1)"
      "load K (write_cell b (wrap K (ys @ y # zs')) h1) b = Some (ys @ y # zs')"
    using array_of_step [OF copy K wf Cons.prems(1) load us(2)] .
  have "load K (write_cell b (wrap K (ys @ y # zs')) h1) b = Some ((ys @ [y]) @ zs')" using y(4) by simp
  from Cons.IH [OF y(3) this zs(2) us(3)] show ?case using y(1,2) us(1) by simp
qed

lemma deep_copy_slice:
  fixes val :: "('c, 'a, 'v) valuation"
  assumes copy: "deep_copy val foot f" and K: "typed K"
  shows "deep_copy (slice_value K val) (slice_foot K foot) (copy_slice K zero f)"
proof (intro deep_copy.intro representation_slice deep_copy_axioms.intro)
  show rep: "representation val foot" using copy by (rule deep_copy.axioms)
  fix h s v
  assume wf: "wf_heap h" and v: "slice_value K val h s = Some v"
  show "\<exists>t h'. copy_slice K zero f s h = Some (t, h') \<and> grows h h' \<and> slice_value K val h' t = Some v \<and>
      slice_foot K foot h' t \<subseteq> {next_free h..<next_free h'}"
  proof (cases s)
    case None
    then show ?thesis using v wf by (simp add: copy_slice_def slice_value_def slice_foot_def grows_refl)
  next
    case (Some sl)
    then obtain xs vs where xs: "elements K h sl = Some xs" "map (val h) xs = map Some vs" "v = SliceV vs"
      using v by (auto simp: slice_value_def bind_eq_Some_conv those_Some)
    obtain b h1 where b: "alloc (wrap K (replicate (sl_len sl) zero)) h = (b, h1)" by fastforce
    have h1: "grows h h1" "b = next_free h" "next_free h1 = Suc b"
        "load K h1 b = Some ([] @ replicate (sl_len sl) zero)"
      using wf_heap_alloc [OF wf b] load_typed [OF K] by auto
    have "sl_array sl < next_free h"
      using xs(1) wf by (auto simp: elements_def load_def wf_heap_def bind_eq_Some_conv split: option.splits)
    then have elems: "elements K h1 sl = Some xs"
      using h1(1) xs(1) elements_cong [of h1 sl h K] by (simp add: grows_def)
    have "array_of K val foot h b [] [] h1" using h1 by (simp add: array_of_def)
    from copy_elements_spec [OF copy K wf this h1(4) _ xs(2)]
    obtain h2 ys where h2: "copy_elements K f b 0 xs h1 = Some h2" "load K h2 b = Some ys"
        "array_of K val foot h b ys vs h2"
      using elements_length [OF xs(1)] by auto
    then have ys: "map (val h2) ys = map Some vs" "grows h h2" "b < next_free h2"
        "\<And>y. y \<in> set ys \<Longrightarrow> foot h2 y \<subseteq> {next_free h..<next_free h2}"
      by (auto simp: array_of_def)
    let ?t = "\<lparr>sl_array = b, sl_start = 0, sl_len = sl_len sl\<rparr>"
    have "length ys = sl_len sl"
      using ys(1) xs(2) elements_length [OF xs(1)] by (metis length_map)
    then have "elements K h2 ?t = Some ys" using h2(2) by (simp add: elements_def)
    then have "slice_value K val h2 (Some ?t) = Some v"
      "slice_foot K foot h2 (Some ?t) \<subseteq> {next_free h..<next_free h2}"
      using ys h1(2) xs(3) by (auto simp: slice_value_def slice_foot_def those_Some)
    moreover have "copy_slice K zero f s h = Some (Some ?t, h2)"
      using Some b elems h2(1) by (simp add: copy_slice_def)
    ultimately show ?thesis using ys(2) by blast
  qed
qed

section \<open>Maps\<close>

lemma wf_map_maps_copy: "wf_map dst \<Longrightarrow> wf_map (maps_copy dst src)"
  by (induction src arbitrary: dst) (auto simp: maps_copy_def wf_map_update)

lemma copy_entries_spec:
  assumes K: "typed K" and "grows h0 h" "next_free h0 \<le> b" "b < next_free h" "load K h b = Some m"
  shows "\<exists>h'. copy_entries K b kvs h = Some h' \<and> grows h0 h' \<and> b < next_free h' \<and>
     load K h' b = Some (maps_copy m kvs)"
  using assms(2-5)
proof (induction kvs arbitrary: m h)
  case (Cons kv kvs)
  let ?h = "write_cell b (wrap K (AList.update (fst kv) (snd kv) m)) h"
  have "grows h0 ?h" using Cons.prems(1-3) by (rule grows_write)
  moreover have "b < next_free ?h" "load K ?h b = Some (AList.update (fst kv) (snd kv) m)"
    using Cons.prems(3) K by (simp_all add: write_cell_def load_typed)
  ultimately show ?case
    using Cons.IH [OF _ Cons.prems(2)] Cons.prems(4) by (cases kv) (simp add: maps_copy_def)
qed (simp add: maps_copy_def)

lemma representation_map: "representation (map_value K) map_foot"
proof
  show "map_foot h p \<subseteq> dom (cells h)" if "map_value K h p = Some v" for h p v
    using that by (auto simp: map_value_def map_foot_def load_def bind_eq_Some_conv split: option.splits)
  show "map_value K h' p = map_value K h p \<and> map_foot h' p = map_foot h p"
    if "\<And>a. a \<in> map_foot h p \<Longrightarrow> cells h' a = cells h a" for h h' p
    using that by (auto simp: map_value_def map_foot_def load_def split: option.splits)
qed

lemma deep_copy_map:
  assumes K: "typed K"
  shows "deep_copy (map_value K) map_foot (copy_map K)"
proof (intro deep_copy.intro representation_map deep_copy_axioms.intro)
  fix h p v
  assume wf: "wf_heap h" and v: "map_value K h p = Some v"
  show "\<exists>q h'. copy_map K p h = Some (q, h') \<and> grows h h' \<and> map_value K h' q = Some v \<and>
      map_foot h' q \<subseteq> {next_free h..<next_free h'}"
  proof (cases p)
    case None
    then show ?thesis using v wf by (simp add: copy_map_def map_value_def map_foot_def grows_refl)
  next
    case (Some a)
    then obtain m where m: "load K h a = Some m" "wf_map m"
        "v = MapV (map (\<lambda>k. (k, idx m k)) (sorted_list_of_set (fst ` set m)))"
      using v by (auto simp: map_value_def bind_eq_Some_conv split: if_splits)
    obtain b h1 where b: "alloc (wrap K []) h = (b, h1)" by fastforce
    have h1: "grows h h1" "b = next_free h" "b < next_free h1" "load K h1 b = Some []"
      using wf_heap_alloc [OF wf b] load_typed [OF K] by auto
    have "a < next_free h" using m(1) wf by (auto simp: load_def wf_heap_def bind_eq_Some_conv)
    then have a1: "load K h1 a = Some m" using h1(1) m(1) load_cong [of h1 a h K] by (simp add: grows_def)
    obtain h2 where h2: "copy_entries K b m h1 = Some h2" "grows h h2" "b < next_free h2"
        "load K h2 b = Some (maps_copy [] m)"
      using copy_entries_spec [OF K h1(1) _ h1(3,4)] h1(2) by blast
    have same: "map_of (maps_copy [] m) = map_of m" using m(2) by (simp add: map_of_maps_copy)
    then have "fst ` set (maps_copy [] m) = fst ` set m" by (metis dom_map_of_conv_image_fst)
    moreover have "idx (maps_copy [] m) = idx m" using same by (simp add: idx_def fun_eq_iff)
    moreover have "wf_map (maps_copy [] m)" by (rule wf_map_maps_copy) (simp add: wf_map_def)
    ultimately have "map_value K h2 (Some b) = Some v" using h2(4) m(3) by (simp add: map_value_def)
    then show ?thesis
      using Some b a1 h2 h1(2) by (auto simp: copy_map_def map_foot_def)
  qed
qed

section \<open>Structures\<close>

definition field :: "('s \<Rightarrow> 'a) \<Rightarrow> ('h \<Rightarrow> 'a \<Rightarrow> 'r) \<Rightarrow> 'h \<Rightarrow> 's \<Rightarrow> 'r" where
  "field get val h s = val h (get s)"

definition struct_value :: "('c, 's, 'v) valuation list \<Rightarrow> ('c, 's, 'v) valuation" where
  "struct_value fs h s = map_option StructV (those (map (\<lambda>f. f h s) fs))"

definition struct_foot :: "('c, 's) footprint list \<Rightarrow> ('c, 's) footprint" where
  "struct_foot gs h s = \<Union>(set (map (\<lambda>g. g h s) gs))"

definition plain :: "('a \<Rightarrow> 'v go_value) \<Rightarrow> ('c, 'a, 'v) valuation" where
  "plain leaf h x = Some (leaf x)"

definition nowhere :: "('c, 'a) footprint" where
  "nowhere h x = {}"

lemma deep_copy_plain: "deep_copy (plain leaf) nowhere assign"
  by unfold_locales (auto simp: plain_def nowhere_def assign_def grows_refl)

lemma representation_field: "representation val foot \<Longrightarrow> representation (field get val) (field get foot)"
  unfolding representation_def field_def by blast

lemma representation_struct:
  fixes fs :: "('c, 's, 'v) valuation list"
  assumes "list_all2 representation fs gs"
  shows "representation (struct_value fs) (struct_foot gs)"
proof
  have rep: "\<exists>f \<in> set fs. representation f g" if "g \<in> set gs" for g
    using assms that by (metis in_set_conv_nth list_all2_conv_all_nth)
  have rep': "\<exists>g \<in> set gs. representation f g" if "f \<in> set fs" for f
    using assms that by (metis in_set_conv_nth list_all2_conv_all_nth)
  show "struct_foot gs h s \<subseteq> dom (cells h)" if v: "struct_value fs h s = Some v" for h s v
  proof -
    have "\<exists>u. f h s = Some u" if "f \<in> set fs" for f
      using v that by (auto simp: struct_value_def those_Some) (metis image_eqI image_iff list.set_map)
    then show ?thesis
      using rep representation.foot_dom unfolding struct_foot_def by fastforce
  qed
  fix h h' :: "'c heap" and s
  assume same: "\<And>a. a \<in> struct_foot gs h s \<Longrightarrow> cells h' a = cells h a"
  have field: "f h' s = f h s \<and> g h' s = g h s" if "representation f g" "g \<in> set gs"
    for f :: "('c, 's, 'v) valuation" and g
    by (rule representation.local [OF that(1)]) (use same that(2) in \<open>auto simp: struct_foot_def\<close>)
  have "map (\<lambda>f. f h' s) fs = map (\<lambda>f. f h s) fs" using field rep' by (intro map_cong) blast+
  moreover have "map (\<lambda>g. g h' s) gs = map (\<lambda>g. g h s) gs" using field rep by (intro map_cong) blast+
  ultimately show "struct_value fs h' s = struct_value fs h s \<and> struct_foot gs h' s = struct_foot gs h s"
    by (simp only: struct_value_def struct_foot_def)
qed

text \<open>
  A copy function field by field. \<open>run_from h0 P h\<close>: the run started in \<open>h0\<close>, has come to \<open>h\<close>, and
  \<open>P\<close> says what is finished, in terms that more allocation does not disturb.
\<close>

definition run_from :: "'c heap \<Rightarrow> ('c heap \<Rightarrow> bool) \<Rightarrow> 'c heap \<Rightarrow> bool" where
  "run_from h0 P h \<longleftrightarrow> wf_heap h0 \<and> P h \<and> (\<forall>h. P h \<longrightarrow> grows h0 h) \<and> (\<forall>h h'. P h \<longrightarrow> grows h h' \<longrightarrow> P h')"

definition copied :: "('c, 'a, 'v) valuation \<Rightarrow> ('c, 'a) footprint \<Rightarrow> 'c heap \<Rightarrow> 'v go_value \<Rightarrow> 'a \<Rightarrow> 'c heap \<Rightarrow> bool" where
  "copied val foot h0 v y h \<longleftrightarrow> grows h0 h \<and> val h y = Some v \<and> foot h y \<subseteq> {next_free h0..<next_free h}"

lemma run_from_start: "wf_heap h \<Longrightarrow> run_from h (grows h) h"
  using grows_trans by (auto simp: run_from_def grows_refl)

lemma run_from_at: "run_from h0 P h \<Longrightarrow> P h"
  by (simp add: run_from_def)

lemma copied_grows:
  assumes "deep_copy val foot f" "copied val foot h0 v y h" "grows h h'"
  shows "copied val foot h0 v y h'"
  using assms representation.grown [OF deep_copy.axioms(1) [OF assms(1)] grows_wf assms(3), of h0]
    grows_trans [of h0 h h']
  by (auto simp: copied_def grows_def)

lemma copy_then:
  assumes copy: "deep_copy val foot f" and run: "run_from h0 P h" and v: "val h0 x = Some v"
    and rest: "\<And>y h'. run_from h0 (\<lambda>h. P h \<and> copied val foot h0 v y h) h' \<Longrightarrow>
      \<exists>z h''. k y h' = Some (z, h'') \<and> Q z h''"
  shows "\<exists>z h''. Option.bind (f x h) (\<lambda>(y, h). k y h) = Some (z, h'') \<and> Q z h''"
proof -
  have h: "wf_heap h0" "grows h0 h" "P h" using run by (auto simp: run_from_def)
  obtain y h' where y: "f x h = Some (y, h')" "grows h h'" "grows h0 h'" "val h' y = Some v"
      "foot h' y \<subseteq> {next_free h..<next_free h'}"
    using deep_copy.later [OF copy h(1,2) v] .
  have "copied val foot h0 v y h'" using y h(2) by (auto simp: copied_def grows_def)
  moreover have "P h'" "\<And>h. P h \<Longrightarrow> grows h0 h" "\<And>h h'. P h \<Longrightarrow> grows h h' \<Longrightarrow> P h'"
    using run y(2) unfolding run_from_def by blast+
  ultimately have "run_from h0 (\<lambda>h. P h \<and> copied val foot h0 v y h) h'"
    unfolding run_from_def using h(1) copied_grows [OF copy] by blast
  from rest [OF this] show ?thesis using y(1) by simp
qed

lemma deep_copy_struct:
  assumes "list_all2 representation fs gs"
    and "\<And>h0 s vs. run_from h0 (grows h0) h0 \<Longrightarrow> map (\<lambda>f. f h0 s) fs = map Some vs \<Longrightarrow>
      \<exists>out h. f s h0 = Some (out, h) \<and> grows h0 h \<and> map (\<lambda>f. f h out) fs = map Some vs \<and>
        list_all (\<lambda>g. g h out \<subseteq> {next_free h0..<next_free h}) gs"
  shows "deep_copy (struct_value fs) (struct_foot gs) f"
proof (intro deep_copy.intro representation_struct deep_copy_axioms.intro assms(1))
  fix h s v
  assume wf: "wf_heap h" and "struct_value fs h s = Some v"
  then obtain vs where vs: "map (\<lambda>f. f h s) fs = map Some vs" "v = StructV vs"
    by (auto simp: struct_value_def those_Some)
  from assms(2) [OF run_from_start [OF wf] vs(1)] obtain out h' where
    out: "f s h = Some (out, h')" "grows h h'" "map (\<lambda>f. f h' out) fs = map Some vs"
      "list_all (\<lambda>g. g h' out \<subseteq> {next_free h..<next_free h'}) gs"
    by blast
  then have "struct_value fs h' out = Some v" using vs(2) by (simp add: struct_value_def)
  moreover have "struct_foot gs h' out \<subseteq> {next_free h..<next_free h'}"
    using out(4) by (auto simp: struct_foot_def list_all_iff)
  ultimately show "\<exists>y h'. f s h = Some (y, h') \<and> grows h h' \<and> struct_value fs h' y = Some v \<and>
      struct_foot gs h' y \<subseteq> {next_free h..<next_free h'}"
    using out(1,2) by blast
qed

end
