(* ===== verification/Deep_Copy.thy ===== *)
theory Deep_Copy
  imports Go_Memory Kube_Types
begin

text \<open>
  \<open>api/v1alpha1/zz_generated.deepcopy.go\<close>: the copy functions of the custom resource, on the
  structures as they lie in memory, with pointers, slices and maps as references. The caches of
  controller-runtime hand out such copies, and the operator changes them freely; the other
  theories work on values and rely on it. \<open>in\<close> is the structure read through the receiver,
  the result is the structure written through \<open>out\<close>.
\<close>

section \<open>Structures in memory\<close>

text \<open>
  Structures of the Kubernetes libraries (\<open>ObjectMeta\<close>, \<open>ListMeta\<close>, \<open>Condition\<close>,
  \<open>ResourceRequirements\<close>, \<open>Probe\<close>, \<open>Quantity\<close>) are values of a type \<open>'x\<close>, which may itself
  refer to memory. \<open>TypeMeta\<close> is its two strings.
\<close>

record 'x storage_mem =
  stSize :: 'x
  stStorageClassName :: "addr option"
  stAccessModes :: "slice option"
  stFSGroup :: "addr option"

record 'x service_mem =
  svName :: string
  svImage :: string
  svRegistry :: string
  svPort :: int32
  svReplicas :: "addr option"
  svEnv :: "addr option"
  svSecretRefs :: "slice option"
  svImagePullSecrets :: "slice option"
  svMountPath :: string
  svResources :: 'x
  svReadinessProbe :: "addr option"

record spec_mem =
  spNamespaceName :: string
  spOwner :: string
  spStorage :: "addr option"
  spRegistry :: string
  spImagePullSecrets :: "slice option"
  spServices :: "slice option"
  spConfig :: "addr option"

record status_mem =
  suPhase :: string
  suNamespace :: string
  suReadyServices :: int32
  suTotalServices :: int32
  suObservedGeneration :: int64
  suConditions :: "slice option"

record 'x env_mem =
  enTypeMeta :: "string \<times> string"
  enObjectMeta :: 'x
  enSpec :: spec_mem
  enStatus :: status_mem

record 'x env_list_mem =
  liTypeMeta :: "string \<times> string"
  liListMeta :: 'x
  liItems :: "slice option"

datatype 'x cell =
    Int32C int32 | Int64C int64 | StringC string | StringsC "string list"
  | MapC "(string, string) gomap" | StorageC "'x storage_mem" | ServiceC "'x service_mem"
  | ServicesC "'x service_mem list" | SpecC spec_mem | StatusC status_mem | EnvC "'x env_mem"
  | EnvsC "'x env_mem list" | EnvListC "'x env_list_mem" | LibraryC 'x | LibrariesC "'x list"

definition Int32K :: "('x cell, int32) kind" where
  "Int32K = \<lparr>wrap = Int32C, unwrap = (\<lambda>c. case c of Int32C x \<Rightarrow> Some x | _ \<Rightarrow> None)\<rparr>"
definition Int64K :: "('x cell, int64) kind" where
  "Int64K = \<lparr>wrap = Int64C, unwrap = (\<lambda>c. case c of Int64C x \<Rightarrow> Some x | _ \<Rightarrow> None)\<rparr>"
definition StringK :: "('x cell, string) kind" where
  "StringK = \<lparr>wrap = StringC, unwrap = (\<lambda>c. case c of StringC x \<Rightarrow> Some x | _ \<Rightarrow> None)\<rparr>"
definition StringsK :: "('x cell, string list) kind" where
  "StringsK = \<lparr>wrap = StringsC, unwrap = (\<lambda>c. case c of StringsC x \<Rightarrow> Some x | _ \<Rightarrow> None)\<rparr>"
definition MapK :: "('x cell, (string, string) gomap) kind" where
  "MapK = \<lparr>wrap = MapC, unwrap = (\<lambda>c. case c of MapC x \<Rightarrow> Some x | _ \<Rightarrow> None)\<rparr>"
definition StorageK :: "('x cell, 'x storage_mem) kind" where
  "StorageK = \<lparr>wrap = StorageC, unwrap = (\<lambda>c. case c of StorageC x \<Rightarrow> Some x | _ \<Rightarrow> None)\<rparr>"
definition ServiceK :: "('x cell, 'x service_mem) kind" where
  "ServiceK = \<lparr>wrap = ServiceC, unwrap = (\<lambda>c. case c of ServiceC x \<Rightarrow> Some x | _ \<Rightarrow> None)\<rparr>"
definition ServicesK :: "('x cell, 'x service_mem list) kind" where
  "ServicesK = \<lparr>wrap = ServicesC, unwrap = (\<lambda>c. case c of ServicesC x \<Rightarrow> Some x | _ \<Rightarrow> None)\<rparr>"
definition SpecK :: "('x cell, spec_mem) kind" where
  "SpecK = \<lparr>wrap = SpecC, unwrap = (\<lambda>c. case c of SpecC x \<Rightarrow> Some x | _ \<Rightarrow> None)\<rparr>"
definition StatusK :: "('x cell, status_mem) kind" where
  "StatusK = \<lparr>wrap = StatusC, unwrap = (\<lambda>c. case c of StatusC x \<Rightarrow> Some x | _ \<Rightarrow> None)\<rparr>"
definition EnvK :: "('x cell, 'x env_mem) kind" where
  "EnvK = \<lparr>wrap = EnvC, unwrap = (\<lambda>c. case c of EnvC x \<Rightarrow> Some x | _ \<Rightarrow> None)\<rparr>"
definition EnvsK :: "('x cell, 'x env_mem list) kind" where
  "EnvsK = \<lparr>wrap = EnvsC, unwrap = (\<lambda>c. case c of EnvsC x \<Rightarrow> Some x | _ \<Rightarrow> None)\<rparr>"
definition EnvListK :: "('x cell, 'x env_list_mem) kind" where
  "EnvListK = \<lparr>wrap = EnvListC, unwrap = (\<lambda>c. case c of EnvListC x \<Rightarrow> Some x | _ \<Rightarrow> None)\<rparr>"
definition LibraryK :: "('x cell, 'x) kind" where
  "LibraryK = \<lparr>wrap = LibraryC, unwrap = (\<lambda>c. case c of LibraryC x \<Rightarrow> Some x | _ \<Rightarrow> None)\<rparr>"
definition LibrariesK :: "('x cell, 'x list) kind" where
  "LibrariesK = \<lparr>wrap = LibrariesC, unwrap = (\<lambda>c. case c of LibrariesC x \<Rightarrow> Some x | _ \<Rightarrow> None)\<rparr>"

lemmas kind_defs = Int32K_def Int64K_def StringK_def StringsK_def MapK_def StorageK_def ServiceK_def
  ServicesK_def SpecK_def StatusK_def EnvK_def EnvsK_def EnvListK_def LibraryK_def LibrariesK_def

lemma typed_kinds [simp]:
  "typed Int32K" "typed Int64K" "typed StringK" "typed StringsK" "typed MapK" "typed StorageK"
  "typed ServiceK" "typed ServicesK" "typed SpecK" "typed StatusK" "typed EnvK" "typed EnvsK"
  "typed EnvListK" "typed LibraryK" "typed LibrariesK"
  by (auto simp: typed_def kind_defs split: cell.splits)

section \<open>The copy functions\<close>

text \<open>The libraries' own \<open>DeepCopyInto\<close> and their zero value are parameters.\<close>

record 'x library =
  zero :: 'x
  DeepCopyInto :: "('x cell, 'x) copier"

definition zero_storage :: "'x library \<Rightarrow> 'x storage_mem" where
  "zero_storage L = \<lparr>stSize = zero L, stStorageClassName = None, stAccessModes = None, stFSGroup = None\<rparr>"

definition zero_service :: "'x library \<Rightarrow> 'x service_mem" where
  "zero_service L = \<lparr>svName = [], svImage = [], svRegistry = [], svPort = 0, svReplicas = None, svEnv = None,
     svSecretRefs = None, svImagePullSecrets = None, svMountPath = [], svResources = zero L, svReadinessProbe = None\<rparr>"

definition zero_spec :: spec_mem where
  "zero_spec = \<lparr>spNamespaceName = [], spOwner = [], spStorage = None, spRegistry = [],
     spImagePullSecrets = None, spServices = None, spConfig = None\<rparr>"

definition zero_status :: status_mem where
  "zero_status = \<lparr>suPhase = [], suNamespace = [], suReadyServices = 0, suTotalServices = 0,
     suObservedGeneration = 0, suConditions = None\<rparr>"

definition zero_env :: "'x library \<Rightarrow> 'x env_mem" where
  "zero_env L = \<lparr>enTypeMeta = ([], []), enObjectMeta = zero L, enSpec = zero_spec, enStatus = zero_status\<rparr>"

definition zero_env_list :: "'x library \<Rightarrow> 'x env_list_mem" where
  "zero_env_list L = \<lparr>liTypeMeta = ([], []), liListMeta = zero L, liItems = None\<rparr>"

definition StorageSpec_DeepCopyInto :: "'x library \<Rightarrow> ('x cell, 'x storage_mem) copier" where
  "StorageSpec_DeepCopyInto L inp h = do {
     let out = inp;
     (x, h) \<leftarrow> DeepCopyInto L (stSize inp) h;
     let out = out\<lparr>stSize := x\<rparr>;
     (p, h) \<leftarrow> copy_pointer StringK [] assign (stStorageClassName inp) h;
     let out = out\<lparr>stStorageClassName := p\<rparr>;
     (s, h) \<leftarrow> copy_slice StringsK [] assign (stAccessModes inp) h;
     let out = out\<lparr>stAccessModes := s\<rparr>;
     (p, h) \<leftarrow> copy_pointer Int64K 0 assign (stFSGroup inp) h;
     let out = out\<lparr>stFSGroup := p\<rparr>;
     Some (out, h)
   }"

definition ServiceSpec_DeepCopyInto :: "'x library \<Rightarrow> ('x cell, 'x service_mem) copier" where
  "ServiceSpec_DeepCopyInto L inp h = do {
     let out = inp;
     (p, h) \<leftarrow> copy_pointer Int32K 0 assign (svReplicas inp) h;
     let out = out\<lparr>svReplicas := p\<rparr>;
     (p, h) \<leftarrow> copy_map MapK (svEnv inp) h;
     let out = out\<lparr>svEnv := p\<rparr>;
     (s, h) \<leftarrow> copy_slice StringsK [] assign (svSecretRefs inp) h;
     let out = out\<lparr>svSecretRefs := s\<rparr>;
     (s, h) \<leftarrow> copy_slice StringsK [] assign (svImagePullSecrets inp) h;
     let out = out\<lparr>svImagePullSecrets := s\<rparr>;
     (x, h) \<leftarrow> DeepCopyInto L (svResources inp) h;
     let out = out\<lparr>svResources := x\<rparr>;
     (p, h) \<leftarrow> copy_pointer LibraryK (zero L) (DeepCopyInto L) (svReadinessProbe inp) h;
     let out = out\<lparr>svReadinessProbe := p\<rparr>;
     Some (out, h)
   }"

definition DevEnvironmentSpec_DeepCopyInto :: "'x library \<Rightarrow> ('x cell, spec_mem) copier" where
  "DevEnvironmentSpec_DeepCopyInto L inp h = do {
     let out = inp;
     (p, h) \<leftarrow> copy_pointer StorageK (zero_storage L) (StorageSpec_DeepCopyInto L) (spStorage inp) h;
     let out = out\<lparr>spStorage := p\<rparr>;
     (s, h) \<leftarrow> copy_slice StringsK [] assign (spImagePullSecrets inp) h;
     let out = out\<lparr>spImagePullSecrets := s\<rparr>;
     (s, h) \<leftarrow> copy_slice ServicesK (zero_service L) (ServiceSpec_DeepCopyInto L) (spServices inp) h;
     let out = out\<lparr>spServices := s\<rparr>;
     (p, h) \<leftarrow> copy_map MapK (spConfig inp) h;
     let out = out\<lparr>spConfig := p\<rparr>;
     Some (out, h)
   }"

definition DevEnvironmentStatus_DeepCopyInto :: "'x library \<Rightarrow> ('x cell, status_mem) copier" where
  "DevEnvironmentStatus_DeepCopyInto L inp h = do {
     let out = inp;
     (s, h) \<leftarrow> copy_slice LibrariesK (zero L) (DeepCopyInto L) (suConditions inp) h;
     let out = out\<lparr>suConditions := s\<rparr>;
     Some (out, h)
   }"

definition DevEnvironment_DeepCopyInto :: "'x library \<Rightarrow> ('x cell, 'x env_mem) copier" where
  "DevEnvironment_DeepCopyInto L inp h = do {
     let out = inp;
     let out = out\<lparr>enTypeMeta := enTypeMeta inp\<rparr>;
     (x, h) \<leftarrow> DeepCopyInto L (enObjectMeta inp) h;
     let out = out\<lparr>enObjectMeta := x\<rparr>;
     (x, h) \<leftarrow> DevEnvironmentSpec_DeepCopyInto L (enSpec inp) h;
     let out = out\<lparr>enSpec := x\<rparr>;
     (x, h) \<leftarrow> DevEnvironmentStatus_DeepCopyInto L (enStatus inp) h;
     let out = out\<lparr>enStatus := x\<rparr>;
     Some (out, h)
   }"

definition DevEnvironmentList_DeepCopyInto :: "'x library \<Rightarrow> ('x cell, 'x env_list_mem) copier" where
  "DevEnvironmentList_DeepCopyInto L inp h = do {
     let out = inp;
     let out = out\<lparr>liTypeMeta := liTypeMeta inp\<rparr>;
     (x, h) \<leftarrow> DeepCopyInto L (liListMeta inp) h;
     let out = out\<lparr>liListMeta := x\<rparr>;
     (s, h) \<leftarrow> copy_slice EnvsK (zero_env L) (DevEnvironment_DeepCopyInto L) (liItems inp) h;
     let out = out\<lparr>liItems := s\<rparr>;
     Some (out, h)
   }"

text \<open>
  \<open>DeepCopy\<close> of each type: nil for nil, and else a new structure filled by \<open>DeepCopyInto\<close>;
  it is the statement \<open>copy_pointer\<close>.
\<close>

definition StorageSpec_DeepCopy :: "'x library \<Rightarrow> ('x cell, addr option) copier" where
  "StorageSpec_DeepCopy L = copy_pointer StorageK (zero_storage L) (StorageSpec_DeepCopyInto L)"

definition ServiceSpec_DeepCopy :: "'x library \<Rightarrow> ('x cell, addr option) copier" where
  "ServiceSpec_DeepCopy L = copy_pointer ServiceK (zero_service L) (ServiceSpec_DeepCopyInto L)"

definition DevEnvironmentSpec_DeepCopy :: "'x library \<Rightarrow> ('x cell, addr option) copier" where
  "DevEnvironmentSpec_DeepCopy L = copy_pointer SpecK zero_spec (DevEnvironmentSpec_DeepCopyInto L)"

definition DevEnvironmentStatus_DeepCopy :: "'x library \<Rightarrow> ('x cell, addr option) copier" where
  "DevEnvironmentStatus_DeepCopy L = copy_pointer StatusK zero_status (DevEnvironmentStatus_DeepCopyInto L)"

definition DevEnvironment_DeepCopy :: "'x library \<Rightarrow> ('x cell, addr option) copier" where
  "DevEnvironment_DeepCopy L = copy_pointer EnvK (zero_env L) (DevEnvironment_DeepCopyInto L)"

definition DevEnvironmentList_DeepCopy :: "'x library \<Rightarrow> ('x cell, addr option) copier" where
  "DevEnvironmentList_DeepCopy L = copy_pointer EnvListK (zero_env_list L) (DevEnvironmentList_DeepCopyInto L)"

text \<open>
  \<open>DeepCopyObject\<close> returns the interface \<open>runtime.Object\<close>: \<open>None\<close> is the nil interface, which
  is not the same as an interface that holds a nil pointer.
\<close>

datatype runtime_object = EnvObject "addr option" | EnvListObject "addr option"

definition DevEnvironment_DeepCopyObject :: "'x library \<Rightarrow> addr option \<Rightarrow> 'x cell heap \<Rightarrow>
    (runtime_object option \<times> 'x cell heap) option" where
  "DevEnvironment_DeepCopyObject L inp h = do {
     (c, h) \<leftarrow> DevEnvironment_DeepCopy L inp h;
     if c \<noteq> None then Some (Some (EnvObject c), h) else Some (None, h)
   }"

definition DevEnvironmentList_DeepCopyObject :: "'x library \<Rightarrow> addr option \<Rightarrow> 'x cell heap \<Rightarrow>
    (runtime_object option \<times> 'x cell heap) option" where
  "DevEnvironmentList_DeepCopyObject L inp h = do {
     (c, h) \<leftarrow> DevEnvironmentList_DeepCopy L inp h;
     if c \<noteq> None then Some (Some (EnvListObject c), h) else Some (None, h)
   }"

section \<open>What the structures stand for\<close>

definition int_value :: "('x cell, 'n::len word, 'v) valuation" where
  "int_value = plain (\<lambda>n. IntV (sint n))"

definition text_value :: "('x cell, string, 'v) valuation" where
  "text_value = plain StringV"

definition type_meta_value :: "('x cell, string \<times> string, 'v) valuation" where
  "type_meta_value = plain (\<lambda>(k, v). StructV [StringV k, StringV v])"

lemma leaf_copies:
  "deep_copy int_value nowhere assign" "deep_copy text_value nowhere assign"
  "deep_copy type_meta_value nowhere assign"
  by (simp_all add: int_value_def text_value_def type_meta_value_def deep_copy_plain)

lemmas leaf_representations = leaf_copies [THEN deep_copy.axioms(1)]

definition storage_value :: "('x cell, 'x, 'v) valuation \<Rightarrow> ('x cell, 'x storage_mem, 'v) valuation" where
  "storage_value lval = struct_value
     [field stSize lval, field stStorageClassName (pointer_value StringK text_value),
      field stAccessModes (slice_value StringsK text_value), field stFSGroup (pointer_value Int64K int_value)]"

definition storage_foot :: "('x cell, 'x) footprint \<Rightarrow> ('x cell, 'x storage_mem) footprint" where
  "storage_foot lfoot = struct_foot
     [field stSize lfoot, field stStorageClassName (pointer_foot StringK nowhere),
      field stAccessModes (slice_foot StringsK nowhere), field stFSGroup (pointer_foot Int64K nowhere)]"

definition service_value :: "('x cell, 'x, 'v) valuation \<Rightarrow> ('x cell, 'x service_mem, 'v) valuation" where
  "service_value lval = struct_value
     [field svName text_value, field svImage text_value, field svRegistry text_value, field svPort int_value,
      field svReplicas (pointer_value Int32K int_value), field svEnv (map_value MapK),
      field svSecretRefs (slice_value StringsK text_value),
      field svImagePullSecrets (slice_value StringsK text_value), field svMountPath text_value,
      field svResources lval, field svReadinessProbe (pointer_value LibraryK lval)]"

definition service_foot :: "('x cell, 'x) footprint \<Rightarrow> ('x cell, 'x service_mem) footprint" where
  "service_foot lfoot = struct_foot
     [field svName nowhere, field svImage nowhere, field svRegistry nowhere, field svPort nowhere,
      field svReplicas (pointer_foot Int32K nowhere), field svEnv map_foot,
      field svSecretRefs (slice_foot StringsK nowhere),
      field svImagePullSecrets (slice_foot StringsK nowhere), field svMountPath nowhere,
      field svResources lfoot, field svReadinessProbe (pointer_foot LibraryK lfoot)]"

definition spec_value :: "('x cell, 'x, 'v) valuation \<Rightarrow> ('x cell, spec_mem, 'v) valuation" where
  "spec_value lval = struct_value
     [field spNamespaceName text_value, field spOwner text_value,
      field spStorage (pointer_value StorageK (storage_value lval)), field spRegistry text_value,
      field spImagePullSecrets (slice_value StringsK text_value),
      field spServices (slice_value ServicesK (service_value lval)), field spConfig (map_value MapK)]"

definition spec_foot :: "('x cell, 'x) footprint \<Rightarrow> ('x cell, spec_mem) footprint" where
  "spec_foot lfoot = struct_foot
     [field spNamespaceName nowhere, field spOwner nowhere,
      field spStorage (pointer_foot StorageK (storage_foot lfoot)), field spRegistry nowhere,
      field spImagePullSecrets (slice_foot StringsK nowhere),
      field spServices (slice_foot ServicesK (service_foot lfoot)), field spConfig map_foot]"

definition status_value :: "('x cell, 'x, 'v) valuation \<Rightarrow> ('x cell, status_mem, 'v) valuation" where
  "status_value lval = struct_value
     [field suPhase text_value, field suNamespace text_value, field suReadyServices int_value,
      field suTotalServices int_value, field suObservedGeneration int_value,
      field suConditions (slice_value LibrariesK lval)]"

definition status_foot :: "('x cell, 'x) footprint \<Rightarrow> ('x cell, status_mem) footprint" where
  "status_foot lfoot = struct_foot
     [field suPhase nowhere, field suNamespace nowhere, field suReadyServices nowhere,
      field suTotalServices nowhere, field suObservedGeneration nowhere,
      field suConditions (slice_foot LibrariesK lfoot)]"

definition env_value :: "('x cell, 'x, 'v) valuation \<Rightarrow> ('x cell, 'x env_mem, 'v) valuation" where
  "env_value lval = struct_value
     [field enTypeMeta type_meta_value, field enObjectMeta lval, field enSpec (spec_value lval),
      field enStatus (status_value lval)]"

definition env_foot :: "('x cell, 'x) footprint \<Rightarrow> ('x cell, 'x env_mem) footprint" where
  "env_foot lfoot = struct_foot
     [field enTypeMeta nowhere, field enObjectMeta lfoot, field enSpec (spec_foot lfoot),
      field enStatus (status_foot lfoot)]"

definition env_list_value :: "('x cell, 'x, 'v) valuation \<Rightarrow> ('x cell, 'x env_list_mem, 'v) valuation" where
  "env_list_value lval = struct_value
     [field liTypeMeta type_meta_value, field liListMeta lval, field liItems (slice_value EnvsK (env_value lval))]"

definition env_list_foot :: "('x cell, 'x) footprint \<Rightarrow> ('x cell, 'x env_list_mem) footprint" where
  "env_list_foot lfoot = struct_foot
     [field liTypeMeta nowhere, field liListMeta lfoot, field liItems (slice_foot EnvsK (env_foot lfoot))]"

section \<open>The copies are deep if the library's are\<close>

locale go_library = deep_copy lval lfoot "DeepCopyInto L"
  for L :: "'x library" and lval :: "('x cell, 'x, 'v) valuation" and lfoot :: "('x cell, 'x) footprint"

context go_library begin

lemmas library_copy = deep_copy_axioms
lemmas part_copies = leaf_copies library_copy deep_copy_pointer deep_copy_slice deep_copy_map

lemmas part_representations = representation_field representation_pointer representation_slice
  representation_map leaf_representations representation_axioms
lemmas unfold_fields = field_def Let_def Cons_eq_map_conv
lemmas finished = copied_def int_value_def text_value_def type_meta_value_def plain_def nowhere_def

lemma storage_deep: "deep_copy (storage_value lval) (storage_foot lfoot) (StorageSpec_DeepCopyInto L)"
  unfolding storage_value_def storage_foot_def
proof (rule deep_copy_struct, goal_cases)
  case 1
  show ?case by (simp add: part_representations)
next
  case (2 h0 s vs)
  then show ?case
    by (simp add: unfold_fields StorageSpec_DeepCopyInto_def del: split_paired_Ex, elim exE conjE)
       ((rule copy_then, (rule part_copies typed_kinds)+, assumption, assumption)+, (drule run_from_at)+, simp add: finished)
qed

lemma service_deep: "deep_copy (service_value lval) (service_foot lfoot) (ServiceSpec_DeepCopyInto L)"
  unfolding service_value_def service_foot_def
proof (rule deep_copy_struct, goal_cases)
  case 1
  show ?case by (simp add: part_representations)
next
  case (2 h0 s vs)
  then show ?case
    by (simp add: unfold_fields ServiceSpec_DeepCopyInto_def del: split_paired_Ex, elim exE conjE)
       ((rule copy_then, (rule part_copies typed_kinds)+, assumption, assumption)+, (drule run_from_at)+, simp add: finished)
qed

lemma spec_deep: "deep_copy (spec_value lval) (spec_foot lfoot) (DevEnvironmentSpec_DeepCopyInto L)"
  unfolding spec_value_def spec_foot_def
proof (rule deep_copy_struct, goal_cases)
  case 1
  show ?case by (simp add: part_representations storage_deep [THEN deep_copy.axioms(1)] service_deep [THEN deep_copy.axioms(1)])
next
  case (2 h0 s vs)
  then show ?case
    by (simp add: unfold_fields DevEnvironmentSpec_DeepCopyInto_def del: split_paired_Ex, elim exE conjE)
       ((rule copy_then, (rule part_copies storage_deep service_deep typed_kinds)+, assumption, assumption)+, (drule run_from_at)+, simp add: finished)
qed

lemma status_deep: "deep_copy (status_value lval) (status_foot lfoot) (DevEnvironmentStatus_DeepCopyInto L)"
  unfolding status_value_def status_foot_def
proof (rule deep_copy_struct, goal_cases)
  case 1
  show ?case by (simp add: part_representations)
next
  case (2 h0 s vs)
  then show ?case
    by (simp add: unfold_fields DevEnvironmentStatus_DeepCopyInto_def del: split_paired_Ex, elim exE conjE)
       ((rule copy_then, (rule part_copies typed_kinds)+, assumption, assumption)+, (drule run_from_at)+, simp add: finished)
qed

lemma env_deep: "deep_copy (env_value lval) (env_foot lfoot) (DevEnvironment_DeepCopyInto L)"
  unfolding env_value_def env_foot_def
proof (rule deep_copy_struct, goal_cases)
  case 1
  show ?case by (simp add: part_representations spec_deep [THEN deep_copy.axioms(1)] status_deep [THEN deep_copy.axioms(1)])
next
  case (2 h0 s vs)
  then show ?case
    by (simp add: unfold_fields DevEnvironment_DeepCopyInto_def del: split_paired_Ex, elim exE conjE)
       ((rule copy_then, (rule part_copies spec_deep status_deep typed_kinds)+, assumption, assumption)+, (drule run_from_at)+, simp add: finished)
qed

lemma env_list_deep: "deep_copy (env_list_value lval) (env_list_foot lfoot) (DevEnvironmentList_DeepCopyInto L)"
  unfolding env_list_value_def env_list_foot_def
proof (rule deep_copy_struct, goal_cases)
  case 1
  show ?case by (simp add: part_representations env_deep [THEN deep_copy.axioms(1)])
next
  case (2 h0 s vs)
  then show ?case
    by (simp add: unfold_fields DevEnvironmentList_DeepCopyInto_def del: split_paired_Ex, elim exE conjE)
       ((rule copy_then, (rule part_copies env_deep typed_kinds)+, assumption, assumption)+, (drule run_from_at)+, simp add: finished)
qed

end

section \<open>A library\<close>

text \<open>
  An instance of the contract: library structures with a text and an optional pointer to more,
  as a \<open>Quantity\<close> has its number and a pointer to a decimal.
\<close>

record blob =
  bText :: string
  bMore :: "addr option"

definition blob_library :: "blob library" where
  "blob_library = \<lparr>zero = \<lparr>bText = [], bMore = None\<rparr>,
     DeepCopyInto = (\<lambda>x h. do {
       (p, h) \<leftarrow> copy_pointer StringK [] assign (bMore x) h;
       Some (x\<lparr>bMore := p\<rparr>, h)
     })\<rparr>"

definition blob_value :: "(blob cell, blob, unit) valuation" where
  "blob_value = struct_value [field bText text_value, field bMore (pointer_value StringK text_value)]"

definition blob_foot :: "(blob cell, blob) footprint" where
  "blob_foot = struct_foot [field bText nowhere, field bMore (pointer_foot StringK nowhere)]"

interpretation blob: go_library blob_library blob_value blob_foot
  unfolding go_library_def blob_value_def blob_foot_def
proof (rule deep_copy_struct, goal_cases)
  case 1
  show ?case by (simp add: representation_field representation_pointer leaf_representations)
next
  case (2 h0 s vs)
  then show ?case
    by (simp add: field_def Cons_eq_map_conv blob_library_def del: split_paired_Ex, elim exE conjE)
       (rule copy_then, (rule leaf_copies deep_copy_pointer typed_kinds)+, assumption, assumption,
        (drule run_from_at)+, simp add: copied_def text_value_def plain_def nowhere_def)
qed

definition sample_heap :: "blob cell heap" where
  "sample_heap = \<lparr>cells = map_of
     [(0, EnvC \<lparr>enTypeMeta = (''DevEnvironment'', ''devenv.aviture.dev/v1alpha1''),
            enObjectMeta = \<lparr>bText = ''team-alpha'', bMore = Some 1\<rparr>,
            enSpec = zero_spec\<lparr>spServices := Some \<lparr>sl_array = 2, sl_start = 1, sl_len = 1\<rparr>, spConfig := Some 4\<rparr>,
            enStatus = zero_status\<rparr>),
      (1, StringC ''labels''),
      (2, ServicesC [zero_service blob_library, (zero_service blob_library)\<lparr>svName := ''api'',
            svReplicas := Some 5, svSecretRefs := Some \<lparr>sl_array = 3, sl_start = 0, sl_len = 2\<rparr>\<rparr>]),
      (3, StringsC [''db'', ''cache'']),
      (4, MapC [(''LOG_LEVEL'', ''debug'')]),
      (5, Int32C 2)],
     next_free = 6\<rparr>"

lemma wf_sample_heap: "wf_heap sample_heap"
  by (simp add: wf_heap_def sample_heap_def)

lemma generated_copies:
  assumes "go_library L lval lfoot"
  shows "deep_copy (pointer_value StorageK (storage_value lval)) (pointer_foot StorageK (storage_foot lfoot)) (StorageSpec_DeepCopy L)"
    and "deep_copy (pointer_value ServiceK (service_value lval)) (pointer_foot ServiceK (service_foot lfoot)) (ServiceSpec_DeepCopy L)"
    and "deep_copy (pointer_value SpecK (spec_value lval)) (pointer_foot SpecK (spec_foot lfoot)) (DevEnvironmentSpec_DeepCopy L)"
    and "deep_copy (pointer_value StatusK (status_value lval)) (pointer_foot StatusK (status_foot lfoot)) (DevEnvironmentStatus_DeepCopy L)"
    and "deep_copy (pointer_value EnvK (env_value lval)) (pointer_foot EnvK (env_foot lfoot)) (DevEnvironment_DeepCopy L)"
    and "deep_copy (pointer_value EnvListK (env_list_value lval)) (pointer_foot EnvListK (env_list_foot lfoot)) (DevEnvironmentList_DeepCopy L)"
  unfolding StorageSpec_DeepCopy_def ServiceSpec_DeepCopy_def DevEnvironmentSpec_DeepCopy_def
    DevEnvironmentStatus_DeepCopy_def DevEnvironment_DeepCopy_def DevEnvironmentList_DeepCopy_def
  using assms
  by (simp_all add: deep_copy_pointer go_library.storage_deep go_library.service_deep go_library.spec_deep
      go_library.status_deep go_library.env_deep go_library.env_list_deep)

section \<open>Properties\<close>

text \<open>
  C32. Every generated \<open>DeepCopy\<close> meets the contract of a deep copy, provided that the library's
  do: on a pointer to a well-formed structure it returns, the structure it returns is deeply
  equal to the original (nil stays nil, empty stays empty), no cell that existed before is
  changed, and everything the result refers to is newly allocated.
\<close>

theorem generated_copies_are_deep:
  assumes "go_library L lval lfoot"
  shows
    "deep_copy (pointer_value StorageK (storage_value lval)) (pointer_foot StorageK (storage_foot lfoot))
       (StorageSpec_DeepCopy L) \<and>
     deep_copy (pointer_value ServiceK (service_value lval)) (pointer_foot ServiceK (service_foot lfoot))
       (ServiceSpec_DeepCopy L) \<and>
     deep_copy (pointer_value SpecK (spec_value lval)) (pointer_foot SpecK (spec_foot lfoot))
       (DevEnvironmentSpec_DeepCopy L) \<and>
     deep_copy (pointer_value StatusK (status_value lval)) (pointer_foot StatusK (status_foot lfoot))
       (DevEnvironmentStatus_DeepCopy L) \<and>
     deep_copy (pointer_value EnvK (env_value lval)) (pointer_foot EnvK (env_foot lfoot))
       (DevEnvironment_DeepCopy L) \<and>
     deep_copy (pointer_value EnvListK (env_list_value lval)) (pointer_foot EnvListK (env_list_foot lfoot))
       (DevEnvironmentList_DeepCopy L)"
  using generated_copies [OF assms] by blast

theorem generated_copies_are_deep_witness:
  "deep_copy (pointer_value EnvK (env_value blob_value)) (pointer_foot EnvK (env_foot blob_foot))
     (DevEnvironment_DeepCopy blob_library) \<and>
   map_option fst (DevEnvironment_DeepCopy blob_library (Some 0) sample_heap) = Some (Some 6)"
proof
  show "map_option fst (DevEnvironment_DeepCopy blob_library (Some 0) sample_heap) = Some (Some 6)" by code_simp
qed (use generated_copies_are_deep [OF blob.go_library_axioms] in blast)

text \<open>
  C33. The operator may change what it was given. \<open>DeepCopyObject\<close>, by which the caches of
  controller-runtime hand out objects, gives the nil interface for a nil pointer, and for a
  well-formed environment a new pointer with the same value. Whatever is written afterwards to
  memory outside that of the cached object, its copy included, the cached object keeps its
  value; and whatever is written to the old memory, the copy keeps its own.
\<close>

theorem deep_copied_object_independent:
  assumes "go_library L lval lfoot" and "wf_heap h"
    and "pointer_value EnvK (env_value lval) h (Some a) = Some v"
  shows "DevEnvironment_DeepCopyObject L None h = Some (None, h) \<and>
    (\<exists>b h'. DevEnvironment_DeepCopyObject L (Some a) h = Some (Some (EnvObject (Some b)), h') \<and>
      pointer_value EnvK (env_value lval) h' (Some b) = Some v \<and>
      (\<forall>h2. (\<forall>c < next_free h. cells h2 c = cells h' c) \<longrightarrow>
         pointer_value EnvK (env_value lval) h2 (Some a) = Some v) \<and>
      (\<forall>h2. (\<forall>c \<ge> next_free h. cells h2 c = cells h' c) \<longrightarrow>
         pointer_value EnvK (env_value lval) h2 (Some b) = Some v))"
proof -
  obtain q h' where q: "DevEnvironment_DeepCopy L (Some a) h = Some (q, h')"
      "pointer_value EnvK (env_value lval) h' q = Some v"
      "\<forall>h2. (\<forall>c < next_free h. cells h2 c = cells h' c) \<longrightarrow> pointer_value EnvK (env_value lval) h2 (Some a) = Some v"
      "\<forall>h2. (\<forall>c \<ge> next_free h. cells h2 c = cells h' c) \<longrightarrow> pointer_value EnvK (env_value lval) h2 q = Some v"
    using independent_copy [OF generated_copies(5) [OF assms(1)] assms(2,3)] by blast
  then obtain b where "q = Some b"
    using assms(3) by (cases q) (auto simp: pointer_value_def bind_eq_Some_conv)
  then show ?thesis
    using q by (simp add: DevEnvironment_DeepCopyObject_def)
       (simp add: DevEnvironment_DeepCopy_def copy_pointer_def)
qed

theorem deep_copied_object_independent_witness:
  "\<exists>b h' v. DevEnvironment_DeepCopyObject blob_library (Some 0) sample_heap = Some (Some (EnvObject (Some b)), h') \<and>
     pointer_value EnvK (env_value blob_value) sample_heap (Some 0) = Some v \<and>
     pointer_value EnvK (env_value blob_value) (write_cell b (EnvC (zero_env blob_library)) h') (Some 0) = Some v"
proof -
  have "pointer_value EnvK (env_value blob_value) sample_heap (Some 0) \<noteq> None" by code_simp
  then obtain v where v: "pointer_value EnvK (env_value blob_value) sample_heap (Some 0) = Some v" by blast
  obtain b h' where copy: "DevEnvironment_DeepCopyObject blob_library (Some 0) sample_heap =
        Some (Some (EnvObject (Some b)), h')"
      "\<forall>h2. (\<forall>c < next_free sample_heap. cells h2 c = cells h' c) \<longrightarrow>
         pointer_value EnvK (env_value blob_value) h2 (Some 0) = Some v"
    using deep_copied_object_independent [OF blob.go_library_axioms wf_sample_heap v] by blast
  have "map_option fst (DevEnvironment_DeepCopyObject blob_library (Some 0) sample_heap) =
      Some (Some (EnvObject (Some 6)))" by code_simp
  then have "b = 6" using copy(1) by simp
  then have "\<forall>c < next_free sample_heap. cells (write_cell b (EnvC (zero_env blob_library)) h') c = cells h' c"
    by (simp add: write_cell_def sample_heap_def)
  with copy v show ?thesis by blast
qed

end
