(* ===== verification/Lagging_Reads.thy ===== *)
theory Lagging_Reads
  imports Readiness
begin

text \<open>
  The manager's client reads through a cache, which may not have seen a namespace that exists:
  such a read answers NotFound. \<open>lagging_server\<close> weakens the law of namespace reads to that (an
  object that is returned is the stored one, an error says nothing) and leaves the others as they
  are, so \<open>api_server\<close> is the case without lag. The proofs use programs that preserve a property
  of the cluster, whatever they return.
\<close>

section \<open>Programs that preserve a property\<close>

definition preserves :: "('w \<Rightarrow> cluster) \<Rightarrow> (cluster \<Rightarrow> bool) \<Rightarrow> ('w, 'a) state \<Rightarrow> bool" where
  "preserves view I m \<longleftrightarrow> (\<forall>c. I c \<longrightarrow> hoare view ((=) c) m (\<lambda>_. I))"

named_theorems preserves_rules

lemma preserves_hoare:
  "preserves view I m \<Longrightarrow> I c \<Longrightarrow> (\<And>x c'. I c' \<Longrightarrow> Q x c') \<Longrightarrow> hoare view ((=) c) m Q"
  unfolding preserves_def by (erule allE [of _ c]) (auto elim: hoare_weaken)

lemma preserves_return [preserves_rules]: "preserves view I (State_Monad.return x)"
  by (simp add: preserves_def hoare_return)

lemma preserves_bind [preserves_rules]:
  "preserves view I m \<Longrightarrow> (\<And>x. preserves view I (f x)) \<Longrightarrow> preserves view I (State_Monad.bind m f)"
  unfolding preserves_def by (blast intro: hoare_step_at)

lemma preserves_if [preserves_rules]:
  "(b \<Longrightarrow> preserves view I m) \<Longrightarrow> (\<not> b \<Longrightarrow> preserves view I n) \<Longrightarrow> preserves view I (if b then m else n)"
  by simp

lemma preserves_sum [preserves_rules]:
  "(\<And>e. preserves view I (f e)) \<Longrightarrow> (\<And>x. preserves view I (g x)) \<Longrightarrow>
   preserves view I (case r of Inl e \<Rightarrow> f e | Inr x \<Rightarrow> g x)"
  by (cases r) auto

lemma preserves_option [preserves_rules]:
  "preserves view I f \<Longrightarrow> (\<And>x. preserves view I (g x)) \<Longrightarrow>
   preserves view I (case r of None \<Rightarrow> f | Some x \<Rightarrow> g x)"
  by (cases r) auto

lemma preserves_prod [preserves_rules]:
  "(\<And>x y. preserves view I (f x y)) \<Longrightarrow> preserves view I (case r of (x, y) \<Rightarrow> f x y)"
  by (cases r) auto

lemma preserves_unchanged:
  assumes "\<forall>c. hoare view ((=) c) m (\<lambda>x c'. c' = c \<and> R c x c')"
  shows "preserves view I m"
  unfolding preserves_def
proof (intro allI impI)
  fix c
  assume "I c"
  then show "hoare view ((=) c) m (\<lambda>_. I)"
    by (intro hoare_weaken [OF assms [THEN spec, of c]]) auto
qed

lemma preserves_reads: "reads view look m \<Longrightarrow> preserves view I m"
  unfolding reads_def by (rule preserves_unchanged)

lemma preserves_lists: "lists view sel ns ls m \<Longrightarrow> preserves view I m"
  unfolding lists_def by (rule preserves_unchanged)

lemma preserves_writes:
  assumes "writes view missing present eff m" and "\<And>c obj c'. I c \<Longrightarrow> eff c obj c' \<Longrightarrow> I c'"
  shows "preserves view I m"
  unfolding preserves_def
proof (intro allI impI)
  fix c
  assume "I c"
  then show "hoare view ((=) c) m (\<lambda>_. I)"
    using assms unfolding writes_def
    by (elim allE [of _ c] hoare_weaken) (auto simp: write_failed_def split: sum.splits)
qed

text \<open>Properties of the namespaces and claims only.\<close>

definition about :: "(cluster \<Rightarrow> bool) \<Rightarrow> bool" where
  "about I \<longleftrightarrow> (\<forall>c c'. cl_namespaces c' = cl_namespaces c \<longrightarrow> cl_pvcs c' = cl_pvcs c \<longrightarrow> I c \<longrightarrow> I c')"

lemma aboutD: "about I \<Longrightarrow> I c \<Longrightarrow> cl_namespaces c' = cl_namespaces c \<Longrightarrow> cl_pvcs c' = cl_pvcs c \<Longrightarrow> I c'"
  unfolding about_def by blast

lemma preserves_elsewhere:
  assumes "writes view missing present eff m" and "about I"
    and "\<And>c obj c'. eff c obj c' \<Longrightarrow> cl_namespaces c' = cl_namespaces c \<and> cl_pvcs c' = cl_pvcs c"
  shows "preserves view I m"
  by (rule preserves_writes [OF assms(1)]) (use assms(2,3) in \<open>blast intro: aboutD\<close>)

lemma effect_frames:
  assumes "\<And>f c. cl_namespaces (upd f c) = cl_namespaces c" "\<And>f c. cl_pvcs (upd f c) = cl_pvcs c"
  shows "create_effect admit sel upd k sent c obj c' \<Longrightarrow>
      cl_namespaces c' = cl_namespaces c \<and> cl_pvcs c' = cl_pvcs c"
    and "delete_effect sel upd k c u c' \<Longrightarrow> cl_namespaces c' = cl_namespaces c \<and> cl_pvcs c' = cl_pvcs c"
    and "create_or_update_effect admit sel upd k init f c obj c' \<Longrightarrow>
      cl_namespaces c' = cl_namespaces c \<and> cl_pvcs c' = cl_pvcs c"
  using assms by (auto simp: create_effect_def delete_effect_def create_or_update_effect_def
      split: option.splits if_splits)

lemma record_frames:
  "update_env_effect e c obj c' \<Longrightarrow> cl_namespaces c' = cl_namespaces c \<and> cl_pvcs c' = cl_pvcs c"
  "update_status_effect e c obj c' \<Longrightarrow> cl_namespaces c' = cl_namespaces c \<and> cl_pvcs c' = cl_pvcs c"
  by (auto simp: update_env_effect_def update_status_effect_def)

section \<open>A server whose namespace reads lag\<close>

definition observes :: "('w \<Rightarrow> cluster) \<Rightarrow> (cluster \<Rightarrow> 'o option) \<Rightarrow> ('w, 'o) io \<Rightarrow> bool" where
  "observes view look m \<longleftrightarrow>
     (\<forall>c. hoare view ((=) c) m (\<lambda>r c'. c' = c \<and> (\<forall>obj. r = Inr obj \<longrightarrow> look c = Some obj)))"

lemma reads_observes: "reads view look m \<Longrightarrow> observes view look m"
  unfolding reads_def observes_def by (elim all_forward) (auto elim: hoare_weaken)

lemma observe_step:
  fixes m :: "('w, 'b) io"
  assumes "observes view look m"
    and "\<And>obj. look c = Some obj \<Longrightarrow> hoare view ((=) c) (f (Inr obj)) Q"
    and "\<And>e. hoare view ((=) c) (f (Inl e)) Q"
  shows "hoare view ((=) c) (State_Monad.bind m f) Q"
proof (rule hoare_step_at [OF assms(1) [unfolded observes_def, THEN spec]])
  fix x :: "go_error + 'b" and c'
  assume "c' = c \<and> (\<forall>obj. x = Inr obj \<longrightarrow> look c = Some obj)"
  then show "hoare view ((=) c') (f x) Q" using assms(2,3) by (cases x) auto
qed

lemma preserves_observes: "observes view look m \<Longrightarrow> preserves view I m"
  unfolding observes_def by (rule preserves_unchanged)

text \<open>What the two methods that read the namespace may do to it when the read lags.\<close>

definition observed_pass ::
  "dev_environment \<Rightarrow> string \<Rightarrow> cluster \<Rightarrow> go_error + unit \<Rightarrow> cluster \<Rightarrow> bool" where
  "observed_pass env n c res c' \<longleftrightarrow>
     (\<exists>y. c' = c\<lparr>cl_namespaces := (cl_namespaces c)(n := y)\<rparr> \<and>
       namespace_step env (cl_namespaces c n) y \<and>
       (res = Inr () \<longrightarrow> (\<exists>obj. y = Some obj \<and> (labels_current env obj \<or> cl_namespaces c n = Some obj))))"

definition observed_delete :: "dev_environment \<Rightarrow> cluster \<Rightarrow> cluster \<Rightarrow> bool" where
  "observed_delete env c c' \<longleftrightarrow> cl_pvcs c' = cl_pvcs c \<and>
     (\<exists>y. cl_namespaces c' = (cl_namespaces c)(TargetNamespace env := y) \<and>
       (y = cl_namespaces c (TargetNamespace env) \<or>
        (\<exists>ns. cl_namespaces c (TargetNamespace env) = Some ns \<and> owns env ns)))"

lemma namespace_observed: "namespace_pass env n c res c' \<Longrightarrow> observed_pass env n c res c'"
  unfolding namespace_pass_def observed_pass_def by blast

locale lagging_namespace_api = cluster_api r view
  for r :: "'w reconciler" and view :: "'w \<Rightarrow> cluster" +
  fixes admit_ns :: "namespace \<Rightarrow> namespace \<Rightarrow> bool"
  assumes admitted_ns: "admission admit_ns"
    and observe_namespace_law:
      "observes view (\<lambda>c. cl_namespaces c n) (get_namespace (Client r) n)"
    and made_namespace_law:
      "writes view (\<lambda>c. True) (\<lambda>c. cl_namespaces c (Name ns) \<noteq> None)
         (create_effect admit_ns cl_namespaces cl_namespaces_update (Name ns) ns) (create_namespace (Client r) ns)"
    and patched_namespace_law:
      "Name modified = Name base \<Longrightarrow>
       writes view (\<lambda>c. cl_namespaces c (Name base) = None) (\<lambda>c. True)
         (patch_effect base modified) (patch_namespace (Client r) base modified)"
    and deleted_namespace_law:
      "writes view (\<lambda>c. cl_namespaces c (Name ns) = None) (\<lambda>c. True)
         (delete_effect cl_namespaces cl_namespaces_update (Name ns)) (delete_namespace (Client r) ns)"

sublocale namespace_api \<subseteq> lagging_namespace_api r view admit_ns
  by unfold_locales
    (rule admit_ns_law reads_observes get_namespace_law create_namespace_law patch_namespace_law
      delete_namespace_law | assumption)+

locale lagging_server =
  lagging_namespace_api r view admit_ns + config_map_api r view + secret_api r view +
  pvc_api r view admit_pvc + workload_api r view admit_deploy admit_svc + env_api r view
  for r :: "'w reconciler" and view :: "'w \<Rightarrow> cluster" and admit_ns admit_pvc admit_deploy admit_svc

sublocale api_server \<subseteq> lagging_server r view admit_ns admit_pvc admit_deploy admit_svc ..

context api_server begin

lemma server_lags: "lagging_server r view admit_ns admit_pvc admit_deploy admit_svc"
  by unfold_locales

end

context lagging_server begin

lemma other_calls:
  assumes I: "about I"
  shows "preserves view I (update_env (Client r) e)" "preserves view I (update_env_status (Client r) e)"
    and "preserves view I (delete_config_map (Client r) cm)"
    and "preserves view I (create_secret (Client r) s)" "preserves view I (delete_secret (Client r) s uid)"
    and "preserves view I (delete_deployment (Client r) d)" "preserves view I (delete_service (Client r) v)"
    and "keeps_meta f_cm \<Longrightarrow> preserves view I (create_or_update_config_map (Client r) cm f_cm)"
    and "keeps_meta f_s \<Longrightarrow> preserves view I (create_or_update_secret (Client r) s f_s)"
    and "keeps_meta f_d \<Longrightarrow> (\<And>x. DeployStatus (f_d x) = DeployStatus x) \<Longrightarrow>
      preserves view I (create_or_update_deployment (Client r) d f_d)"
    and "keeps_meta f_v \<Longrightarrow> preserves view I (create_or_update_service (Client r) v f_v)"
  by ((erule preserves_elsewhere [OF create_or_update_config_map_law I]
        preserves_elsewhere [OF create_or_update_secret_law I]
        preserves_elsewhere [OF create_or_update_service_law I] |
       rule preserves_elsewhere [OF update_env_law I] preserves_elsewhere [OF update_env_status_law I]
        preserves_elsewhere [OF delete_config_map_law I] preserves_elsewhere [OF create_secret_law I]
        preserves_elsewhere [OF delete_secret_law I] preserves_elsewhere [OF delete_deployment_law I]
        preserves_elsewhere [OF delete_service_law I]
        preserves_elsewhere [OF create_or_update_deployment_law I]);
      (assumption | (elim conjE)?, (erule record_frames effect_frames [rotated -1]; simp; fail) | simp)?)+

lemma reading_calls [preserves_rules]:
  "preserves view I (get_env (Client r) k)" "preserves view I (get_namespace (Client r) n)"
  "preserves view I (get_secret (Client r) ks)" "preserves view I (get_secret (reader r) ks)"
  "preserves view I (get_pvc (Client r) kp)" "preserves view I (list_deployments (Client r) l ls)"
  "preserves view I (list_services (Client r) l ls)" "preserves view I (list_pods (reader r) l ls)"
  "preserves view I (set_status_condition (Helpers r) cs cond)"
  by (rule preserves_reads [OF get_env_law] preserves_observes [OF observe_namespace_law]
      preserves_reads [OF get_secret_law] preserves_reads [OF read_secret_law] preserves_reads [OF get_pvc_law]
      preserves_lists [OF list_deployments_law] preserves_lists [OF list_services_law]
      preserves_lists [OF list_pods_law] preserves_unchanged [OF allI, OF set_status_condition_law])+

lemma copySecrets_preserves:
  assumes "about I"
  shows "preserves view I (copySecrets r env ns pull names)"
proof (induction names)
  case (Cons name names)
  have "preserves view I (copySecret r env ns pull name)"
    unfolding copySecret_def replaceOnTypeChange_def Let_def
    by (intro preserves_rules other_calls [OF assms] keeps_meta_mutateSecret)
  then show ?case using Cons by (auto intro!: preserves_rules)
qed (simp add: preserves_return)

lemma reconcileServices_preserves:
  assumes "about I"
  shows "preserves view I (reconcileServices r env ns svcs ready)"
proof (induction svcs arbitrary: ready)
  case (Cons svc svcs)
  have "preserves view I (reconcileService r env ns svc)"
    unfolding reconcileService_def
    by (intro preserves_rules other_calls [OF assms] keeps_meta_mutate) simp
  then show ?case using Cons by (auto intro!: preserves_rules)
qed (simp add: preserves_return)

lemma pruneItems_preserves:
  "(\<And>obj. preserves view I (del obj)) \<Longrightarrow> preserves view I (pruneItems del what wanted objs)"
  by (induction objs) (auto intro!: preserves_rules)

lemma pruneServices_preserves: "about I \<Longrightarrow> preserves view I (pruneServices r env ns)"
  unfolding pruneServices_def Let_def by (intro preserves_rules pruneItems_preserves other_calls)

lemma reconcileConfigMap_preserves: "about I \<Longrightarrow> preserves view I (reconcileConfigMap r env ns)"
  unfolding reconcileConfigMap_def Let_def
  by (intro preserves_rules other_calls keeps_meta_mutateConfigMap)

lemma reconcileSecrets_preserves: "about I \<Longrightarrow> preserves view I (reconcileSecrets r env ns)"
  unfolding reconcileSecrets_def Let_def by (rule copySecrets_preserves)

lemma reconcilePVC_preserves:
  "(\<And>st. Storage (Spec env) = Some st \<Longrightarrow> preserves view I (create_pvc (Client r) (sharedClaim env ns st))) \<Longrightarrow>
   preserves view I (reconcilePVC r env ns)"
  unfolding reconcilePVC_def Let_def
  by (cases "Storage (Spec env)") (auto intro!: preserves_rules)

lemma status_preserves:
  assumes "about I"
  shows "preserves view I (setFailed r env cause)" "preserves view I (setProvisioned r env ready)"
  unfolding setFailed_def setProvisioned_def reportProblems_def setCondition_def patchStatus_def
    workloadProblems_def addStalledServices_def Let_def
  by (intro preserves_rules other_calls [OF assms])+

text \<open>What comes after the namespace step.\<close>

lemmas content_preserves = reconcileConfigMap_preserves reconcileSecrets_preserves
  reconcileServices_preserves pruneServices_preserves status_preserves

lemma reconcileLive_preserves:
  assumes "about I" and "preserves view I (reconcileNamespace r env (TargetNamespace env))"
    and "preserves view I (reconcilePVC r env (TargetNamespace env))"
  shows "preserves view I (reconcileLive r env)"
  unfolding reconcileLive_def reconcileEnvironment_def Let_def
  by (intro preserves_rules assms content_preserves)

text \<open>A pass, from what its two branches preserve for the record that is stored.\<close>

lemma Reconcile_preserves:
  assumes I: "about I" "I c"
    and delete: "\<And>e. cl_envs c (ReqNamespace req, ReqName req) = Some e \<Longrightarrow> preserves view I (reconcileDelete r e)"
    and live: "\<And>e e'. cl_envs c (ReqNamespace req, ReqName req) = Some e \<Longrightarrow> DeletionTimestamp e = None \<Longrightarrow>
      Name e' = Name e \<Longrightarrow> Namespace e' = Namespace e \<Longrightarrow> Spec e' = Spec e \<Longrightarrow>
      preserves view I (reconcileLive r e')"
  shows "hoare view ((=) c) (Reconcile r req) (\<lambda>_. I)"
  unfolding Reconcile_def contains_finalizer_law
proof (rule read_step [OF get_env_law]; simp only: sum.case)
  fix env
  assume env: "cl_envs c (ReqNamespace req, ReqName req) = Some env"
  let ?e = "add_finalizer (Helpers r) env finalizerName"
  have "hoare view ((=) c) (update_env (Client r) ?e \<bind> case_sum
      (\<lambda>err. State_Monad.return (no_result, Some (Wrapf ''adding finalizer'' err))) (reconcileLive r)) (\<lambda>_. I)"
    if "DeletionTimestamp env = None"
  proof (rule write_step [OF update_env_law]; simp only: sum.case)
    fix obj c'
    assume eff: "update_env_effect ?e c obj c'"
    then have "I c'" using record_frames(1) aboutD [OF I] by blast
    moreover have "preserves view I (reconcileLive r obj)"
      using eff by (intro live [OF env that]) (auto simp: update_env_effect_def add_finalizer_law)
    ultimately show "hoare view ((=) c') (reconcileLive r obj) (\<lambda>_. I)" by (simp add: preserves_def)
    show "hoare view ((=) c') (State_Monad.return (no_result, Some (Wrapf ''adding finalizer'' e))) (\<lambda>_. I)" for e
      using \<open>I c'\<close> by (intro hoare_return_eq)
  qed (simp add: hoare_return_eq I)
  moreover have "hoare view ((=) c) (reconcileDelete r env) (\<lambda>_. I)"
    "DeletionTimestamp env = None \<Longrightarrow> hoare view ((=) c) (reconcileLive r env) (\<lambda>_. I)"
    using delete [OF env] live [OF env _ refl refl refl] I(2) by (simp_all add: preserves_def)
  ultimately show "hoare view ((=) c)
      (if DeletionTimestamp env \<noteq> None then reconcileDelete r env
       else if finalizerName \<notin> set (Finalizers env) then update_env (Client r) ?e \<bind> case_sum
         (\<lambda>err. State_Monad.return (no_result, Some (Wrapf ''adding finalizer'' err))) (reconcileLive r)
       else reconcileLive r env) (\<lambda>_. I)"
    by simp
qed (simp add: hoare_return_eq I)

section \<open>The two methods that read the namespace\<close>

text \<open>
  As \<open>namespace_pass\<close>, but success leaves more open: a namespace the read missed may be there as it
  was, whoever owns it, because AlreadyExists is taken for success.
\<close>

lemma reconcileNamespace_at:
  "hoare view ((=) c) (reconcileNamespace r env n) (observed_pass env n c)"
proof (rule hoare_wf)
  assume wf: "wf_cluster c"
  have name: "Name ((new_meta [] n)\<lparr>Labels := labels env []\<rparr>) = n"
    by (simp add: new_meta_def)
  note create = made_namespace_law [of "(new_meta [] n)\<lparr>Labels := labels env []\<rparr>", unfolded name]
  note patched = namespace_pass_patched [OF wf, THEN namespace_observed]
    and created = namespace_pass_created [OF admitted_ns, THEN namespace_observed]
  have kept: "observed_pass env n c res c" if "res = Inr () \<Longrightarrow> cl_namespaces c n \<noteq> None" for res
    using that unfolding observed_pass_def by (intro exI [of _ "cl_namespaces c n"]) auto
  show "hoare view ((=) c) (reconcileNamespace r env n) (observed_pass env n c)"
    unfolding reconcileNamespace_def Let_def
    by (auto intro!: observe_step [OF observe_namespace_law] write_step [OF patched_namespace_law]
          write_step [OF create] hoare_if hoare_return_eq)
       ((rule kept; simp; fail) | erule (2) patched | erule created)+
qed

lemma reconcileDelete_at:
  "hoare view ((=) c) (reconcileDelete r env) (\<lambda>res c'. observed_delete env c c')"
proof (rule hoare_wf)
  assume wf: "wf_cluster c"
  have name: "Name ns = TargetNamespace env" if "cl_namespaces c (TargetNamespace env) = Some ns" for ns
    using wf that by (simp add: wf_cluster_def)
  have kept: "observed_delete env c c'" if "cl_namespaces c' = cl_namespaces c \<and> cl_pvcs c' = cl_pvcs c" for c'
    using that unfolding observed_delete_def by (intro conjI exI [of _ "cl_namespaces c (TargetNamespace env)"]) auto
  have deleted: "observed_delete env c c'"
    if "delete_effect cl_namespaces cl_namespaces_update (Name ns) c u c'"
      "cl_namespaces c (TargetNamespace env) = Some ns" "owns env ns" for ns u c'
    using delete_effectD [OF that(1)] that(2,3) unfolding name [OF that(2)] by (auto simp: observed_delete_def)
  show ?thesis
    unfolding reconcileDelete_def Let_def
    by (auto intro!: observe_step [OF observe_namespace_law] write_step [OF deleted_namespace_law]
          write_step [OF update_env_law] hoare_if hoare_return_eq)
       ((erule deleted; simp; fail) | (rule kept; simp; fail) | (rule kept, erule record_frames))+
qed

lemma reconcileNamespace_preserves:
  "(\<And>c y. I c \<Longrightarrow> namespace_step env (cl_namespaces c n) y \<Longrightarrow> I (c\<lparr>cl_namespaces := (cl_namespaces c)(n := y)\<rparr>)) \<Longrightarrow>
   preserves view I (reconcileNamespace r env n)"
  unfolding preserves_def
  by (intro allI impI hoare_weaken [OF reconcileNamespace_at]) (auto simp: observed_pass_def)

lemma reconcileDelete_preserves:
  "(\<And>c c'. I c \<Longrightarrow> observed_delete env c c' \<Longrightarrow> I c') \<Longrightarrow> preserves view I (reconcileDelete r env)"
  unfolding preserves_def by (intro allI impI hoare_weaken [OF reconcileDelete_at]) auto

text \<open>Properties of the namespaces alone survive the rest of a pass.\<close>

lemma claim_step_preserves:
  assumes "\<And>c c'. cl_namespaces c' = cl_namespaces c \<Longrightarrow> I c \<Longrightarrow> I c'"
  shows "about I" "preserves view I (reconcilePVC r env ns)"
proof -
  show "about I" using assms unfolding about_def by blast
  show "preserves view I (reconcilePVC r env ns)"
    by (intro reconcilePVC_preserves preserves_writes [OF create_pvc_law])
       (erule assms [rotated], auto simp: create_effect_def)
qed

text \<open>A live pass without an error leaves the target namespace there.\<close>

lemma reconcileLive_namespace:
  fixes env c
  defines "present \<equiv> (\<lambda>c' :: cluster. \<exists>obj. cl_namespaces c' (TargetNamespace env) = Some obj \<and>
    (labels_current env obj \<or> cl_namespaces c (TargetNamespace env) = Some obj))"
  shows "hoare view ((=) c) (reconcileLive r env) (\<lambda>res c'. snd res = None \<longrightarrow> present c')"
proof -
  have about: "about present" and claim: "preserves view present (reconcilePVC r env (TargetNamespace env))"
    by (rule claim_step_preserves; simp add: present_def)+
  have any: "preserves view (\<lambda>_. True) m" for m :: "('w, 'x) state"
    by (simp add: preserves_def hoare_def triple_def)
  have "hoare view ((=) c) (reconcileEnvironment r env) (\<lambda>res c'. snd res = None \<longrightarrow> present c')"
    unfolding reconcileEnvironment_def Let_def
  proof ((rule call_step [OF reconcileNamespace_at]; simp only: sum.case), goal_cases)
    case (1 e c1)
    show ?case by (rule hoare_return_eq) simp
  next
    case (2 u c1)
    then have "present c1" by (auto simp: observed_pass_def present_def)
    then show ?case
      by (intro preserves_hoare [where I = present])
        (intro preserves_rules content_preserves about claim, simp_all)
  qed
  then show ?thesis
    unfolding reconcileLive_def
  proof (rule hoare_step_at, goal_cases)
    case (1 x c1)
    obtain ready failed where x: "x = (ready, failed)" by (rule prod.exhaust)
    show ?case
    proof (cases failed)
      case None
      have "preserves view present (setProvisioned r env ready)" by (rule content_preserves [OF about])
      then show ?thesis
        unfolding x None prod.case option.case using 1 x None
        by (intro preserves_hoare [where I = present]) (auto intro!: preserves_rules)
    next
      case (Some err)
      have "hoare view ((=) c1) (setFailed r env err) (\<lambda>_ _. True)" by (simp add: hoare_def triple_def)
      then show ?thesis
        unfolding x Some prod.case option.case
        by (rule hoare_step_at) (auto intro!: hoare_return_eq split: sum.split)
    qed
  qed
qed

end

lemma labels_current_cong:
  "Name e = Name env \<Longrightarrow> Namespace e = Namespace env \<Longrightarrow> Spec e = Spec env \<Longrightarrow>
   labels_current e obj = labels_current env obj"
  by (simp add: labels_current_def labels_def Let_def)

context lagging_server begin

lemma Reconcile_namespace:
  assumes env: "cl_envs c (ReqNamespace req, ReqName req) = Some env"
  shows "hoare view ((=) c) (Reconcile r req) (\<lambda>res c'. DeletionTimestamp env = None \<longrightarrow> snd res = None \<longrightarrow>
      (\<exists>obj. cl_namespaces c' (TargetNamespace env) = Some obj \<and>
         (labels_current env obj \<or> cl_namespaces c (TargetNamespace env) = Some obj)))"
    (is "hoare view _ _ ?Q")
proof -
  have live: "hoare view ((=) c1) (reconcileLive r e) ?Q"
    if "Name e = Name env" "Namespace e = Namespace env" "Spec e = Spec env"
      "cl_namespaces c1 = cl_namespaces c" for e c1
    using that target_cong [of e env] labels_current_cong [of e env]
    by (intro hoare_weaken [OF reconcileLive_namespace [of c1 e]]) auto
  have delete: "hoare view ((=) c) (reconcileDelete r env) ?Q" if "DeletionTimestamp env \<noteq> None"
    by (rule hoare_weaken [OF reconcileDelete_at]) (use that in auto)
  have added: "hoare view ((=) c) (update_env (Client r) (add_finalizer (Helpers r) env finalizerName) \<bind>
      case_sum (\<lambda>err. State_Monad.return (no_result, Some (Wrapf ''adding finalizer'' err))) (reconcileLive r)) ?Q"
    by (rule write_step [OF update_env_law]; simp only: sum.case)
      (rule live; auto simp: update_env_effect_def add_finalizer_law | rule hoare_return_eq, simp)+
  show ?thesis
    unfolding Reconcile_def contains_finalizer_law
  proof ((rule read_step [OF get_env_law]; simp only: sum.case), goal_cases)
    case (1 e)
    then have e: "e = env" using env by simp
    show ?case unfolding e by (intro hoare_if delete added live refl) simp_all
  next
    case (2 e)
    then show ?case using env by (intro hoare_return_eq) (auto simp: ignore_not_found_def)
  qed
qed

end

section \<open>The in-memory server with a lagging cache\<close>

text \<open>The cache has not seen the namespaces in \<open>hidden\<close>.\<close>

definition lagging_reconciler :: "string list \<Rightarrow> mem reconciler" where
  "lagging_reconciler hidden = mem_reconciler\<lparr>Client := mem_client\<lparr>get_namespace :=
     (\<lambda>n. if n \<in> set hidden then State_Monad.return (Inl not_found) else get_namespace mem_client n)\<rparr>\<rparr>"

lemma lagging_calls:
  "reader (lagging_reconciler hidden) = reader mem_reconciler"
  "Helpers (lagging_reconciler hidden) = Helpers mem_reconciler"
  "get_env (Client (lagging_reconciler hidden)) = get_env (Client mem_reconciler)"
  "update_env (Client (lagging_reconciler hidden)) = update_env (Client mem_reconciler)"
  "update_env_status (Client (lagging_reconciler hidden)) = update_env_status (Client mem_reconciler)"
  "create_namespace (Client (lagging_reconciler hidden)) = create_namespace (Client mem_reconciler)"
  "patch_namespace (Client (lagging_reconciler hidden)) = patch_namespace (Client mem_reconciler)"
  "delete_namespace (Client (lagging_reconciler hidden)) = delete_namespace (Client mem_reconciler)"
  "create_or_update_config_map (Client (lagging_reconciler hidden)) = create_or_update_config_map (Client mem_reconciler)"
  "delete_config_map (Client (lagging_reconciler hidden)) = delete_config_map (Client mem_reconciler)"
  "get_secret (Client (lagging_reconciler hidden)) = get_secret (Client mem_reconciler)"
  "create_secret (Client (lagging_reconciler hidden)) = create_secret (Client mem_reconciler)"
  "create_or_update_secret (Client (lagging_reconciler hidden)) = create_or_update_secret (Client mem_reconciler)"
  "delete_secret (Client (lagging_reconciler hidden)) = delete_secret (Client mem_reconciler)"
  "get_pvc (Client (lagging_reconciler hidden)) = get_pvc (Client mem_reconciler)"
  "create_pvc (Client (lagging_reconciler hidden)) = create_pvc (Client mem_reconciler)"
  "create_or_update_deployment (Client (lagging_reconciler hidden)) = create_or_update_deployment (Client mem_reconciler)"
  "list_deployments (Client (lagging_reconciler hidden)) = list_deployments (Client mem_reconciler)"
  "delete_deployment (Client (lagging_reconciler hidden)) = delete_deployment (Client mem_reconciler)"
  "create_or_update_service (Client (lagging_reconciler hidden)) = create_or_update_service (Client mem_reconciler)"
  "list_services (Client (lagging_reconciler hidden)) = list_services (Client mem_reconciler)"
  "delete_service (Client (lagging_reconciler hidden)) = delete_service (Client mem_reconciler)"
  by (simp_all add: lagging_reconciler_def mem_reconciler_def reader_def)

lemma lagging_observes:
  "observes mem_view (\<lambda>c. cl_namespaces c n) (get_namespace (Client (lagging_reconciler hidden)) n)"
proof (cases "n \<in> set hidden")
  case True
  then show ?thesis by (simp add: lagging_reconciler_def observes_def hoare_return_eq)
next
  case False
  then have "get_namespace (Client (lagging_reconciler hidden)) n = get_namespace (Client mem_reconciler) n"
    by (simp add: lagging_reconciler_def mem_reconciler_def)
  then show ?thesis using reads_observes [OF mem_api.get_namespace_law [of n]] by simp
qed

lemmas mem_laws = mem_api.admitted_ns mem_api.made_namespace_law mem_api.patched_namespace_law
  mem_api.deleted_namespace_law mem_api.create_or_update_config_map_law mem_api.delete_config_map_law
  mem_api.get_secret_law mem_api.read_secret_law mem_api.create_secret_law
  mem_api.create_or_update_secret_law mem_api.delete_secret_law mem_api.admit_pvc_law mem_api.get_pvc_law
  mem_api.create_pvc_law mem_api.admit_deploy_law mem_api.admit_deploy_status mem_api.admit_svc_law
  mem_api.create_or_update_deployment_law mem_api.list_deployments_law mem_api.delete_deployment_law
  mem_api.create_or_update_service_law mem_api.list_services_law mem_api.delete_service_law
  mem_api.list_pods_law mem_api.get_env_law mem_api.update_env_law mem_api.update_env_status_law
  mem_api.set_status_condition_law mem_api.contains_finalizer_law mem_api.add_finalizer_law
  mem_api.remove_finalizer_law

interpretation lagging: lagging_server "lagging_reconciler hidden" mem_view admit_namespace admit_claim
  admit_deployment "(=)" for hidden
  by unfold_locales ((simp only: lagging_calls)?, (rule lagging_observes mem_laws; assumption?))+

section \<open>Properties\<close>

text \<open>
  C20. Shared data is never overwritten or deleted. Whatever fails, and even when the namespace
  reads lag, a pass of any kind, teardown included, leaves every existing claim in the cluster
  exactly as it was, whatever \<open>spec.storage\<close> or the labels have become; and the only claim it can
  add is the one of the live record that was requested, under its derived name, with the contents
  of \<open>spec.storage\<close>.
\<close>

theorem claims_only_created:
  assumes api: "lagging_server r view admit_ns admit_pvc admit_deploy admit_svc"
    and run: "run_state (Reconcile r req) w = (res, w')"
  shows "(\<forall>k p. cl_pvcs (view w) k = Some p \<longrightarrow> cl_pvcs (view w') k = Some p) \<and>
    (\<forall>k p. cl_pvcs (view w) k = None \<longrightarrow> cl_pvcs (view w') k = Some p \<longrightarrow>
      (\<exists>e. requested req (view w) e \<and> k = (TargetNamespace e, pvcName e) \<and>
           claim_stored admit_pvc e (TargetNamespace e) p))"
proof -
  let ?c = "view w"
  define I where "I c' \<longleftrightarrow> (\<forall>k. cl_pvcs c' k = cl_pvcs ?c k \<or> cl_pvcs ?c k = None \<and>
    (\<exists>e p. requested req ?c e \<and> k = (TargetNamespace e, pvcName e) \<and> cl_pvcs c' k = Some p \<and>
       claim_stored admit_pvc e (TargetNamespace e) p))" for c' :: cluster
  have frame: "I c'" if "cl_pvcs c' = cl_pvcs c1" "I c1" for c1 c' using that by (simp add: I_def)
  then have about: "about I" unfolding about_def by blast
  have live: "preserves view I (reconcileLive r e')"
    if "cl_envs ?c (ReqNamespace req, ReqName req) = Some e" "DeletionTimestamp e = None"
      "Name e' = Name e" "Namespace e' = Namespace e" "Spec e' = Spec e" for e e'
  proof (intro lagging_server.reconcileLive_preserves [OF api] about
      lagging_server.reconcileNamespace_preserves [OF api] lagging_server.reconcilePVC_preserves [OF api])
    fix st
    assume st: "Storage (Spec e') = Some st"
    let ?p = "sharedClaim e' (TargetNamespace e') st"
    have e: "requested req ?c e" using that(1,2) by (simp add: requested_def)
    have key: "obj_key ?p = (TargetNamespace e, pvcName e)" "TargetNamespace e' = TargetNamespace e"
      using that(3,5) by (simp_all add: obj_key_def sharedClaim_def Let_def new_pvc_def new_meta_def
          object_meta.defs pvc.defs TargetNamespace_def pvcName_def)
    have same: "sharedClaim e' ns st = sharedClaim e ns st" for ns
      using that(3-5) by (simp add: sharedClaim_def Let_def labels_def pvcName_def)
    show "preserves view I (create_pvc (Client r) ?p)"
    proof (rule preserves_writes [OF pvc_api.create_pvc_law])
      show "pvc_api r view admit_pvc" by (rule lagging_server.axioms [OF api])
      fix c1 obj c2
      assume I: "I c1" and eff: "create_effect admit_pvc cl_pvcs cl_pvcs_update (obj_key ?p) ?p c1 obj c2"
      from create_effectD [OF eff] obtain z where c2: "c2 = c1\<lparr>cl_pvcs := (cl_pvcs c1)(obj_key ?p \<mapsto> obj)\<rparr>"
        and absent: "cl_pvcs c1 (obj_key ?p) = None" and z: "admit_pvc ?p z" "same_content z obj"
        by auto
      have "claim_stored admit_pvc e (TargetNamespace e) obj"
        using z st that(5) unfolding claim_stored_def by (auto simp: same key(2))
      moreover have "cl_pvcs ?c (obj_key ?p) = None" using I absent unfolding I_def by (metis option.distinct(1))
      ultimately show "I c2" using I e key(1) unfolding I_def c2 by auto
    qed
  qed (auto intro: frame)
  have delete: "preserves view I (reconcileDelete r e)" for e
    by (rule lagging_server.reconcileDelete_preserves [OF api]) (auto simp: observed_delete_def intro: frame)
  have "I ?c" by (simp add: I_def)
  have "hoare view ((=) ?c) (Reconcile r req) (\<lambda>_. I)"
    by (rule lagging_server.Reconcile_preserves [OF api about \<open>I ?c\<close> delete]) (rule live)
  from hoareD [OF this refl run] have "I (view w')" .
  then show ?thesis unfolding I_def by (metis option.distinct(1) option.inject)
qed

definition storage_env :: dev_environment where
  "storage_env = sample_env\<lparr>Spec := sample_spec\<lparr>Storage := Some
     \<lparr>Size = ''5Gi'', StorageClassName = None, AccessModes = [], StorageFSGroup = Some 472\<rparr>\<rparr>\<rparr>"

text \<open>A first pass makes the claim; then the size and the owner are edited.\<close>

definition storage_pass :: "(ctrl_result \<times> go_error option) \<times> mem" where
  "storage_pass = run_state (Reconcile mem_reconciler sample_request) (empty_mem\<lparr>m_envs := [storage_env]\<rparr>)"

definition resized_mem :: mem where
  "resized_mem = (snd storage_pass)\<lparr>m_envs := map (\<lambda>e. e\<lparr>Spec := (Spec e)\<lparr>Owner := ''team-beta'', Storage := Some
     \<lparr>Size = ''50Gi'', StorageClassName = None, AccessModes = [], StorageFSGroup = None\<rparr>\<rparr>\<rparr>) (m_envs (snd storage_pass))\<rparr>"

theorem claims_only_created_witness:
  "\<exists>p. cl_pvcs (mem_view resized_mem) (''team-alpha'', ''team-alpha-workspace'') = Some p \<and>
     PvcRequests p = [(''storage'', ''5Gi'')] \<and>
     cl_pvcs (mem_view (snd (run_state (Reconcile mem_reconciler sample_request) resized_mem)))
       (''team-alpha'', ''team-alpha-workspace'') = Some p"
proof -
  let ?k = "(''team-alpha'', ''team-alpha-workspace'')"
  have "map_option PvcRequests (lookup obj_key (m_pvcs resized_mem) ?k) = Some [(''storage'', ''5Gi'')]" by code_simp
  then obtain p where p: "cl_pvcs (mem_view resized_mem) ?k = Some p" "PvcRequests p = [(''storage'', ''5Gi'')]"
    by (auto simp: mem_view_def)
  then show ?thesis
    using claims_only_created [OF mem_api.lagging_server_axioms
        mem_run [of "Reconcile mem_reconciler sample_request" resized_mem]] by blast
qed

text \<open>
  C39. What the ownership test still guarantees when the cache lags. Reads of namespaces may miss
  ones that exist. Still no pass relabels or deletes a namespace that the requested environment
  does not own, and a pass over a live record that ends without an error leaves its target
  namespace in place: with the environment's labels, or, when the read missed it and the creation
  found it there, exactly as it was, whoever owns it. The last case is what a cache without lag
  excludes.
\<close>

theorem lagging_reads_spare_foreign_namespaces:
  assumes api: "lagging_server r view admit_ns admit_pvc admit_deploy admit_svc"
    and run: "run_state (Reconcile r req) w = (res, w')"
    and env: "cl_envs (view w) (ReqNamespace req, ReqName req) = Some env"
  shows "(\<forall>n obj. cl_namespaces (view w) n = Some obj \<longrightarrow> \<not> owns env obj \<longrightarrow>
      cl_namespaces (view w') n = Some obj) \<and>
    (DeletionTimestamp env = None \<longrightarrow> snd res = None \<longrightarrow>
      (\<exists>obj. cl_namespaces (view w') (TargetNamespace env) = Some obj \<and>
         (labels_current env obj \<or> cl_namespaces (view w) (TargetNamespace env) = Some obj)))"
proof -
  let ?c = "view w" and ?k = "(ReqNamespace req, ReqName req)"
  define I where "I c' \<longleftrightarrow> (\<forall>n obj. cl_namespaces ?c n = Some obj \<longrightarrow> \<not> owns env obj \<longrightarrow>
      cl_namespaces c' n = Some obj)" for c' :: cluster
  have frame: "I c'" if "cl_namespaces c' = cl_namespaces c1" "I c1" for c1 c' using that by (simp add: I_def)
  then have about: "about I" unfolding about_def by blast
  have step: "I (c1\<lparr>cl_namespaces := (cl_namespaces c1)(n := y)\<rparr>)"
    if "I c1" "namespace_step e (cl_namespaces c1 n) y" "\<And>x :: namespace. owns e x = owns env x" for c1 n y e
    using that unfolding I_def by (auto simp: namespace_step_def)
  have live: "preserves view I (reconcileLive r e')"
    if "cl_envs ?c ?k = Some e" "Name e' = Name e" "Namespace e' = Namespace e" for e e'
    using env that owns_env_cong [of e' env]
    by (intro lagging_server.reconcileLive_preserves [OF api] about
        lagging_server.reconcileNamespace_preserves [OF api]
        lagging_server.claim_step_preserves(2) [OF api]) (auto intro: step frame)
  have delete: "preserves view I (reconcileDelete r e)" if "cl_envs ?c ?k = Some e" for e
    using env that
    by (intro lagging_server.reconcileDelete_preserves [OF api]) (auto simp: observed_delete_def I_def)
  have "I ?c" by (simp add: I_def)
  have "hoare view ((=) ?c) (Reconcile r req) (\<lambda>_. I)"
    by (rule lagging_server.Reconcile_preserves [OF api about \<open>I ?c\<close> delete]) (assumption, rule live)
  from hoareD [OF this refl run] have "I (view w')" .
  moreover have present: "hoare view ((=) ?c) (Reconcile r req) (\<lambda>res c'. DeletionTimestamp env = None \<longrightarrow> snd res = None \<longrightarrow>
      (\<exists>obj. cl_namespaces c' (TargetNamespace env) = Some obj \<and>
         (labels_current env obj \<or> cl_namespaces ?c (TargetNamespace env) = Some obj)))"
    by (rule lagging_server.Reconcile_namespace [OF api env])
  ultimately show ?thesis using hoareD [OF present refl run] unfolding I_def by blast
qed

definition hidden_run :: "(ctrl_result \<times> go_error option) \<times> mem" where
  "hidden_run = run_state (Reconcile (lagging_reconciler [''team-alpha'']) sample_request)
     (start_mem\<lparr>m_namespaces := [new_meta [] ''team-alpha'']\<rparr>)"

text \<open>The run of a first pass into a foreign namespace that the cache has not seen.\<close>

theorem lagging_reads_spare_foreign_namespaces_witness:
  "snd (fst hidden_run) = None \<and>
   cl_namespaces (mem_view (snd hidden_run)) ''team-alpha'' = Some (new_meta [] ''team-alpha'') \<and>
   map obj_key (m_deployments (snd hidden_run)) = [(''team-alpha'', ''redis'')]"
proof -
  let ?w = "start_mem\<lparr>m_namespaces := [new_meta [] ''team-alpha'']\<rparr>"
  have run: "snd (fst hidden_run) = None" "map obj_key (m_deployments (snd hidden_run)) = [(''team-alpha'', ''redis'')]"
    by code_simp+
  have env: "cl_envs (mem_view ?w) (ReqNamespace sample_request, ReqName sample_request) = Some sample_env"
    by (simp add: mem_view_def start_mem_def sample_request_def obj_key_def)
  have ns: "cl_namespaces (mem_view ?w) ''team-alpha'' = Some (new_meta [] ''team-alpha'')"
    by (simp add: mem_view_def new_meta_def)
  have foreign: "\<not> owns sample_env (new_meta [] ''team-alpha'')"
    by (simp add: owns_def new_meta_def idx_def managerName_def)
  note spared = lagging_reads_spare_foreign_namespaces [OF lagging.lagging_server_axioms [of "[''team-alpha'']"]
      mem_run [of "Reconcile (lagging_reconciler [''team-alpha'']) sample_request" ?w], of sample_env]
  have "cl_namespaces (mem_view (snd hidden_run)) ''team-alpha'' = Some (new_meta [] ''team-alpha'')"
    unfolding hidden_run_def by (rule conjunct1 [OF spared [OF env], rule_format, OF ns foreign])
  then show ?thesis using run by blast
qed

text \<open>
  C40. A namespace that the cache has not seen is stranded by teardown. If the read of the target
  namespace misses, for whatever cluster and whoever owns the namespace, a pass over a record
  under deletion deletes no namespace, and unless it reports an error the record has lost the
  finalizer: NotFound is taken for proof that the namespace is gone.
\<close>

theorem missed_namespace_is_stranded:
  assumes api: "lagging_server r view admit_ns admit_pvc admit_deploy admit_svc"
    and run: "run_state (Reconcile r req) w = (res, w')"
    and env: "cl_envs (view w) (ReqNamespace req, ReqName req) = Some env"
      "DeletionTimestamp env \<noteq> None" "finalizerName \<in> set (Finalizers env)"
    and missed: "\<And>v. view v = view w \<Longrightarrow>
      \<exists>err. fst (run_state (get_namespace (Client r) (TargetNamespace env)) v) = Inl err \<and> is_not_found err"
  shows "cl_namespaces (view w') = cl_namespaces (view w) \<and>
    (snd res = None \<longrightarrow> (case cl_envs (view w') (ReqNamespace req, ReqName req) of
       None \<Rightarrow> True | Some e \<Rightarrow> finalizerName \<notin> set (Finalizers e)))"
proof -
  let ?c = "view w" and ?k = "(ReqNamespace req, ReqName req)"
  let ?Q = "\<lambda>res c'. cl_namespaces c' = cl_namespaces ?c \<and> (snd res = None \<longrightarrow>
    (case cl_envs c' ?k of None \<Rightarrow> True | Some e \<Rightarrow> finalizerName \<notin> set (Finalizers e)))"
  note laws = lagging_server.axioms [OF api]
  have "wf_cluster ?c" by (rule cluster_api.wf_view [OF lagging_namespace_api.axioms(1) [OF laws(1)]])
  then have key: "obj_key env = ?k" using env(1) unfolding wf_cluster_def keyed_def by blast
  have read: "hoare view ((=) ?c) (get_namespace (Client r) (TargetNamespace env))
      (\<lambda>got c'. c' = ?c \<and> (\<exists>err. got = Inl err \<and> is_not_found err))"
    unfolding hoare_def
  proof (rule tripleI)
    fix v got v'
    assume v: "?c = view v" and run: "run_state (get_namespace (Client r) (TargetNamespace env)) v = (got, v')"
    then have "view v' = ?c"
      using hoareD [OF lagging_namespace_api.observe_namespace_law [OF laws(1), unfolded observes_def, THEN spec] _ run]
      by blast
    then show "view v' = ?c \<and> (\<exists>err. got = Inl err \<and> is_not_found err)" using missed [of v] v run by simp
  qed
  have remove: "remove_finalizer (Helpers r) env finalizerName = without_finalizer env"
    by (simp add: env_api.remove_finalizer_law [OF laws(6)] without_finalizer_def)
  have released: "?Q res' c'" if "update_env_effect (without_finalizer env) ?c obj c'" for res' obj c'
    using that record_frames(1) [OF that] unfolding update_env_effect_def without_finalizer_key key
    by (elim exE conjE) (simp add: without_finalizer_def)
  have release: "hoare view ((=) ?c) (update_env (Client r) (without_finalizer env) \<bind>
      case_sum (\<lambda>err. State_Monad.return (no_result, Some (Wrapf ''removing finalizer'' err)))
        (\<lambda>x. State_Monad.return (no_result, None))) ?Q"
    by (rule write_step [OF env_api.update_env_law [OF laws(6)]]; simp only: sum.case;
        rule hoare_return_eq) (erule released | simp)+
  have delete: "hoare view ((=) ?c) (reconcileDelete r env) ?Q"
    unfolding reconcileDelete_def Let_def env_api.contains_finalizer_law [OF laws(6)] remove
  proof (simp only: env(3) not_True_eq_False if_False, rule hoare_step_at [OF read], goal_cases)
    case (1 got c')
    then obtain err where "got = Inl err" "is_not_found err" "c' = ?c" by blast
    then show ?case using release by simp
  qed
  have "hoare view ((=) ?c) (Reconcile r req) ?Q"
    unfolding Reconcile_def env_api.contains_finalizer_law [OF laws(6)]
  proof (rule read_step [OF env_api.get_env_law [OF laws(6)]], goal_cases)
    case (1 e)
    then have "e = env" using env(1) by simp
    then show ?case using env(2) delete by simp
  next
    case (2 e)
    then show ?case using env(1) by (auto intro!: hoare_return_eq simp: ignore_not_found_def)
  qed
  from hoareD [OF this refl run] show ?thesis .
qed

theorem missed_namespace_is_stranded_witness:
  "let w' = snd (run_state (Reconcile (lagging_reconciler [''team-alpha'']) sample_request) teardown_mem)
   in cl_namespaces (mem_view w') = cl_namespaces (mem_view teardown_mem) \<and> m_envs w' = [] \<and>
      list_all (owns sample_env) (m_namespaces teardown_mem) \<and> length (m_namespaces teardown_mem) = 1"
proof -
  let ?env = "sample_env\<lparr>DeletionTimestamp := Some 1, Finalizers := [finalizerName]\<rparr>"
  let ?run = "run_state (Reconcile (lagging_reconciler [''team-alpha'']) sample_request) teardown_mem"
  have facts: "m_envs (snd ?run) = []" "list_all (owns sample_env) (m_namespaces teardown_mem)"
    "length (m_namespaces teardown_mem) = 1"
    by code_simp+
  have env: "cl_envs (mem_view teardown_mem) (ReqNamespace sample_request, ReqName sample_request) = Some ?env"
    by (simp add: mem_view_def teardown_mem_def obj_key_def sample_request_def)
  have target: "TargetNamespace ?env = ''team-alpha''" by code_simp
  have missed: "\<exists>err. fst (run_state (get_namespace (Client (lagging_reconciler [''team-alpha'']))
      (TargetNamespace ?env)) v) = Inl err \<and> is_not_found err" for v
    unfolding target by (simp add: lagging_reconciler_def)
  have "cl_namespaces (mem_view (snd ?run)) = cl_namespaces (mem_view teardown_mem)"
    using missed_namespace_is_stranded [OF lagging.lagging_server_axioms
        mem_run [of "Reconcile (lagging_reconciler [''team-alpha'']) sample_request" teardown_mem] env _ _ missed]
    by simp
  then show ?thesis using facts by (simp add: Let_def)
qed

end
