(* ===== verification/Hazards.thy ===== *)
theory Hazards
  imports Lifecycle Lagging_Reads
begin

text \<open>
  Where the guarantees end: behaviour the code has and its documentation rules out. The text of
  each theorem says which promise it contradicts. What a lagging cache can do is in
  \<open>Lagging_Reads\<close>.
\<close>

text \<open>A record whose target namespace is named after the environment was provisioned.\<close>

definition moved_spec :: dev_environment_spec where
  "moved_spec = sample_spec\<lparr>NamespaceName := ''elsewhere''\<rparr>"

definition edited :: "(dev_environment \<Rightarrow> dev_environment) \<Rightarrow> mem \<Rightarrow> mem" where
  "edited f w = w\<lparr>m_envs := map f (m_envs w)\<rparr>"

definition pass_from :: "mem \<Rightarrow> mem" where
  "pass_from w = snd (run_state (Reconcile mem_reconciler sample_request) w)"

definition moved_mem :: mem where
  "moved_mem = pass_from (edited (\<lambda>e. e\<lparr>Spec := moved_spec\<rparr>) (snd first_pass))"

definition moved_and_deleted :: mem where
  "moved_and_deleted =
     pass_from (pass_from (edited (\<lambda>e. e\<lparr>DeletionTimestamp := Some 1\<rparr>) moved_mem))"

text \<open>What is left: no record, the names of the namespaces, and whether all are owned.\<close>

definition left_over :: "mem \<Rightarrow> bool \<times> string list \<times> bool" where
  "left_over w = (m_envs w = [], map Name (m_namespaces w), list_all (owns sample_env) (m_namespaces w))"

text \<open>
  C38. An edit that moves an environment strands its first namespace. The rule that makes
  \<open>namespaceName\<close> immutable accepts an edit that changes the target namespace, for every
  environment, exactly by adding or removing the field: both specs cannot have it. After such an
  edit no pass, whatever fails, touches the first namespace again, although it still carries the
  environment's labels; and when the record is deleted and its new namespace is gone, a pass
  without an error releases the record, so nothing is left that would reclaim the first one.
\<close>

theorem retargeting_strands_namespace:
  assumes api: "api_server r view admit_ns admit_pvc admit_deploy admit_svc"
    and edit: "Name new = Name old" "valid_transition (Spec old) (Spec new)"
      "TargetNamespace new \<noteq> TargetNamespace old"
    and new: "cl_envs (view w) (ReqNamespace req, ReqName req) = Some new"
    and run: "run_state (Reconcile r req) w = (res, w')"
  shows "(NamespaceName (Spec old) = []) \<noteq> (NamespaceName (Spec new) = []) \<and>
    cl_namespaces (view w') (TargetNamespace old) = cl_namespaces (view w) (TargetNamespace old) \<and>
    (DeletionTimestamp new \<noteq> None \<and> finalizerName \<in> set (Finalizers new) \<and> torn_down new (view w) \<and>
       snd res = None \<longrightarrow>
     (case cl_envs (view w') (ReqNamespace req, ReqName req) of
        None \<Rightarrow> True | Some e \<Rightarrow> finalizerName \<notin> set (Finalizers e)))"
proof (intro conjI impI)
  let ?c = "view w" and ?t = "TargetNamespace old" and ?k = "(ReqNamespace req, ReqName req)"
  show "(NamespaceName (Spec old) = []) \<noteq> (NamespaceName (Spec new) = [])"
    using edit by (auto simp: valid_transition_def TargetNamespace_def split: if_splits)
  note lag = api_server.server_lags [OF api]
  define I where "I c' \<longleftrightarrow> cl_namespaces c' ?t = cl_namespaces ?c ?t" for c' :: cluster
  have about: "about I" by (simp add: about_def I_def)
  have live: "preserves view I (reconcileLive r e')"
    if "cl_envs ?c ?k = Some e" "Name e' = Name e" "Spec e' = Spec e" for e e'
    using new that edit(3) target_cong [of e' new]
    by (intro lagging_server.reconcileLive_preserves [OF lag] about
        lagging_server.reconcileNamespace_preserves [OF lag]
        lagging_server.claim_step_preserves(2) [OF lag]) (auto simp: I_def)
  have delete: "preserves view I (reconcileDelete r e)" if "cl_envs ?c ?k = Some e" for e
    using new that edit(3)
    by (intro lagging_server.reconcileDelete_preserves [OF lag]) (auto simp: observed_delete_def I_def)
  have "I ?c" by (simp add: I_def)
  have "hoare view ((=) ?c) (Reconcile r req) (\<lambda>_. I)"
    by (rule lagging_server.Reconcile_preserves [OF lag about \<open>I ?c\<close> delete]) (assumption, rule live)
  from hoareD [OF this refl run] show "cl_namespaces (view w') ?t = cl_namespaces ?c ?t" by (simp add: I_def)
  assume del: "DeletionTimestamp new \<noteq> None \<and> finalizerName \<in> set (Finalizers new) \<and> torn_down new ?c \<and> snd res = None"
  then have "delete_pass new ?c res (view w')"
    using Reconcile_cases(1) [OF api run] new by (auto simp: reconcile_pass_def)
  then obtain obj where eff: "update_env_effect (without_finalizer new) ?c obj (view w')"
    using del unfolding delete_pass_def by auto
  have "obj_key new = ?k" using new Reconcile_cases(2) [OF api run] unfolding wf_cluster_def keyed_def by blast
  then show "case cl_envs (view w') ?k of None \<Rightarrow> True | Some e \<Rightarrow> finalizerName \<notin> set (Finalizers e)"
    using eff unfolding update_env_effect_def without_finalizer_key
    by (elim exE conjE) (simp add: without_finalizer_def)
qed

theorem retargeting_strands_namespace_witness:
  "valid_spec moved_spec \<and> left_over moved_mem = (False, [''elsewhere'', ''team-alpha''], True) \<and>
   left_over moved_and_deleted = (True, [''team-alpha''], True) \<and>
   cl_namespaces (mem_view moved_mem) ''team-alpha'' = cl_namespaces (mem_view (snd first_pass)) ''team-alpha''"
proof -
  let ?w = "edited (\<lambda>e. e\<lparr>Spec := moved_spec\<rparr>) (snd first_pass)"
  have runs: "valid_spec moved_spec" "left_over moved_mem = (False, [''elsewhere'', ''team-alpha''], True)"
    "left_over moved_and_deleted = (True, [''team-alpha''], True)"
    by code_simp+
  have edit: "valid_transition (Spec sample_env) moved_spec" "TargetNamespace sample_env = ''team-alpha''"
    by code_simp+
  have "map_option (\<lambda>e. (Name e, Spec e)) (lookup obj_key (m_envs ?w) (''default'', ''team-alpha'')) =
      Some (''team-alpha'', moved_spec)" by code_simp
  then obtain new where new: "cl_envs (mem_view ?w) (ReqNamespace sample_request, ReqName sample_request) = Some new"
      "Name new = ''team-alpha''" "Spec new = moved_spec"
    by (auto simp: mem_view_def sample_request_def)
  have "Name sample_env = ''team-alpha''" by code_simp
  moreover have "TargetNamespace new \<noteq> TargetNamespace sample_env"
    using new(3) edit(2) by (simp add: TargetNamespace_def moved_spec_def)
  ultimately have "cl_namespaces (mem_view (snd (run_state (Reconcile mem_reconciler sample_request) ?w)))
      (TargetNamespace sample_env) = cl_namespaces (mem_view ?w) (TargetNamespace sample_env)"
    using retargeting_strands_namespace [OF mem_api_server _ _ _ new(1) mem_run, of sample_env] new edit(1) by simp
  then have "cl_namespaces (mem_view moved_mem) ''team-alpha'' = cl_namespaces (mem_view (snd first_pass)) ''team-alpha''"
    unfolding moved_mem_def pass_from_def edit(2) by (simp add: mem_view_def edited_def)
  with runs show ?thesis by blast
qed

text \<open>
  The ConfigMap is dropped without an ownership test. With an empty \<open>spec.config\<close> a pass
  that gets through deletes whatever ConfigMap has the environment's ConfigMap name, also one
  that carries none of the labels that decide what the operator may delete.
\<close>

theorem config_map_deleted_unconditionally:
  assumes "api_server r view admit_ns admit_pvc admit_deploy admit_svc"
    and "Config (Spec env) = []"
    and "run_state (reconcileConfigMap r env ns) w = (Inr (), w')"
  shows "gone (cl_config_maps (view w') (ns, configMapName env))"
proof -
  have "config_pass env ns (view w) (Inr ()) (view w')"
    using hoareD [OF config_map_api.reconcileConfigMap_spec [OF api_server_parts(2) [OF assms(1)]] refl assms(3)] .
  then show ?thesis using assms(2) by (auto simp: config_pass_def config_synced_def)
qed

definition plain_env :: dev_environment where
  "plain_env = sample_env\<lparr>Spec := sample_spec\<lparr>Config := []\<rparr>\<rparr>"

definition hand_made :: config_map where
  "hand_made = (new_config_map ''team-alpha'' ''team-alpha-config'')\<lparr>CmData := [(''KEEP'', ''me'')]\<rparr>"

theorem config_map_deleted_unconditionally_witness:
  "let w' = snd (run_state (reconcileConfigMap mem_reconciler plain_env ''team-alpha'')
        (empty_mem\<lparr>m_config_maps := [hand_made]\<rparr>))
   in \<not> owns plain_env hand_made \<and> gone (cl_config_maps (mem_view w') (''team-alpha'', ''team-alpha-config''))"
proof -
  let ?run = "run_state (reconcileConfigMap mem_reconciler plain_env ''team-alpha'')
      (empty_mem\<lparr>m_config_maps := [hand_made]\<rparr>)"
  have "fst ?run = Inr ()" "\<not> owns plain_env hand_made" by code_simp+
  moreover from this have "?run = (Inr (), snd ?run)" by (simp add: prod_eq_iff)
  moreover have "configMapName plain_env = ''team-alpha-config''" by code_simp
  ultimately show ?thesis
    using config_map_deleted_unconditionally [OF mem_api_server, of plain_env]
    by (simp add: Let_def plain_env_def)
qed

end
