(* ===== verification/Spec2Isabelle.thy ===== *)
theory Spec2Isabelle
  imports Naming Images Validation Secret_Refs Render Diagnose Provision Status_Report Reconcile
    Readiness Startup Lifecycle Interleaving Request_Budget Permissions Status_Type Quiescence
    Deep_Copy Lagging_Reads Hazards
begin

text \<open>
  A verification library for the kado operator: a Kubernetes operator in Go that turns a
  \<open>DevEnvironment\<close> record into a namespace with a ConfigMap, copies of Secrets, a shared claim and
  a Deployment plus Service per requested service, reports on it in the record's status, and
  tears it down through a finalizer.

  \<^bold>\<open>The program and how its parts interact.\<close>
  \<open>cmd/main.go\<close> parses flags and starts a manager, which watches DevEnvironments, Namespaces and
  Deployments and calls \<open>Reconcile\<close> once per request on its work queue. \<open>Reconcile\<close>
  (\<open>internal/controller/devenvironment_controller.go\<close>) reads the record; for one under deletion
  it runs \<open>reconcileDelete\<close>; otherwise it stores the finalizer, runs \<open>reconcileEnvironment\<close>
  (namespace, ConfigMap, Secrets, claim, services, pruning, in this order, stopping at the first
  error) and then \<open>setProvisioned\<close> or \<open>setFailed\<close>, which write the status. The operator keeps
  no state of its own: all state is in the API server, and labels tie objects to their record.

  \<^bold>\<open>Theories and sources.\<close>
  \<^item> \<open>Prelude\<close>, \<open>Go_Lib\<close>: maps as association lists, sets, Hoare triples for the state monad;
    Go's number formatting, quoting, string functions and error wrapping.
  \<^item> \<open>Kube_Types\<close>, \<open>Api_Types\<close>: the API objects and the custom resource
    (\<open>api/v1alpha1/devenvironment_types.go\<close>) as records, integers at their width.
  \<^item> \<open>Defaulting\<close>: the defaults a server fills into the spec of a Deployment, as a locale.
  \<^item> \<open>Naming\<close>, \<open>Images\<close>, \<open>Secret_Refs\<close>, \<open>Render\<close>, \<open>Diagnose\<close>: the pure functions of
    the controller and \<open>mapping.go\<close>, under their Go names.
  \<^item> \<open>Regex\<close>, \<open>Validation\<close>: the validation markers, with an executable matcher for their
    patterns.
  \<^item> \<open>Kube_Client\<close>: the client, reader and helper calls as a record of operations over an open
    world type \<open>'w\<close>; a projection of the world to the stored \<open>cluster\<close>; and the laws of the
    calls, one locale per group of calls, \<open>api_server\<close> for all of them.
  \<^item> \<open>Ensure_Namespace\<close>, \<open>Ensure_Config\<close>, \<open>Copy_Secrets\<close>, \<open>Shared_Volume\<close>, \<open>Workloads\<close>,
    \<open>Provision\<close>: one method of the reconciler each as a program in the state monad, with the
    relation it satisfies (\<open>namespace_pass\<close>, \<open>config_pass\<close>, \<open>secrets_pass\<close>, \<open>claim_pass\<close>,
    \<open>services_pass\<close>, \<open>prune_pass\<close>, and \<open>environment_pass\<close> for the whole).
  \<^item> \<open>Status_Report\<close>, \<open>Reconcile\<close>: the status writes and the entry point, with \<open>status_pass\<close>,
    \<open>delete_pass\<close>, \<open>live_pass\<close> and \<open>reconcile_pass\<close> as their specifications.
  \<^item> \<open>Readiness\<close>: what the result of a pass and the status it wrote say about the cluster.
  \<^item> \<open>Lifecycle\<close>: passes interleaved with users, the namespace controller and other actors, as
    the inductive relations \<open>others\<close> and \<open>reachable\<close>.
  \<^item> \<open>Shared_Api\<close>, \<open>Interference\<close>, \<open>Interleaving\<close>: the client of an operator that is not
    alone. \<open>shared_api\<close> weakens the laws to calls that take effect at some moment of their run,
    with any steps of \<open>others\<close> before and after; the proofs follow the code request by request.
    \<open>api_server\<close> is the case without interference (a sublocale).
  \<^item> \<open>Request_Budget\<close>: the number of requests of a pass, in the locale \<open>metered_api\<close>.
  \<^item> \<open>Permissions\<close>: the RBAC markers, the roles of \<open>config/rbac/role.yaml\<close> and of the chart, and
    the requests of a pass, in the locale \<open>audited_api\<close>.
  \<^item> \<open>Status_Type\<close>, \<open>Quiescence\<close>: which statuses can be met, and what a pass does to an
    environment that already is as it should be.
  \<^item> \<open>Go_Memory\<close>, \<open>Deep_Copy\<close>: memory with pointers, slices and maps, and
    \<open>api/v1alpha1/zz_generated.deepcopy.go\<close> on it.
  \<^item> \<open>Startup\<close>: \<open>cmd/main.go\<close>, \<open>groupversion_info.go\<close> and \<open>SetupWithManager\<close>.
  \<^item> \<open>Mem_Cluster\<close>: an executable API server in memory with injected faults (a call served,
    broken, rejected, or carried out with its reply lost). It interprets every locale, so the
    laws are consistent, and the witnesses run the operator on it. \<open>Traced_Cluster\<close> puts a script
    of other actors, two counters and a log of the requests around it and interprets
    \<open>shared_api\<close>, \<open>metered_api\<close> and \<open>audited_api\<close>.
  \<^item> \<open>Lagging_Reads\<close>: the client when its cache may miss a namespace that exists. The locale
    \<open>lagging_server\<close> weakens the law of that read (\<open>api_server\<close> is a sublocale); the lemmas are
    about programs that preserve a property of the cluster.
  \<^item> \<open>Hazards\<close>: behaviour of the code that its documentation rules out.

  \<^bold>\<open>What the lemmas show.\<close> Each method has one specification lemma \<open><method>_spec\<close>, proved in
  the locale of the calls it uses: for every world that satisfies the laws, whatever fails, the
  cluster before and after and the result are related as stated, error branches included. The
  lemmas compose along the calls of the code up to \<open>Reconcile_spec\<close>. From it follow: confinement
  (a pass writes only what is the environment's), convergence (a pass without error establishes
  \<open>provisioned\<close>, a declarative description of the environment), the finalizer protocol (stored
  before anything is created, released after the namespace is gone), the truth of the status, the
  requeue policy, the independence of environments with different targets, the stillness of a
  settled environment, and, by rule induction over \<open>reachable\<close> and \<open>reporting\<close>, that no managed
  namespace is ever left without a record that holds it and that every status is coherent. The
  first of these is proved again over \<open>interleaved\<close>, with assertions that no other actor can
  break (\<open>steady\<close>) between any two requests. A pass sends at most 13 requests, four for each
  Secret and each service, and one for each object it was given in a list, and each is permitted
  by the roles that are installed. A generated copy has the value of the original and only new
  memory, if the copies of the libraries do. The lemmas of the pure functions show exactness or
  agreement with a reference definition: rendering over a stored Deployment is undone by the
  defaults of any server (\<open>defaulting\<close>), the patterns accept exactly their
  grammars, the Secrets copied are exactly those referenced, the problem report is one line per
  broken service.

  \<^bold>\<open>Bounds.\<close> No definition uses fuel: every loop of the code ranges over a finite list and is a
  structural recursion, except \<open>parse_args\<close>, which shortens the argument list, and the number
  formatter, which divides. Replica counts and ports are 32-bit words and are compared signed;
  the theorems that count services assume fewer than \<open>2 ^ 31\<close> of them (\<open>countable\<close>), as
  \<open>int32(len(...))\<close> does.

  \<^bold>\<open>Laws the client is assumed to obey\<close> (in \<open>Kube_Client\<close>): reads return the stored object or fail;
  a write that succeeds has its documented effect, with server-filled fields chosen by an
  admission relation; one that fails with NotFound, AlreadyExists or Conflict had none; one that
  fails otherwise may or may not have taken effect; updates are guarded by the resource version,
  deletion of a Secret by its UID.

  \<^bold>\<open>Not modelled.\<close>
  \<^item> Interference inside a pass is modelled for the invariant of \<open>Interleaving\<close> and for the request
    count; the other theorems take a pass as one atomic step for the other actors, with failed
    writes as the only sign of them. Reads are not stale, except that those of namespaces may
    miss one that exists in \<open>Lagging_Reads\<close>; a cache that returns an outdated object is not modelled.
  \<^item> The manager, its cache, the work queue and leader election, which are library code, and log
    calls and contexts, which do not influence the results.
  \<^item> The copy functions of the Kubernetes libraries, which the generated ones call: a parameter
    (\<open>go_library\<close>). Time zones and other immutable data that copies share do not count as memory.
  \<^item> JSON encoding of the objects; quantities are opaque strings, and fields of Kubernetes
    objects that the operator neither reads nor writes are left out.
  \<^item> The charts, manifests and scripts, apart from the two ClusterRoles: no logic of the operator.
\<close>

end
